(* ===== verification/Prelude.thy ===== *)
theory Prelude
  imports Main "HOL-Library.List_Lexorder" "HOL-Library.Char_ord" "HOL-Library.AList"
    "HOL-Library.Sublist"
begin

text \<open>
  The base of the development: the JavaScript string, array and object operations that the
  TypeScript sources under \<^verbatim>\<open>src/packages\<close> and \<^verbatim>\<open>src/sdk-ts\<close> use, with the lemmas and hints the
  component theories share.

  Strings are Isabelle strings, one \<open>char\<close> per UTF-16 code unit below 256; the order on them
  (\<open>List_Lexorder\<close>, \<open>Char_ord\<close>) is the code unit order of JavaScript's \<^verbatim>\<open><\<close>.  Case mapping
  is the one for ASCII letters.  Objects are association lists in enumeration order.
\<close>

named_theorems js_simps \<open>evaluation rules for the string and object operations\<close>

section \<open>Strings\<close>

definition starts_with :: "string \<Rightarrow> string \<Rightarrow> bool" where
  "starts_with s p \<longleftrightarrow> take (length p) s = p"

definition ends_with :: "string \<Rightarrow> string \<Rightarrow> bool" where
  "ends_with s p \<longleftrightarrow> length p \<le> length s \<and> drop (length s - length p) s = p"

fun includes_str :: "string \<Rightarrow> string \<Rightarrow> bool" where
  "includes_str [] p = (p = [])"
| "includes_str (c # s) p = (starts_with (c # s) p \<or> includes_str s p)"

text \<open>The text before the first occurrence of a pattern, \<^verbatim>\<open>s.split(p)[0]\<close>.\<close>

fun before_str :: "string \<Rightarrow> string \<Rightarrow> string" where
  "before_str p [] = []"
| "before_str p (c # s) = (if starts_with (c # s) p then [] else c # before_str p s)"

fun js_split :: "char \<Rightarrow> string \<Rightarrow> string list" where
  "js_split c [] = [[]]"
| "js_split c (x # xs) =
     (if x = c then [] # js_split c xs
      else (case js_split c xs of [] \<Rightarrow> [[x]] | y # ys \<Rightarrow> (x # y) # ys))"

fun js_join :: "string \<Rightarrow> string list \<Rightarrow> string" where
  "js_join sep [] = []"
| "js_join sep [x] = x"
| "js_join sep (x # y # ys) = x @ sep @ js_join sep (y # ys)"

definition lower_char :: "char \<Rightarrow> char" where
  "lower_char c = (if CHR ''A'' \<le> c \<and> c \<le> CHR ''Z'' then char_of (of_char c + 32 :: nat) else c)"

definition upper_char :: "char \<Rightarrow> char" where
  "upper_char c = (if CHR ''a'' \<le> c \<and> c \<le> CHR ''z'' then char_of (of_char c - 32 :: nat) else c)"

definition to_lower :: "string \<Rightarrow> string" where
  "to_lower s = map lower_char s"

definition to_upper :: "string \<Rightarrow> string" where
  "to_upper s = map upper_char s"

definition is_digit :: "char \<Rightarrow> bool" where
  "is_digit c \<longleftrightarrow> CHR ''0'' \<le> c \<and> c \<le> CHR ''9''"

definition is_alpha :: "char \<Rightarrow> bool" where
  "is_alpha c \<longleftrightarrow> (CHR ''a'' \<le> c \<and> c \<le> CHR ''z'') \<or> (CHR ''A'' \<le> c \<and> c \<le> CHR ''Z'')"

definition is_upper_alpha :: "char \<Rightarrow> bool" where
  "is_upper_alpha c \<longleftrightarrow> CHR ''A'' \<le> c \<and> c \<le> CHR ''Z''"

text \<open>The regular expression class \<^verbatim>\<open>\w\<close>.\<close>

definition is_word :: "char \<Rightarrow> bool" where
  "is_word c \<longleftrightarrow> is_alpha c \<or> is_digit c \<or> c = CHR ''_''"

text \<open>The white space that \<^verbatim>\<open>trim\<close> removes and \<^verbatim>\<open>\s\<close> matches, among code units below 256.\<close>

definition is_space :: "char \<Rightarrow> bool" where
  "is_space c \<longleftrightarrow> (let n = (of_char c :: nat) in (9 \<le> n \<and> n \<le> 13) \<or> n = 32 \<or> n = 160)"

definition js_trim :: "string \<Rightarrow> string" where
  "js_trim s = rev (dropWhile is_space (rev (dropWhile is_space s)))"

text \<open>\<^verbatim>\<open>s.lastIndexOf(c)\<close> for a single character, \<open>None\<close> for \<^verbatim>\<open>-1\<close>.\<close>

fun last_index :: "char \<Rightarrow> string \<Rightarrow> nat option" where
  "last_index c [] = None"
| "last_index c (x # xs) =
     (case last_index c xs of Some i \<Rightarrow> Some (Suc i) | None \<Rightarrow> if x = c then Some 0 else None)"

text \<open>Decimal rendering of integers, \<^verbatim>\<open>String(n)\<close> for an integer below \<open>10^21\<close> in size.\<close>

definition digit_char :: "nat \<Rightarrow> char" where
  "digit_char d = char_of (48 + d)"

fun show_nat :: "nat \<Rightarrow> string" where
  "show_nat n = (if n < 10 then [digit_char n] else show_nat (n div 10) @ [digit_char (n mod 10)])"

declare show_nat.simps [simp del]

definition show_int :: "int \<Rightarrow> string" where
  "show_int i = (if i < 0 then CHR ''-'' # show_nat (nat (- i)) else show_nat (nat i))"

section \<open>Arrays and objects\<close>

text \<open>\<^verbatim>\<open>[...new Set(xs)]\<close>: the first occurrence of each element, in order.\<close>

fun uniq_from :: "'a list \<Rightarrow> 'a list \<Rightarrow> 'a list" where
  "uniq_from seen [] = []"
| "uniq_from seen (x # xs) =
     (if x \<in> set seen then uniq_from seen xs else x # uniq_from (x # seen) xs)"

definition uniq :: "'a list \<Rightarrow> 'a list" where
  "uniq xs = uniq_from [] xs"

text \<open>\<^verbatim>\<open>a ?? b\<close> on a possibly undefined value.\<close>

fun orelse :: "'a option \<Rightarrow> 'a \<Rightarrow> 'a" where
  "orelse None d = d"
| "orelse (Some x) d = x"

fun orelse_opt :: "'a option \<Rightarrow> 'a option \<Rightarrow> 'a option" where
  "orelse_opt None d = d"
| "orelse_opt (Some x) d = Some x"

text \<open>\<^verbatim>\<open>xs[i]\<close> for an index within or beyond the array.\<close>

fun nth_opt :: "'a list \<Rightarrow> nat \<Rightarrow> 'a option" where
  "nth_opt [] n = None"
| "nth_opt (x # xs) 0 = Some x"
| "nth_opt (x # xs) (Suc n) = nth_opt xs n"

text \<open>The first failure of a check run over the elements with their index.\<close>

fun first_err :: "(nat \<Rightarrow> 'a \<Rightarrow> 'e option) \<Rightarrow> nat \<Rightarrow> 'a list \<Rightarrow> 'e option" where
  "first_err f i [] = None"
| "first_err f i (x # xs) = (case f i x of Some e \<Rightarrow> Some e | None \<Rightarrow> first_err f (Suc i) xs)"

text \<open>The resolution of \<^verbatim>\<open>..\<close> over path segments: push, or drop the last one.\<close>

definition push_segment :: "string list \<Rightarrow> string \<Rightarrow> string list" where
  "push_segment out p = (if p = ''..'' then butlast out else out @ [p])"

definition resolve_segments :: "string list \<Rightarrow> string list" where
  "resolve_segments parts = foldl push_segment [] (filter (\<lambda>p. p \<noteq> ''.'' \<and> p \<noteq> []) parts)"

section \<open>Shared lemmas\<close>

lemma set_push_segments: "set (foldl push_segment out ps) \<subseteq> set out \<union> (set ps - {''..''})"
proof (induction ps arbitrary: out)
  case (Cons p ps)
  have "set (push_segment out p) \<subseteq> set out \<union> ({p} - {''..''})"
    by (auto simp: push_segment_def dest: in_set_butlastD)
  with Cons.IH [of "push_segment out p"] show ?case by auto
qed simp

lemma set_resolve_segments: "set (resolve_segments ps) \<subseteq> set ps - {[], ''.'', ''..''}"
  using set_push_segments [of "[]"] unfolding resolve_segments_def by fastforce

lemma starts_with_append [simp]: "starts_with (p @ s) p"
  by (simp add: starts_with_def)

lemma starts_with_Nil [simp]: "starts_with s []"
  by (simp add: starts_with_def)

lemma starts_with_Cons [simp]: "starts_with s (c # p) = (case s of [] \<Rightarrow> False | x # xs \<Rightarrow> x = c \<and> starts_with xs p)"
  by (cases s) (auto simp: starts_with_def)

lemma starts_with_iff: "starts_with s p \<longleftrightarrow> (\<exists>r. s = p @ r)"
  by (metis append_eq_conv_conj append_take_drop_id starts_with_def)

lemma js_split_not_Nil [simp]: "js_split c s \<noteq> []"
  by (cases s) (auto split: list.splits)

lemma js_join_Cons: "ys \<noteq> [] \<Longrightarrow> js_join sep (x # ys) = x @ sep @ js_join sep ys"
  by (cases ys) auto

lemma js_join_split: "js_join [c] (js_split c s) = s"
proof (induction s)
  case Nil
  then show ?case by simp
next
  case (Cons x s)
  obtain y ys where y: "js_split c s = y # ys"
    using js_split_not_Nil [of c s] by (cases "js_split c s") auto
  show ?case
    using Cons.IH y by (cases ys) (auto simp: js_join_Cons)
qed

lemma js_split_no_sep: "p \<in> set (js_split c s) \<Longrightarrow> c \<notin> set p"
  by (induction s arbitrary: p) (auto split: list.splits if_splits)

lemma set_uniq_from: "set (uniq_from seen xs) = set xs - set seen"
  by (induction xs arbitrary: seen) auto

lemma set_uniq [simp]: "set (uniq xs) = set xs"
  by (simp add: uniq_def set_uniq_from)

lemma distinct_uniq_from: "distinct (uniq_from seen xs)"
  by (induction xs arbitrary: seen) (auto simp: set_uniq_from)

lemma distinct_uniq [simp]: "distinct (uniq xs)"
  by (simp add: uniq_def distinct_uniq_from)

lemma nth_opt_Some_iff: "nth_opt xs n = Some x \<longleftrightarrow> n < length xs \<and> xs ! n = x"
  by (induction xs n rule: nth_opt.induct) auto

lemma nth_opt_None_iff: "nth_opt xs n = None \<longleftrightarrow> length xs \<le> n"
  by (induction xs n rule: nth_opt.induct) auto

lemma nth_opt_append_length [simp]: "nth_opt (xs @ y # ys) (length xs) = Some y"
  by (simp add: nth_opt_Some_iff)

lemma first_err_None_iff:
  "first_err f i xs = None \<longleftrightarrow> (\<forall>j < length xs. f (i + j) (xs ! j) = None)"
proof (induction f i xs rule: first_err.induct)
  case (1 f i)
  then show ?case by simp
next
  case (2 f i x xs)
  show ?case
  proof (cases "f i x")
    case None
    with 2 show ?thesis
      by (auto simp: less_Suc_eq_0_disj)
  next
    case (Some e)
    then show ?thesis by (auto intro!: exI [of _ 0])
  qed
qed

lemma first_err_SomeD:
  "first_err f i xs = Some e \<Longrightarrow> \<exists>j < length xs. f (i + j) (xs ! j) = Some e"
proof (induction f i xs rule: first_err.induct)
  case (1 f i)
  then show ?case by simp
next
  case (2 f i x xs)
  show ?case
  proof (cases "f i x")
    case None
    with "2.prems" have "first_err f (Suc i) xs = Some e" by simp
    with "2.IH" None obtain j where "j < length xs" "f (Suc i + j) (xs ! j) = Some e" by blast
    then show ?thesis by (intro exI [of _ "Suc j"]) simp
  next
    case (Some e')
    with "2.prems" show ?thesis by (intro exI [of _ 0]) simp
  qed
qed

lemma first_err_cong [fundef_cong]:
  "\<lbrakk>xs = ys; i = j; \<And>k x. x \<in> set ys \<Longrightarrow> f k x = g k x\<rbrakk> \<Longrightarrow> first_err f i xs = first_err g j ys"
proof -
  have "(\<And>k x. x \<in> set ys \<Longrightarrow> f k x = g k x) \<Longrightarrow> first_err f j ys = first_err g j ys" for j
    by (induction ys arbitrary: j) (auto split: option.splits)
  then show "\<lbrakk>xs = ys; i = j; \<And>k x. x \<in> set ys \<Longrightarrow> f k x = g k x\<rbrakk> \<Longrightarrow> first_err f i xs = first_err g j ys"
    by simp
qed

lemma those_Some_iff: "those xs = Some ys \<longleftrightarrow> xs = map Some ys"
proof (induction xs arbitrary: ys)
  case Nil
  then show ?case by auto
next
  case (Cons x xs)
  then show ?case by (cases ys) (auto split: option.splits)
qed

lemma those_None_iff: "those xs = None \<longleftrightarrow> None \<in> set xs"
  by (induction xs) (auto split: option.splits)

lemma those_map_Some [simp]: "those (map (\<lambda>x. Some (f x)) xs) = Some (map f xs)"
  by (simp add: those_Some_iff)

subsection \<open>Decimal rendering is injective\<close>

definition digit_val :: "char \<Rightarrow> nat" where
  "digit_val c = of_char c - 48"

definition read_nat :: "string \<Rightarrow> nat" where
  "read_nat s = foldl (\<lambda>n c. 10 * n + digit_val c) 0 s"

lemma digit_val_char [simp]: "d < 10 \<Longrightarrow> digit_val (digit_char d) = d"
  by (simp add: digit_val_def digit_char_def)

lemma is_digit_digit_char [simp]: "d < 10 \<Longrightarrow> is_digit (digit_char d)"
  by (simp add: is_digit_def digit_char_def less_eq_char_def)

lemma read_show_nat [simp]: "read_nat (show_nat n) = n"
proof (induction n rule: show_nat.induct)
  case (1 n)
  show ?case
  proof (cases "n < 10")
    case True
    then show ?thesis by (subst show_nat.simps) (simp add: read_nat_def)
  next
    case False
    with 1 have "read_nat (show_nat (n div 10)) = n div 10" by simp
    with False show ?thesis
      by (subst show_nat.simps) (simp add: read_nat_def)
  qed
qed

lemma show_nat_inj [simp]: "show_nat m = show_nat n \<longleftrightarrow> m = n"
  by (metis read_show_nat)

lemma show_nat_digits: "c \<in> set (show_nat n) \<Longrightarrow> is_digit c"
proof (induction n rule: show_nat.induct)
  case (1 n)
  show ?case
  proof (cases "n < 10")
    case True
    with 1 show ?thesis by (auto simp: show_nat.simps [of n])
  next
    case False
    with 1 show ?thesis by (auto simp: show_nat.simps [of n])
  qed
qed

lemma show_nat_not_Nil [simp]: "show_nat n \<noteq> []"
  by (subst show_nat.simps) simp

lemma minus_not_digit [simp]: "\<not> is_digit (CHR ''-'')"
  by (simp add: is_digit_def less_eq_char_def)

lemma show_nat_hd: "show_nat n = c # cs \<Longrightarrow> is_digit c"
  using show_nat_digits [of c n] by simp

lemma show_int_inj [simp]: "show_int i = show_int j \<longleftrightarrow> i = j"
proof
  assume eq: "show_int i = show_int j"
  have hd: "show_nat n \<noteq> CHR ''-'' # r" for n r
    using show_nat_hd [of n "CHR ''-''" r] by auto
  show "i = j"
    using eq hd hd [symmetric] by (auto simp: show_int_def split: if_splits)
qed simp

lemma show_int_chars: "c \<in> set (show_int i) \<Longrightarrow> is_digit c \<or> c = CHR ''-''"
  by (auto simp: show_int_def split: if_splits dest: show_nat_digits)

lemma show_int_not_Nil [simp]: "show_int i \<noteq> []"
  by (simp add: show_int_def)

end
