(* ===== verification/Json.thy ===== *)
theory Json
  imports Prelude "HOL-Library.Multiset"
begin

text \<open>
  JSON values and their canonical form: \<^verbatim>\<open>packages/core/src/jcs.ts\<close> and the value helpers
  (\<^verbatim>\<open>asRecord\<close>, \<^verbatim>\<open>str\<close>, \<^verbatim>\<open>stringify\<close>) that every module of the core repeats.

  A number is \<open>JInt\<close> when it is an integer, \<open>JFrac s\<close> when it is a finite non-integer whose
  \<^verbatim>\<open>Number::toString\<close> text is \<open>s\<close> (the text determines the double), and \<open>JNonFinite s\<close> for
  \<^verbatim>\<open>NaN\<close> and the infinities.  Integers are rendered without exponent, as JavaScript does below
  \<open>10^21\<close>.  The main results: two values have the same canonical text exactly when they are the
  same up to the order of object keys.
\<close>

datatype json =
    JNull
  | JBool bool
  | JInt int
  | JFrac string
  | JNonFinite string
  | JStr string
  | JArr "json list"
  | JObj "(string \<times> json) list"

section \<open>Reading values\<close>

text \<open>\<^verbatim>\<open>rec[key]\<close> on a record; \<open>None\<close> is \<^verbatim>\<open>undefined\<close>.\<close>

fun obj_get :: "json \<Rightarrow> string \<Rightarrow> json option" where
  "obj_get (JObj kvs) k = map_of kvs k"
| "obj_get _ k = None"

definition as_record :: "json option \<Rightarrow> (string \<times> json) list" where
  "as_record v = (case v of Some (JObj kvs) \<Rightarrow> kvs | _ \<Rightarrow> [])"

definition str_of :: "json option \<Rightarrow> string option" where
  "str_of v = (case v of Some (JStr s) \<Rightarrow> Some s | _ \<Rightarrow> None)"

definition truthy :: "json option \<Rightarrow> bool" where
  "truthy v = (case v of
      None \<Rightarrow> False
    | Some JNull \<Rightarrow> False
    | Some (JBool b) \<Rightarrow> b
    | Some (JInt i) \<Rightarrow> i \<noteq> 0
    | Some (JNonFinite s) \<Rightarrow> s \<noteq> ''NaN''
    | Some (JStr s) \<Rightarrow> s \<noteq> []
    | Some _ \<Rightarrow> True)"

text \<open>\<^verbatim>\<open>v == null\<close>: null or undefined.\<close>

definition nullish :: "json option \<Rightarrow> bool" where
  "nullish v = (case v of None \<Rightarrow> True | Some JNull \<Rightarrow> True | _ \<Rightarrow> False)"

fun is_number :: "json \<Rightarrow> bool" where
  "is_number (JInt i) = True"
| "is_number (JFrac s) = True"
| "is_number (JNonFinite s) = True"
| "is_number _ = False"

text \<open>\<^verbatim>\<open>Object.entries\<close> on a value of any type.\<close>

fun enum_from :: "nat \<Rightarrow> json list \<Rightarrow> (string \<times> json) list" where
  "enum_from n [] = []"
| "enum_from n (v # vs) = (show_nat n, v) # enum_from (Suc n) vs"

fun entries :: "json \<Rightarrow> (string \<times> json) list" where
  "entries (JObj kvs) = kvs"
| "entries (JArr vs) = enum_from 0 vs"
| "entries (JStr s) = enum_from 0 (map (\<lambda>c. JStr [c]) s)"
| "entries _ = []"

section \<open>Text of values\<close>

definition hex_digit :: "nat \<Rightarrow> char" where
  "hex_digit d = (if d < 10 then char_of (48 + d) else char_of (87 + d))"

definition esc_char :: "char \<Rightarrow> string" where
  "esc_char c =
     (let n = (of_char c :: nat) in
      if n = 34 then [CHR 0x5C, CHR 0x22]
      else if n = 92 then [CHR 0x5C, CHR 0x5C]
      else if n = 8 then CHR 0x5C # ''b''
      else if n = 12 then CHR 0x5C # ''f''
      else if n = 10 then CHR 0x5C # ''n''
      else if n = 13 then CHR 0x5C # ''r''
      else if n = 9 then CHR 0x5C # ''t''
      else if n < 32 then CHR 0x5C # ''u00'' @ [hex_digit (n div 16), hex_digit (n mod 16)]
      else [c])"

definition json_string :: "string \<Rightarrow> string" where
  "json_string s = CHR 0x22 # concat (map esc_char s) @ [CHR 0x22]"

lemma sort_key_size [termination_simp]:
  "(k, v) \<in> set (sort_key f kvs) \<Longrightarrow> size v < Suc (size_list (size_prod (\<lambda>x. 0) size) kvs)"
  by (simp, induction kvs) auto

text \<open>\<^verbatim>\<open>canonicalize\<close> and its worker \<^verbatim>\<open>emit\<close>; \<open>None\<close> is the exception for a non-finite number.\<close>

fun emit :: "json \<Rightarrow> string option" where
  "emit JNull = Some ''null''"
| "emit (JBool b) = Some (if b then ''true'' else ''false'')"
| "emit (JInt i) = Some (show_int i)"
| "emit (JFrac s) = Some s"
| "emit (JNonFinite s) = None"
| "emit (JStr s) = Some (json_string s)"
| "emit (JArr vs) =
     map_option (\<lambda>parts. ''['' @ js_join '','' parts @ '']'') (those (map emit vs))"
| "emit (JObj kvs) =
     map_option (\<lambda>parts. ''{'' @ js_join '','' parts @ ''}'')
       (those (map (\<lambda>(k, v). map_option (\<lambda>t. json_string k @ '':'' @ t) (emit v)) (sort_key fst kvs)))"

definition canonicalize :: "json \<Rightarrow> string option" where
  "canonicalize v = emit v"

text \<open>\<^verbatim>\<open>JSON.stringify\<close>: keys in enumeration order, non-finite numbers as null.\<close>

fun json_stringify :: "json \<Rightarrow> string" where
  "json_stringify JNull = ''null''"
| "json_stringify (JBool b) = (if b then ''true'' else ''false'')"
| "json_stringify (JInt i) = show_int i"
| "json_stringify (JFrac s) = s"
| "json_stringify (JNonFinite s) = ''null''"
| "json_stringify (JStr s) = json_string s"
| "json_stringify (JArr vs) = ''['' @ js_join '','' (map json_stringify vs) @ '']''"
| "json_stringify (JObj kvs) =
     ''{'' @ js_join '','' (map (\<lambda>(k, v). json_string k @ '':'' @ json_stringify v) kvs) @ ''}''"

text \<open>\<^verbatim>\<open>String(v)\<close>.\<close>

fun js_string :: "json \<Rightarrow> string" where
  "js_string JNull = ''null''"
| "js_string (JBool b) = (if b then ''true'' else ''false'')"
| "js_string (JInt i) = show_int i"
| "js_string (JFrac s) = s"
| "js_string (JNonFinite s) = s"
| "js_string (JStr s) = s"
| "js_string (JArr vs) = js_join '','' (map (\<lambda>v. if v = JNull then [] else js_string v) vs)"
| "js_string (JObj kvs) = ''[object Object]''"

text \<open>The \<^verbatim>\<open>stringify\<close> of the plan compiler: strings as they are, null and undefined empty.\<close>

definition stringify :: "json option \<Rightarrow> string" where
  "stringify v = (case v of
      None \<Rightarrow> []
    | Some JNull \<Rightarrow> []
    | Some (JStr s) \<Rightarrow> s
    | Some (JInt i) \<Rightarrow> show_int i
    | Some (JFrac s) \<Rightarrow> s
    | Some (JNonFinite s) \<Rightarrow> s
    | Some (JBool b) \<Rightarrow> (if b then ''true'' else ''false'')
    | Some w \<Rightarrow> json_stringify w)"

section \<open>Normal form\<close>

text \<open>The value with the keys of every object sorted: what the canonical text preserves.\<close>

fun norm :: "json \<Rightarrow> json" where
  "norm (JArr vs) = JArr (map norm vs)"
| "norm (JObj kvs) = JObj (map (\<lambda>(k, v). (k, norm v)) (sort_key fst kvs))"
| "norm v = v"

text \<open>
  The texts of non-integers are decimal texts with a point or an exponent, which tells them from
  the text of an integer.
\<close>

definition num_char :: "char \<Rightarrow> bool" where
  "num_char c \<longleftrightarrow> is_digit c \<or> c \<in> {CHR ''-'', CHR ''.'', CHR ''e'', CHR ''+''}"

definition frac_ok :: "string \<Rightarrow> bool" where
  "frac_ok s \<longleftrightarrow> list_all num_char s \<and> (CHR ''.'' \<in> set s \<or> CHR ''e'' \<in> set s)
     \<and> (case s of [] \<Rightarrow> False | c # _ \<Rightarrow> is_digit c \<or> c = CHR ''-'')"

fun json_ok :: "json \<Rightarrow> bool" where
  "json_ok (JFrac s) = frac_ok s"
| "json_ok (JArr vs) = list_all json_ok vs"
| "json_ok (JObj kvs) = list_all (\<lambda>(k, v). json_ok v) kvs"
| "json_ok _ = True"

section \<open>Unique readability\<close>

definition hex_val :: "char \<Rightarrow> nat" where
  "hex_val c = (let n = (of_char c :: nat) in if n < 58 then n - 48 else n - 87)"

lemma hex_val_digit [simp]: "d < 16 \<Longrightarrow> hex_val (hex_digit d) = d"
  by (simp add: hex_val_def hex_digit_def)

fun unesc :: "string \<Rightarrow> (char \<times> string) option" where
  "unesc [] = None"
| "unesc (c # r) =
     (if c = CHR 0x5C then
        (case r of
           [] \<Rightarrow> None
         | e # q \<Rightarrow>
             if e = CHR 0x22 \<or> e = CHR 0x5C then Some (e, q)
             else if e = CHR ''b'' then Some (char_of (8::nat), q)
             else if e = CHR ''f'' then Some (char_of (12::nat), q)
             else if e = CHR ''n'' then Some (char_of (10::nat), q)
             else if e = CHR ''r'' then Some (char_of (13::nat), q)
             else if e = CHR ''t'' then Some (char_of (9::nat), q)
             else (case q of
                     _ # _ # x # y # p \<Rightarrow> Some (char_of (16 * hex_val x + hex_val y), p)
                   | _ \<Rightarrow> None))
      else Some (c, r))"

lemma of_char_eq_iff: "(of_char c = (n::nat)) \<longleftrightarrow> (c = char_of n \<and> n < 256)"
proof
  assume "of_char c = n"
  then show "c = char_of n \<and> n < 256" by auto
qed simp

lemma char_of_codes [simp]:
  "char_of (34::nat) = CHR 0x22" "char_of (92::nat) = CHR 0x5C" "char_of (8::nat) = CHR 0x08"
  "char_of (12::nat) = CHR 0x0C" "char_of (10::nat) = CHR 0x0A" "char_of (13::nat) = CHR 0x0D"
  "char_of (9::nat) = CHR 0x09"
  by code_simp+

lemma unesc_esc [simp]: "unesc (esc_char c @ r) = Some (c, r)"
proof -
  have ctl: "char_of (16 * (n div 16) + n mod 16) = c" if "n = of_char c" for n :: nat
    using that by simp
  show ?thesis
    by (auto simp: esc_char_def Let_def of_char_eq_iff ctl)
qed

lemma esc_char_hd: "\<exists>d ds. esc_char c = d # ds \<and> d \<noteq> CHR 0x22"
  by (auto simp: esc_char_def Let_def of_char_eq_iff)

lemma esc_concat_unique:
  "concat (map esc_char s) @ CHR 0x22 # r = concat (map esc_char t) @ CHR 0x22 # q
   \<Longrightarrow> s = t \<and> r = q"
proof (induction s arbitrary: t)
  case Nil
  show ?case
  proof (cases t)
    case Nil
    with Nil.prems show ?thesis by simp
  next
    case (Cons d t')
    with Nil.prems esc_char_hd [of d] show ?thesis by auto
  qed
next
  case (Cons c s)
  show ?case
  proof (cases t)
    case Nil
    with Cons.prems esc_char_hd [of c] show ?thesis by auto
  next
    case t: (Cons d t')
    have "unesc (esc_char c @ concat (map esc_char s) @ CHR 0x22 # r)
        = unesc (esc_char d @ concat (map esc_char t') @ CHR 0x22 # q)"
      using Cons.prems t by simp
    then have "c = d" and "concat (map esc_char s) @ CHR 0x22 # r = concat (map esc_char t') @ CHR 0x22 # q"
      by simp_all
    with Cons.IH [of t'] t show ?thesis by simp
  qed
qed

lemma json_string_unique: "json_string s @ r = json_string t @ q \<Longrightarrow> s = t \<and> r = q"
  using esc_concat_unique [of s r t q] by (simp add: json_string_def)

lemma json_string_inj [simp]: "json_string s = json_string t \<longleftrightarrow> s = t"
  using json_string_unique [of s "[]" t "[]"] by auto

text \<open>What may follow a value inside a canonical text.\<close>

definition value_end :: "string \<Rightarrow> bool" where
  "value_end r \<longleftrightarrow> (case r of [] \<Rightarrow> True | c # _ \<Rightarrow> c \<in> {CHR '','', CHR '']'', CHR ''}''})"

lemma value_end_simps [simp]: "value_end []" "value_end (c # r) \<longleftrightarrow> c \<in> {CHR '','', CHR '']'', CHR ''}''}"
  by (simp_all add: value_end_def)

definition item_start :: "string \<Rightarrow> bool" where
  "item_start s \<longleftrightarrow> (case s of [] \<Rightarrow> False | c # _ \<Rightarrow> c \<notin> {CHR '','', CHR '']'', CHR ''}''})"

lemma join_unique:
  assumes "\<And>x y s t r q. \<lbrakk>x \<in> set xs; y \<in> set ys; enc x = Some s; enc y = Some t; s @ r = t @ q; value_end r; value_end q\<rbrakk>
      \<Longrightarrow> f x = g y \<and> r = q"
    and "\<And>x s. x \<in> set xs \<Longrightarrow> enc x = Some s \<Longrightarrow> item_start s"
    and "\<And>y s. y \<in> set ys \<Longrightarrow> enc y = Some s \<Longrightarrow> item_start s"
    and "c \<in> {CHR '']'', CHR ''}''}"
    and "those (map enc xs) = Some ss" and "those (map enc ys) = Some ts"
    and "js_join '','' ss @ c # r = js_join '','' ts @ c # q"
  shows "map f xs = map g ys \<and> r = q"
  using assms
proof (induction xs arbitrary: ys ss ts)
  case Nil
  show ?case
  proof (cases ys)
    case Nil
    with Nil.prems show ?thesis by auto
  next
    case (Cons y ys')
    with Nil.prems(6) obtain t ts' where "ts = t # ts'" "enc y = Some t"
      by (auto split: option.splits)
    have "item_start t" using Nil.prems(3) [of y t] Cons \<open>enc y = Some t\<close> by simp
    then obtain d t' where t: "t = d # t'" "d \<notin> {CHR '','', CHR '']'', CHR ''}''}"
      by (cases t) (auto simp: item_start_def)
    with Nil.prems(5,7) \<open>ts = t # ts'\<close> have "c = d" by (cases ts') auto
    with Nil.prems(4) t show ?thesis by simp
  qed
next
  case (Cons x xs)
  then obtain s ss' where ss: "ss = s # ss'" "enc x = Some s" "those (map enc xs) = Some ss'"
    by (auto split: option.splits)
  have s0: "item_start s" using Cons.prems(2) [of x s] ss by simp
  obtain y ys' where ys: "ys = y # ys'"
  proof (cases ys)
    case Nil
    with Cons.prems(6) have "ts = []" by simp
    with Cons.prems(4,7) ss s0 have False by (cases s; cases ss') (auto simp: item_start_def)
    then show ?thesis ..
  qed blast
  with Cons.prems(6) obtain t ts' where ts: "ts = t # ts'" "enc y = Some t" "those (map enc ys') = Some ts'"
    by (auto split: option.splits)
  let ?tail = "\<lambda>us w. (case us of [] \<Rightarrow> c # w | _ \<Rightarrow> CHR '','' # js_join '','' us @ c # w)"
  have eq: "s @ ?tail ss' r = t @ ?tail ts' q"
    using Cons.prems(7) ss(1) ts(1) by (auto split: list.splits)
  have "value_end (?tail ss' r)" "value_end (?tail ts' q)"
    using Cons.prems(4) by (auto split: list.splits)
  then have fx: "f x = g y" and tl: "?tail ss' r = ?tail ts' q"
    using Cons.prems(1) [of x y s t "?tail ss' r" "?tail ts' q"] ss ts ys eq by auto
  have len: "ss' = [] \<longleftrightarrow> xs = []" "ts' = [] \<longleftrightarrow> ys' = []"
    using ss(3) ts(3) by (auto simp: those_Some_iff)
  show ?case
  proof (cases "xs = []")
    case True
    with tl Cons.prems(4) len have "ts' = []" "r = q" by (auto split: list.splits)
    with len ys fx True show ?thesis by simp
  next
    case False
    with tl Cons.prems(4) len have ne: "ts' \<noteq> []" and j: "js_join '','' ss' @ c # r = js_join '','' ts' @ c # q"
      by (auto split: list.splits)
    have "map f xs = map g ys' \<and> r = q"
    proof (rule Cons.IH [OF _ _ _ Cons.prems(4) ss(3) ts(3) j])
      show "f x' = g y' \<and> r' = q'" if "x' \<in> set xs" "y' \<in> set ys'" "enc x' = Some s'" "enc y' = Some t'"
        "s' @ r' = t' @ q'" "value_end r'" "value_end q'" for x' y' s' t' r' q'
        using Cons.prems(1) [of x' y' s' t' r' q'] that ys by simp
      show "item_start s'" if "x' \<in> set xs" "enc x' = Some s'" for x' s'
        using Cons.prems(2) [of x' s'] that by simp
      show "item_start s'" if "x' \<in> set ys'" "enc x' = Some s'" for x' s'
        using Cons.prems(3) [of x' s'] that ys by simp
    qed
    with fx ys show ?thesis by simp
  qed
qed

lemma takeWhile_num:
  "list_all num_char s \<Longrightarrow> value_end r \<Longrightarrow> takeWhile num_char (s @ r) = s"
  by (induction s) (auto simp: num_char_def is_digit_def less_eq_char_def value_end_def split: list.splits)

lemma num_text_unique:
  assumes "s @ r = t @ q" "list_all num_char s" "list_all num_char t" "value_end r" "value_end q"
  shows "s = t \<and> r = q"
  using assms by (metis same_append_eq takeWhile_num)

lemma show_int_num_chars [simp]: "list_all num_char (show_int i)"
  by (auto simp: list_all_iff num_char_def dest: show_int_chars)

lemma show_int_hd: "show_int i = c # cs \<Longrightarrow> is_digit c \<or> c = CHR ''-''"
  using show_int_chars [of c i] by simp

lemma frac_ok_not_int: "frac_ok s \<Longrightarrow> s \<noteq> show_int i"
  by (auto simp: frac_ok_def is_digit_def less_eq_char_def dest: show_int_chars)

lemma frac_ok_num_chars: "frac_ok s \<Longrightarrow> list_all num_char s"
  by (simp add: frac_ok_def)

text \<open>The first character tells the kind of a value.\<close>

fun json_kind :: "json \<Rightarrow> nat" where
  "json_kind JNull = 0"
| "json_kind (JBool b) = 1"
| "json_kind (JStr s) = 3"
| "json_kind (JArr vs) = 4"
| "json_kind (JObj kvs) = 5"
| "json_kind _ = 2"

definition kind_char :: "char \<Rightarrow> nat" where
  "kind_char c = (if c = CHR ''n'' then 0 else if c = CHR ''t'' \<or> c = CHR ''f'' then 1
     else if c = CHR 0x22 then 3 else if c = CHR ''['' then 4 else if c = CHR ''{'' then 5 else 2)"

lemma not_digits [simp]:
  "\<not> is_digit (CHR ''n'')" "\<not> is_digit (CHR ''t'')" "\<not> is_digit (CHR ''f'')" "\<not> is_digit (CHR 0x22)"
  "\<not> is_digit (CHR ''['')" "\<not> is_digit (CHR ''{'')" "\<not> is_digit (CHR '','')"
  "\<not> is_digit (CHR '']'')" "\<not> is_digit (CHR ''}'')"
  by code_simp+

lemma kind_char_digit:
  assumes "is_digit c"
  shows "kind_char c = 2 \<and> c \<notin> {CHR '','', CHR '']'', CHR ''}''}"
proof -
  have "\<And>d. \<not> is_digit d \<Longrightarrow> c \<noteq> d" using assms by blast
  from this [OF not_digits(1)] this [OF not_digits(2)] this [OF not_digits(3)] this [OF not_digits(4)]
    this [OF not_digits(5)] this [OF not_digits(6)] this [OF not_digits(7)] this [OF not_digits(8)]
    this [OF not_digits(9)]
  show ?thesis by (simp add: kind_char_def)
qed

lemma kind_char_num: "is_digit c \<or> c = CHR ''-'' \<Longrightarrow> kind_char c = 2 \<and> c \<notin> {CHR '','', CHR '']'', CHR ''}''}"
  by (elim disjE) (rule kind_char_digit, assumption, simp add: kind_char_def)

lemma emit_hd:
  assumes "emit v = Some s" "json_ok v"
  shows "\<exists>c cs. s = c # cs \<and> kind_char c = json_kind v \<and> c \<notin> {CHR '','', CHR '']'', CHR ''}''}"
proof (cases v)
  case (JInt i)
  obtain c cs where c: "show_int i = c # cs" by (cases "show_int i") auto
  moreover from JInt assms(1) c have "s = c # cs" by simp
  ultimately show ?thesis using JInt kind_char_num [OF show_int_hd [OF c]] by simp
next
  case (JFrac x)
  with assms obtain c cs where c: "x = c # cs" "is_digit c \<or> c = CHR ''-''"
    by (cases x) (auto simp: frac_ok_def)
  moreover from JFrac assms(1) c have "s = c # cs" by simp
  ultimately show ?thesis using JFrac kind_char_num [OF c(2)] by simp
next
  case (JBool b)
  with assms(1) have "s = (if b then ''true'' else ''false'')" by simp
  with JBool show ?thesis by (simp add: kind_char_def)
next
  case (JArr vs)
  with assms(1) obtain w where "s = CHR ''['' # w" by auto
  with JArr show ?thesis by (simp add: kind_char_def)
next
  case (JObj kvs)
  with assms(1) obtain w where "s = CHR ''{'' # w" by auto
  with JObj show ?thesis by (simp add: kind_char_def)
next
  case (JStr x)
  with assms(1) obtain w where "s = CHR 0x22 # w" by (auto simp: json_string_def)
  with JStr show ?thesis by (simp add: kind_char_def)
next
  case JNull
  with assms(1) have "s = ''null''" by simp
  with JNull show ?thesis by (simp add: kind_char_def)
qed (use assms in simp)

lemma emit_item_start: "emit v = Some s \<Longrightarrow> json_ok v \<Longrightarrow> item_start s"
  using emit_hd [of v s] by (auto simp: item_start_def)

lemma emit_kind:
  "\<lbrakk>emit u = Some s; emit v = Some t; json_ok u; json_ok v; s @ r = t @ q\<rbrakk> \<Longrightarrow> json_kind u = json_kind v"
  using emit_hd [of u s] emit_hd [of v t] by auto

definition num_text :: "json \<Rightarrow> string" where
  "num_text v = (case v of JInt i \<Rightarrow> show_int i | JFrac s \<Rightarrow> s | _ \<Rightarrow> [])"

lemma num_text_inj:
  "\<lbrakk>json_kind u = 2; json_kind v = 2; json_ok u; json_ok v; emit u \<noteq> None; emit v \<noteq> None; num_text u = num_text v\<rbrakk>
   \<Longrightarrow> u = v"
  using frac_ok_not_int by (cases u; cases v) (auto simp: num_text_def)

lemma emit_num:
  "json_kind u = 2 \<Longrightarrow> json_ok u \<Longrightarrow> emit u = Some s \<Longrightarrow> s = num_text u \<and> list_all num_char s"
  by (cases u) (auto simp: num_text_def frac_ok_num_chars)

lemma kind_cases:
  "json_kind v = 0 \<longleftrightarrow> v = JNull" "json_kind v = 1 \<longleftrightarrow> (\<exists>b. v = JBool b)" "json_kind v = 3 \<longleftrightarrow> (\<exists>s. v = JStr s)"
  "json_kind v = 4 \<longleftrightarrow> (\<exists>vs. v = JArr vs)" "json_kind v = 5 \<longleftrightarrow> (\<exists>kvs. v = JObj kvs)"
  by (cases v; auto)+

lemma norm_num [simp]: "json_kind v = 2 \<Longrightarrow> norm v = v"
  by (cases v) auto

abbreviation emit_member :: "string \<times> json \<Rightarrow> string option" where
  "emit_member kv \<equiv> (case kv of (k, v) \<Rightarrow> map_option (\<lambda>t. json_string k @ '':'' @ t) (emit v))"

abbreviation norm_member :: "string \<times> json \<Rightarrow> string \<times> json" where
  "norm_member kv \<equiv> (case kv of (k, v) \<Rightarrow> (k, norm v))"

lemma emit_unique:
  "\<lbrakk>emit u = Some s; emit v = Some t; json_ok u; json_ok v; s @ r = t @ q; value_end r; value_end q\<rbrakk>
   \<Longrightarrow> norm u = norm v \<and> r = q"
proof (induction u arbitrary: v s t r q)
  case (JArr us)
  from emit_kind [OF JArr.prems(1-5)] obtain vs where v: "v = JArr vs"
    by (auto simp: kind_cases(4) dest: sym)
  from JArr.prems(1) obtain ss where ss: "those (map emit us) = Some ss" "s = ''['' @ js_join '','' ss @ '']''"
    by auto
  from JArr.prems(2) v obtain ts where ts: "those (map emit vs) = Some ts" "t = ''['' @ js_join '','' ts @ '']''"
    by auto
  have "map norm us = map norm vs \<and> r = q"
  proof (rule join_unique [where enc = emit and c = "CHR '']''"])
    show "js_join '','' ss @ CHR '']'' # r = js_join '','' ts @ CHR '']'' # q"
      using JArr.prems(5) ss(2) ts(2) by simp
    show "norm x = norm y \<and> r' = q'"
      if "x \<in> set us" "y \<in> set vs" "emit x = Some s'" "emit y = Some t'" "s' @ r' = t' @ q'" "value_end r'" "value_end q'"
      for x y s' t' r' q'
      using JArr.IH [of x s' y t' r' q'] that JArr.prems(3,4) v by (auto simp: list_all_iff)
  qed (use ss ts JArr.prems(3,4) v emit_item_start in \<open>auto simp: list_all_iff\<close>)
  with v show ?case by simp
next
  case (JObj us)
  from emit_kind [OF JObj.prems(1-5)] obtain vs where v: "v = JObj vs"
    by (auto simp: kind_cases(5) dest: sym)
  from JObj.prems(1) obtain ss where ss: "those (map emit_member (sort_key fst us)) = Some ss"
      "s = ''{'' @ js_join '','' ss @ ''}''"
    by auto
  from JObj.prems(2) v obtain ts where ts: "those (map emit_member (sort_key fst vs)) = Some ts"
      "t = ''{'' @ js_join '','' ts @ ''}''"
    by auto
  have "map norm_member (sort_key fst us) = map norm_member (sort_key fst vs) \<and> r = q"
  proof (rule join_unique [where enc = emit_member and c = "CHR ''}''"])
    show "js_join '','' ss @ CHR ''}'' # r = js_join '','' ts @ CHR ''}'' # q"
      using JObj.prems(5) ss(2) ts(2) by simp
    show "norm_member x = norm_member y \<and> r' = q'"
      if x: "x \<in> set (sort_key fst us)" "y \<in> set (sort_key fst vs)" and e: "emit_member x = Some s'"
        "emit_member y = Some t'" "s' @ r' = t' @ q'" "value_end r'" "value_end q'"
      for x y s' t' r' q'
    proof -
      obtain k a l b where xy: "x = (k, a)" "y = (l, b)" by (cases x; cases y)
      from e xy obtain s2 t2 where s2: "emit a = Some s2" "s' = json_string k @ '':'' @ s2"
          "emit b = Some t2" "t' = json_string l @ '':'' @ t2" by auto
      with e have "json_string k @ '':'' @ s2 @ r' = json_string l @ '':'' @ t2 @ q'" by simp
      from json_string_unique [OF this] have "k = l" "s2 @ r' = t2 @ q'" by simp_all
      moreover have "json_ok a" "json_ok b" "(k, a) \<in> set us" using x xy JObj.prems(3,4) v
        by (auto simp: list_all_iff)
      ultimately show ?thesis
        using JObj.IH [of "(k, a)" a s2 b t2 r' q'] s2 e xy by simp
    qed
  qed (use ss ts in \<open>auto simp: item_start_def json_string_def\<close>)
  with v show ?case by simp
next
  case (JStr a)
  from emit_kind [OF JStr.prems(1-5)] obtain b where v: "v = JStr b"
    by (auto simp: kind_cases(3) dest: sym)
  with JStr.prems show ?case by (auto dest: json_string_unique)
next
  case JNull
  from emit_kind [OF JNull.prems(1-5)] have "v = JNull" by (auto simp: kind_cases(1) dest: sym)
  with JNull.prems show ?case by auto
next
  case (JBool a)
  from emit_kind [OF JBool.prems(1-5)] obtain b where "v = JBool b" by (metis json_kind.simps(2) kind_cases(2))
  with JBool.prems show ?case by (auto split: if_splits)
qed (use emit_kind emit_num num_text_unique num_text_inj norm_num json_kind.simps in \<open>metis option.distinct(1)\<close>)+

section \<open>Canonical text and normal form\<close>

lemma emit_norm: "emit (norm v) = emit v"
proof (induction v)
  case (JArr vs)
  then have "map emit (map norm vs) = map emit vs" by simp
  then show ?case by (simp only: norm.simps emit.simps)
next
  case (JObj kvs)
  have "sorted (map fst (map norm_member (sort_key fst kvs)))"
    by (simp add: case_prod_beta o_def)
  then have sort: "sort_key fst (map norm_member (sort_key fst kvs)) = map norm_member (sort_key fst kvs)"
    by (metis sorted_sort_id sort_key_id_if_sorted)
  have "map emit_member (map norm_member (sort_key fst kvs)) = map emit_member (sort_key fst kvs)"
    using JObj by auto
  then show ?case by (simp only: norm.simps emit.simps sort)
qed simp_all

lemma emit_Some_eq_iff:
  assumes "json_ok u" "json_ok v" "emit u = Some s"
  shows "emit v = Some s \<longleftrightarrow> norm u = norm v"
  using assms emit_unique [of u s v s "[]" "[]"] emit_norm by (metis value_end_simps(1))

text \<open>
  C32: two JSON values with only finite numbers have the same canonical text (the input of every
  hash of the system) exactly when they are equal up to the order in which object keys were
  inserted.
\<close>

theorem canonicalize_eq_iff:
  assumes "json_ok u" "json_ok v" "canonicalize u \<noteq> None"
  shows "canonicalize u = canonicalize v \<longleftrightarrow> norm u = norm v"
  using assms emit_Some_eq_iff [of u v] by (auto simp: canonicalize_def)

theorem canonicalize_eq_iff_witness:
  "canonicalize (JObj [(''b'', JInt 2), (''a'', JArr [JStr ''x'', JFrac ''1.5''])])
     = canonicalize (JObj [(''a'', JArr [JStr ''x'', JFrac ''1.5'']), (''b'', JInt 2)])"
proof -
  let ?u = "JObj [(''b'', JInt 2), (''a'', JArr [JStr ''x'', JFrac ''1.5''])]"
  let ?v = "JObj [(''a'', JArr [JStr ''x'', JFrac ''1.5'']), (''b'', JInt 2)]"
  have "json_ok ?u" "json_ok ?v" by code_simp+
  moreover have "canonicalize ?u \<noteq> None" by code_simp
  moreover have "norm ?u = norm ?v" by code_simp
  ultimately show ?thesis using canonicalize_eq_iff [of ?u ?v] by simp
qed

lemma canonicalize_key_order:
  assumes "distinct (map fst kvs)" "mset kvs = mset kvs'"
  shows "canonicalize (JObj kvs) = canonicalize (JObj kvs')"
proof -
  have "inj_on fst (set kvs)" using assms(1) by (simp add: distinct_map)
  then have "sort_key fst kvs = sort_key fst kvs'"
    by (intro sort_key_inj_key_eq) (simp_all add: assms(2))
  then show ?thesis by (simp add: canonicalize_def)
qed

end
