(* ===== verification/Types.thy ===== *)
theory Types
  imports Json "HOL-Library.Word"
begin

text \<open>
  The data model of \<^verbatim>\<open>packages/core/src/types.ts\<close>: the receipts, signatures, plans and reports the
  components exchange, and the host functions the code calls.

  String unions are datatypes where the code branches on them exhaustively and strings where the
  code only stores or compares them.  Optional properties are \<open>option\<close> fields.  Steps of a plan stay
  JSON values, as the compiler reads them field by field.
\<close>

section \<open>Enumerations\<close>

datatype tier = T1 | T2 | T3 | T4

fun tier_rank :: "tier \<Rightarrow> nat" where
  "tier_rank T1 = 1" | "tier_rank T2 = 2" | "tier_rank T3 = 3" | "tier_rank T4 = 4"

lemma tier_rank_inj: "tier_rank a = tier_rank b \<longleftrightarrow> a = b"
  by (cases a; cases b) simp_all

instantiation tier :: linorder
begin

definition less_eq_tier :: "tier \<Rightarrow> tier \<Rightarrow> bool" where
  "less_eq_tier a b \<longleftrightarrow> tier_rank a \<le> tier_rank b"

definition less_tier :: "tier \<Rightarrow> tier \<Rightarrow> bool" where
  "less_tier a b \<longleftrightarrow> tier_rank a < tier_rank b"

instance
  by standard (auto simp: less_eq_tier_def less_tier_def tier_rank_inj)

end

lemma tier_le_T4 [simp]: "(t :: tier) \<le> T4"
  by (cases t) (simp_all add: less_eq_tier_def)

lemma T4_le_iff [simp]: "T4 \<le> t \<longleftrightarrow> t = T4"
  by (cases t) (simp_all add: less_eq_tier_def)

datatype action_kind = AHttp | ASql | AFs | AMcpTool | ASdkFn | AShell

datatype locality = Internal | External | UnknownLocality

datatype fidelity = FFull | FToolOnly | FHttpOnly | FDegraded

datatype sql_kind =
    SELECT | INSERT | UPDATE | DELETE | TRUNCATE | DROP | ALTER | CREATE | GRANT | REINDEX
  | VACUUM | CALL | EXEC | UNKNOWN

datatype source = Builtin | Registered | Drafted

fun source_str :: "source \<Rightarrow> string" where
  "source_str Builtin = ''builtin''"
| "source_str Registered = ''registered''"
| "source_str Drafted = ''drafted''"

datatype preimage_kind = FsBytes | FsAbsent | SqlRows | HttpBody | NoPreimage

datatype leak = NoLeak | Observers | DownstreamEffects

datatype risk = NoRisk | LowRisk | HighRisk

datatype completeness = Full | Partial | BestEffort

datatype effect_status = Opened | Landed | FailedEffect | InDoubt | Abandoned

datatype comp_state =
    NoneRequired | Unavailable | Available | Planned | Verified | Executing | Compensated | Failed
  | Escalated | ManuallyResolved | Superseded

datatype vr_code =
    VR1001 | VR1004 | VR1007 | VR1010 | VR1012 | VR2001 | VR2002 | VR2005 | VR2006 | VR2011 | VR2015
  | VR2020 | VR2022 | VR3001 | VR3005 | VR3006 | VR3007 | VR3008 | VR3009 | VR3010 | VR3011 | VR3012
  | VR3014 | VR4001 | VR4002 | VR4003 | VR4004 | VR4005 | VR5001 | VR5002 | VR5005 | VR5006 | VR5007
  | VR5009 | VR5010 | VR5011 | VR5012 | VR5014 | VR6001 | VR6003 | VR6004 | VR6006

section \<open>Actions and receipts\<close>

record action_ref =
  ac_kind :: action_kind
  ac_name :: string
  ac_version :: "string option"
  ac_target :: "string option"
  ac_locality :: locality

record preimage_ref =
  pi_kind :: preimage_kind
  pi_blob_id :: "string option"
  pi_bytes :: "int option"
  pi_rows :: "int option"
  pi_truncated :: bool
  pi_meta :: "(string \<times> json) list option"

record candidate =
  cd_id :: string
  cd_score :: nat
  cd_source :: source

datatype class_source = Structural | Locality | Manifest | Model

record classification_source =
  cs_source :: class_source
  cs_tier :: tier
  cs_reasons :: "string list"

record classification =
  cl_tier :: tier
  cl_sources :: "classification_source list"
  cl_reasons :: "string list"
  cl_candidates :: "candidate list"
  cl_scope_violation :: bool

record receipt =
  rc_effect_id :: string
  rc_saga_id :: string
  rc_seq :: int
  rc_action :: action_ref
  rc_tier :: tier
  rc_args :: json
  rc_result :: "json option"
  rc_bindings :: "(string \<times> json) list"
  rc_resource_keys :: "string list"
  rc_preimage :: "preimage_ref option"
  rc_status :: effect_status
  rc_comp_state :: comp_state
  rc_compensator_id :: "string option"
  rc_leak :: leak
  rc_cascade_risk :: risk
  rc_compensable_until :: "string option"

section \<open>Signatures and plans\<close>

text \<open>A field that is one string or an array of strings.\<close>

datatype one_or_many = One string | Many "string list"

datatype matcher =
    MMcpTool string "string option"
  | MSdkFn string string
  | MHttp one_or_many string
  | MSql one_or_many string "string option"
  | MFs one_or_many string
  | MShell "string list"
  | MStar

datatype predicate =
    ResultStatusIn "int list"
  | Cascades "string list"
  | ArgEquals string json
  | HeaderPresent string
  | DeleteUndoesCreate bool

record postcondition =
  pc_step_index :: nat
  pc_kind :: string
  pc_expected :: json
  pc_required :: bool

datatype compensator =
    Declarative "json list" "postcondition list option"
  | Programmatic string "string option"

record binding_extractor =
  bx_from :: string
  bx_required :: bool
  bx_pattern :: "string option"

record signature =
  sg_id :: string
  sg_match :: matcher
  sg_applies_when :: "predicate list option"
  sg_tier :: tier
  sg_compensator :: compensator
  sg_constants :: "(string \<times> json) list option"
  sg_permits :: "string list option"
  sg_leak :: leak
  sg_cascade_risk :: risk
  sg_completeness :: completeness
  sg_source :: source
  sg_delete_undoes_create :: "bool option"
  sg_registered_at :: "string option"
  sg_disabled :: bool
  sg_binds :: "(string \<times> binding_extractor) list"
  sg_preimage :: "preimage_kind option"
  sg_credentials :: "string list option"
  sg_volatile :: "string list option"
  sg_window :: "string option"
  sg_independent :: bool
  sg_preimage_required :: bool
  sg_signature :: "string option"

record plan =
  pl_plan_id :: string
  pl_effect_id :: string
  pl_saga_id :: string
  pl_compensator_id :: string
  pl_origin :: source
  pl_steps :: "json list"
  pl_hash :: string
  pl_postconditions :: "postcondition list"
  pl_completeness :: completeness
  pl_leak :: leak
  pl_cascade_risk :: risk
  pl_summary :: string
  pl_created_at :: string

datatype stage = SSchema | SProvenance | SScope | SCompile | SDrafted

record rejection =
  rj_code :: vr_code
  rj_stage :: stage
  rj_detail :: string

definition reject :: "vr_code \<Rightarrow> stage \<Rightarrow> string \<Rightarrow> rejection" where
  "reject c s d = \<lparr>rj_code = c, rj_stage = s, rj_detail = d\<rparr>"

section \<open>Defaults\<close>

definition max_plan_steps :: nat where "max_plan_steps = 8"
definition max_preimage_rows :: int where "max_preimage_rows = 10000"
definition webhook_max_skew_ms :: int where "webhook_max_skew_ms = 300000"

section \<open>The host\<close>

text \<open>
  What the code calls and this repository does not define: the SHA-256 digest, the WHATWG URL
  parser and serialiser, \<^verbatim>\<open>Date.parse\<close> and \<^verbatim>\<open>toISOString\<close>, and the queries on the file system.
  \<open>None\<close> is the exception (or \<open>NaN\<close>) of the call.
\<close>

record url =
  u_protocol :: string
  u_username :: string
  u_password :: string
  u_hostname :: string
  u_port :: string
  u_pathname :: string
  u_search :: "(string \<times> string) list"
  u_hash :: string

record platform =
  pf_sha256 :: "string \<Rightarrow> 8 word list"
  pf_url :: "string \<Rightarrow> string option \<Rightarrow> url option"
  pf_href :: "url \<Rightarrow> string"
  pf_date_parse :: "string \<Rightarrow> int option"
  pf_iso :: "int \<Rightarrow> string"
  pf_exists :: "string \<Rightarrow> bool"
  pf_realpath :: "string \<Rightarrow> string option"
  pf_lstat :: "string \<Rightarrow> (int \<times> int) option"

text \<open>
  A small concrete host, on which the instances of the theorems are evaluated: a digest of the first
  four characters, URLs of the form \<^verbatim>\<open>scheme://host/path\<close> without query, and an empty file system.
\<close>

definition sample_url :: "string \<Rightarrow> string option \<Rightarrow> url option" where
  "sample_url s base =
     (case js_split CHR ''/'' s of
        scheme # mid # host # path \<Rightarrow>
          if mid = [] \<and> host \<noteq> [] \<and> ends_with scheme '':''
          then Some \<lparr>u_protocol = scheme, u_username = [], u_password = [], u_hostname = host, u_port = [],
                     u_pathname = ''/'' @ js_join ''/'' path, u_search = [], u_hash = []\<rparr>
          else None
      | _ \<Rightarrow> None)"

definition sample_platform :: platform where
  "sample_platform =
     \<lparr>pf_sha256 = (\<lambda>s. map (\<lambda>c. word_of_nat (of_char c)) (take 4 s)), pf_url = sample_url,
      pf_href = (\<lambda>u. u_protocol u @ ''//'' @ u_hostname u @ u_pathname u),
      pf_date_parse = (\<lambda>s. if s \<noteq> [] \<and> list_all is_digit s then Some (int (read_nat s)) else None),
      pf_iso = show_int, pf_exists = (\<lambda>_. False), pf_realpath = (\<lambda>_. None), pf_lstat = (\<lambda>_. None)\<rparr>"

end
