(* ===== verification/Sqlkind.thy ===== *)
theory Sqlkind
  imports Types
begin

text \<open>
  The SQL classifier of \<^verbatim>\<open>packages/core/src/sqlkind.ts\<close>: comment removal, splitting into
  statements, the tokens the regular expression of \<^verbatim>\<open>tokenize\<close> yields, and the kind of a statement.
  The loops over an index are recursions on the rest of the text; the flags \<^verbatim>\<open>inS\<close>, \<^verbatim>\<open>inD\<close>, \<^verbatim>\<open>inLine\<close>
  and \<^verbatim>\<open>inBlock\<close> are arguments.
\<close>

section \<open>Comments and statements\<close>

definition q1 :: char where "q1 = CHR 0x27"
definition q2 :: char where "q2 = CHR 0x22"
definition nl :: char where "nl = CHR 0x0A"

fun strip_loop :: "bool \<Rightarrow> bool \<Rightarrow> bool \<Rightarrow> bool \<Rightarrow> string \<Rightarrow> string" where
  "strip_loop inS inD inLine inBlock [] = []"
| "strip_loop inS inD inLine inBlock (c # r) =
     (let n = (case r of [] \<Rightarrow> None | x # _ \<Rightarrow> Some x)
      in if inLine then
           (if c = nl then c # strip_loop inS inD False inBlock r
            else strip_loop inS inD inLine inBlock r)
         else if inBlock then
           (if c = CHR ''*'' \<and> n = Some (CHR ''/'') then strip_loop inS inD inLine False (tl r)
            else strip_loop inS inD inLine inBlock r)
         else if \<not> inS \<and> \<not> inD \<and> c = CHR ''-'' \<and> n = Some (CHR ''-'') then
           strip_loop inS inD True inBlock (tl r)
         else if \<not> inS \<and> \<not> inD \<and> c = CHR ''/'' \<and> n = Some (CHR ''*'') then
           strip_loop inS inD inLine True (tl r)
         else if \<not> inD \<and> c = q1 then c # strip_loop (\<not> inS) inD inLine inBlock r
         else if \<not> inS \<and> c = q2 then c # strip_loop inS (\<not> inD) inLine inBlock r
         else c # strip_loop inS inD inLine inBlock r)"

declare strip_loop.simps(2) [simp del]

definition strip_sql_comments :: "string \<Rightarrow> string" where
  "strip_sql_comments sql = strip_loop False False False False sql"

definition push_stmt :: "string list \<Rightarrow> string \<Rightarrow> string list" where
  "push_stmt parts cur = (if js_trim cur \<noteq> [] then parts @ [js_trim cur] else parts)"

fun split_loop :: "bool \<Rightarrow> bool \<Rightarrow> string list \<Rightarrow> string \<Rightarrow> string \<Rightarrow> string list" where
  "split_loop inS inD parts cur [] = push_stmt parts cur"
| "split_loop inS inD parts cur (c # r) =
     (let inS' = (if \<not> inD \<and> c = q1 then \<not> inS else inS);
          inD' = (if \<not> (\<not> inD \<and> c = q1) \<and> \<not> inS \<and> c = q2 then \<not> inD else inD)
      in if c = CHR '';'' \<and> \<not> inS' \<and> \<not> inD' then split_loop inS' inD' (push_stmt parts cur) [] r
         else split_loop inS' inD' parts (cur @ [c]) r)"

definition split_statements :: "string \<Rightarrow> string list" where
  "split_statements sql = split_loop False False [] [] sql"

section \<open>Tokens\<close>

text \<open>\<^verbatim>\<open>s.replace(/\s+/g, " ")\<close>.\<close>

fun collapse_space :: "bool \<Rightarrow> string \<Rightarrow> string" where
  "collapse_space prev [] = []"
| "collapse_space prev (c # r) =
     (if is_space c then (if prev then collapse_space True r else CHR '' '' # collapse_space True r)
      else c # collapse_space False r)"

definition ident_start :: "char \<Rightarrow> bool" where
  "ident_start c \<longleftrightarrow> is_alpha c \<or> c = CHR ''_''"

definition ident_char :: "char \<Rightarrow> bool" where
  "ident_char c \<longleftrightarrow> is_word c \<or> c = CHR ''$''"

text \<open>
  The quoted alternative after its opening quote: the longest match of \<^verbatim>\<open>([^"]|"")+"\<close>, with the
  position it backtracks to when the text ends before a closing quote.  The result is the length of
  the match.
\<close>

fun quoted_match :: "nat \<Rightarrow> nat \<Rightarrow> nat option \<Rightarrow> string \<Rightarrow> nat option" where
  "quoted_match items len back [] = back"
| "quoted_match items len back (c # r) =
     (if c \<noteq> q2 then quoted_match (Suc items) (Suc len) back r
      else case r of
        [] \<Rightarrow> if items > 0 then Some (Suc len) else back
      | d # r' \<Rightarrow>
          if d = q2 then
            quoted_match (Suc items) (len + 2) (if items > 0 then Some (Suc len) else back) r'
          else if items > 0 then Some (Suc len) else back)"

text \<open>The length of the token at the head of a text.\<close>

definition token_length :: "string \<Rightarrow> nat" where
  "token_length s =
     (case s of
        [] \<Rightarrow> 0
      | c # r \<Rightarrow>
          if ident_start c then Suc (length (takeWhile ident_char r))
          else if c = q2 then (case quoted_match 0 0 None r of Some n \<Rightarrow> Suc n | None \<Rightarrow> 1)
          else if is_digit c then Suc (length (takeWhile is_digit r))
          else 1)"

lemma token_length_pos [simp]: "0 < token_length (c # r)"
  by (simp add: token_length_def split: option.split)

function tokens_of :: "string \<Rightarrow> string list" where
  "tokens_of s =
     (if s = [] then []
      else (let t = take (token_length s) s; rest = tokens_of (drop (token_length s) s)
            in if js_trim t = [] then rest else t # rest))"
  by pat_completeness auto
termination
proof (relation "measure length", goal_cases)
  case (2 s)
  then show ?case by (cases s) simp_all
qed simp

declare tokens_of.simps [simp del]

definition tokenize :: "string \<Rightarrow> string list" where
  "tokenize sql = tokens_of (js_trim (collapse_space False sql))"

section \<open>Kinds\<close>

definition mutating :: "string \<Rightarrow> bool" where
  "mutating u \<longleftrightarrow> u \<in> set [''INSERT'', ''UPDATE'', ''DELETE'', ''MERGE'']"

fun undouble :: "string \<Rightarrow> string" where
  "undouble (a # b # r) = (if a = q2 \<and> b = q2 then q2 # undouble r else a # undouble (b # r))"
| "undouble s = s"

definition slice1 :: "string \<Rightarrow> string" where
  "slice1 s = butlast (tl s)"

definition unquote :: "string \<Rightarrow> string" where
  "unquote ident =
     (if ident \<noteq> [] \<and> hd ident = q2 \<and> last ident = q2 then undouble (slice1 ident)
      else if ident \<noteq> [] \<and> hd ident = CHR 0x60 \<and> last ident = CHR 0x60 then slice1 ident
      else ident)"

definition strip_dot :: "string \<Rightarrow> string" where
  "strip_dot t = (if t \<noteq> [] \<and> last t = CHR ''.'' then butlast t else t)"

definition upper_is :: "string option \<Rightarrow> string \<Rightarrow> bool" where
  "upper_is t u \<longleftrightarrow> (case t of Some x \<Rightarrow> to_upper x = u | None \<Rightarrow> False)"

fun table_after :: "string list \<Rightarrow> string list \<Rightarrow> string option" where
  "table_after keywords [] = None"
| "table_after keywords [t] = None"
| "table_after keywords (t # u # rest) =
     (if to_upper t \<in> set keywords then
        (let ts = (if to_upper u = ''ONLY'' then rest else u # rest);
             x = nth_opt ts 0
         in if upper_is x ''IF'' then None
            else case x of
              Some (c # cs) \<Rightarrow>
                if ident_start c \<or> c = q2 then Some (unquote (strip_dot (c # cs)))
                else table_after keywords (u # rest)
            | _ \<Rightarrow> table_after keywords (u # rest))
      else table_after keywords (u # rest))"

text \<open>The window of ten tokens after \<^verbatim>\<open>AS (\<close>.\<close>

fun mutating_before_close :: "string list \<Rightarrow> bool" where
  "mutating_before_close [] = False"
| "mutating_before_close (t # ts) =
     (mutating (to_upper t) \<or> (t \<noteq> '')'' \<and> mutating_before_close ts))"

fun has_modifying_cte :: "string list \<Rightarrow> bool" where
  "has_modifying_cte [] = False"
| "has_modifying_cte (t # ts) =
     ((to_upper t = ''AS'' \<and> nth_opt ts 0 = Some ''('' \<and> mutating_before_close (take 10 (drop 1 ts)))
      \<or> has_modifying_cte ts)"

definition sql_kind_of :: "string \<Rightarrow> sql_kind" where
  "sql_kind_of k =
     (if k = ''SELECT'' then SELECT else if k = ''INSERT'' then INSERT
      else if k = ''UPDATE'' then UPDATE else if k = ''DELETE'' then DELETE
      else if k = ''TRUNCATE'' then TRUNCATE else if k = ''DROP'' then DROP
      else if k = ''ALTER'' then ALTER else if k = ''CREATE'' then CREATE
      else if k = ''GRANT'' then GRANT else if k = ''REINDEX'' then REINDEX
      else if k = ''VACUUM'' then VACUUM else if k = ''CALL'' then CALL
      else if k = ''EXEC'' \<or> k = ''EXECUTE'' then EXEC else UNKNOWN)"

fun innermost_mutating :: "string list \<Rightarrow> sql_kind option" where
  "innermost_mutating [] = None"
| "innermost_mutating (t # ts) =
     orelse_opt (innermost_mutating ts)
       (let u = to_upper t in if mutating u \<and> u \<noteq> ''MERGE'' then Some (sql_kind_of u) else None)"

definition cte_stop :: "string list" where
  "cte_stop = [''SELECT'', ''INSERT'', ''UPDATE'', ''DELETE'', ''TRUNCATE'', ''CALL'', ''EXEC'']"

definition primary_kind :: "string list \<Rightarrow> sql_kind" where
  "primary_kind tokens =
     (let rest = (if upper_is (nth_opt tokens 0) ''WITH''
                  then dropWhile (\<lambda>t. to_upper t \<notin> set cte_stop) tokens else tokens)
      in case rest of [] \<Rightarrow> UNKNOWN | t # _ \<Rightarrow> sql_kind_of (to_upper t))"

record sql_class =
  sq_kind :: sql_kind
  sq_table :: "string option"
  sq_multi :: bool
  sq_modifying_cte :: bool
  sq_for_update :: bool
  sq_returning :: bool

fun for_update_at :: "string list \<Rightarrow> bool" where
  "for_update_at [] = False"
| "for_update_at (t # ts) =
     ((t = ''FOR'' \<and> (nth_opt ts 0 = Some ''UPDATE'' \<or> nth_opt ts 0 = Some ''SHARE'')) \<or> for_update_at ts)"

definition table_keywords :: "sql_kind \<Rightarrow> string list" where
  "table_keywords kind =
     (case kind of
        INSERT \<Rightarrow> [''INTO''] | UPDATE \<Rightarrow> [''UPDATE''] | DELETE \<Rightarrow> [''FROM''] | SELECT \<Rightarrow> [''FROM'']
      | TRUNCATE \<Rightarrow> [''TRUNCATE'', ''TABLE''] | _ \<Rightarrow> [''TABLE'', ''INDEX'', ''ON''])"

definition classify_sql :: "string \<Rightarrow> sql_class" where
  "classify_sql sql =
     (let statements = split_statements (strip_sql_comments sql);
          tokens = tokenize (orelse (nth_opt statements 0) []);
          modifying_cte = has_modifying_cte tokens;
          kind0 = primary_kind tokens;
          kind = (if modifying_cte then orelse (innermost_mutating tokens) kind0 else kind0);
          upper = map to_upper tokens
      in \<lparr>sq_kind = kind, sq_table = table_after (table_keywords kind) tokens,
          sq_multi = length statements > 1, sq_modifying_cte = modifying_cte,
          sq_for_update = (kind = SELECT \<and> (''UPDATE'' \<in> set upper \<or> ''SHARE'' \<in> set upper) \<and> for_update_at upper),
          sq_returning = (''RETURNING'' \<in> set upper)\<rparr>)"

section \<open>Comments and literals\<close>

lemmas strip_step = strip_loop.simps(2)

lemma strip_line:
  "nl \<notin> set c \<Longrightarrow> strip_loop False False True False (c @ nl # r) = nl # strip_loop False False False False r"
  by (induction c) (auto simp: strip_step)

lemma strip_literal1:
  "q1 \<notin> set c \<Longrightarrow> strip_loop True False False False (c @ q1 # r) = c @ q1 # strip_loop False False False False r"
  by (induction c) (auto simp: strip_step)

lemma strip_literal2:
  "q2 \<notin> set c \<Longrightarrow> strip_loop False True False False (c @ q2 # r) = c @ q2 # strip_loop False False False False r"
  by (induction c) (auto simp: strip_step q1_def q2_def)

lemma strip_block:
  "\<not> includes_str (c @ ''*'') ''*/'' \<Longrightarrow>
   strip_loop False False False True (c @ CHR ''*'' # CHR ''/'' # r) = strip_loop False False False False r"
proof (induction c)
  case Nil
  then show ?case by (simp add: strip_step)
next
  case (Cons x c)
  then show ?case by (cases c) (auto simp: strip_step)
qed

text \<open>
  Comment removal respects the lexical structure of SQL: outside literals a line comment is
  dropped up to its newline, a block comment up to its first terminator, and the text of a quoted
  literal or identifier is kept as it is, comment markers included.
\<close>

theorem strip_comments_lexical:
  "(nl \<notin> set c \<longrightarrow> strip_sql_comments (''--'' @ c @ nl # r) = nl # strip_sql_comments r)
   \<and> (\<not> includes_str (c @ ''*'') ''*/'' \<longrightarrow> strip_sql_comments (''/*'' @ c @ ''*/'' @ r) = strip_sql_comments r)
   \<and> (q1 \<notin> set c \<longrightarrow> strip_sql_comments (q1 # c @ q1 # r) = q1 # c @ q1 # strip_sql_comments r)
   \<and> (q2 \<notin> set c \<longrightarrow> strip_sql_comments (q2 # c @ q2 # r) = q2 # c @ q2 # strip_sql_comments r)"
proof (intro conjI impI)
  assume "nl \<notin> set c"
  then show "strip_sql_comments (''--'' @ c @ nl # r) = nl # strip_sql_comments r"
    by (simp add: strip_sql_comments_def strip_step [of _ _ _ _ "CHR ''-''"] strip_line)
next
  assume "\<not> includes_str (c @ ''*'') ''*/''"
  then show "strip_sql_comments (''/*'' @ c @ ''*/'' @ r) = strip_sql_comments r"
    by (simp add: strip_sql_comments_def strip_step [of _ _ _ _ "CHR ''/''" "CHR ''*'' # x" for x] strip_block)
next
  assume "q1 \<notin> set c"
  then show "strip_sql_comments (q1 # c @ q1 # r) = q1 # c @ q1 # strip_sql_comments r"
    using strip_literal1 [of c r] by (simp add: strip_sql_comments_def strip_step [of _ _ _ _ "CHR 0x27"] q1_def)
next
  assume "q2 \<notin> set c"
  then show "strip_sql_comments (q2 # c @ q2 # r) = q2 # c @ q2 # strip_sql_comments r"
    using strip_literal2 [of c r] by (simp add: strip_sql_comments_def strip_step [of _ _ _ _ "CHR 0x22"] q1_def q2_def)
qed

theorem strip_comments_lexical_witness:
  "strip_sql_comments (''--'' @ ''x'' @ nl # ''y'') = nl # strip_sql_comments ''y''
   \<and> strip_sql_comments (''/*'' @ ''x'' @ ''*/'' @ ''y'') = strip_sql_comments ''y''
   \<and> strip_sql_comments (q1 # ''--'' @ q1 # ''y'') = q1 # ''--'' @ q1 # strip_sql_comments ''y''"
  using strip_comments_lexical [of "''x''" "''y''"] strip_comments_lexical [of "''--''" "''y''"]
  by (simp add: nl_def q1_def)

section \<open>Statement separation\<close>

text \<open>The quote flags after reading a text.\<close>

fun quote_state :: "bool \<Rightarrow> bool \<Rightarrow> string \<Rightarrow> bool \<times> bool" where
  "quote_state inS inD [] = (inS, inD)"
| "quote_state inS inD (c # r) =
     (if \<not> inD \<and> c = q1 then quote_state (\<not> inS) inD r
      else if \<not> inS \<and> c = q2 then quote_state inS (\<not> inD) r
      else quote_state inS inD r)"

lemma split_loop_parts: "split_loop inS inD parts cur s = parts @ split_loop inS inD [] cur s"
proof (induction s arbitrary: inS inD parts cur)
  case Nil
  then show ?case by (simp add: push_stmt_def)
next
  case (Cons c s)
  have eq: "push_stmt parts cur = parts @ push_stmt [] cur" by (simp add: push_stmt_def)
  show ?case
    using Cons.IH [of _ _ parts] Cons.IH [of _ _ "push_stmt parts cur"] Cons.IH [of _ _ "push_stmt [] cur"]
    by (simp add: Let_def eq)
qed

lemma split_loop_append:
  "quote_state inS inD a = (False, False) \<Longrightarrow>
   split_loop inS inD parts cur (a @ CHR '';'' # b) = split_loop inS inD parts cur a @ split_loop False False [] [] b"
proof (induction a arbitrary: inS inD parts cur)
  case Nil
  then show ?case
    using split_loop_parts [of False False "push_stmt parts cur" "[]" b] by (simp add: q1_def q2_def Let_def)
next
  case (Cons c a)
  then show ?case by (auto simp: Let_def split: if_splits)
qed

text \<open>
  A semicolon outside quotes separates statements: when the quotes of what precedes it are
  closed, the statements of the whole text are those before it followed by those after it.
\<close>

theorem split_statements_semicolon:
  assumes "quote_state False False a = (False, False)"
  shows "split_statements (a @ '';'' @ b) = split_statements a @ split_statements b"
  using split_loop_append [OF assms] by (simp add: split_statements_def)

theorem split_statements_semicolon_witness:
  "split_statements (''SELECT '' @ [q1] @ '';'' @ [q1] @ '';'' @ '' DROP TABLE t'')
   = [''SELECT '' @ [q1] @ '';'' @ [q1], ''DROP TABLE t'']"
proof -
  have "quote_state False False (''SELECT '' @ [q1] @ '';'' @ [q1]) = (False, False)" by code_simp
  from split_statements_semicolon [OF this, of "'' DROP TABLE t''"]
  have "split_statements ((''SELECT '' @ [q1] @ '';'' @ [q1]) @ '';'' @ '' DROP TABLE t'')
      = split_statements (''SELECT '' @ [q1] @ '';'' @ [q1]) @ split_statements '' DROP TABLE t''" .
  moreover have "split_statements (''SELECT '' @ [q1] @ '';'' @ [q1]) = [''SELECT '' @ [q1] @ '';'' @ [q1]]"
    by code_simp
  moreover have "split_statements '' DROP TABLE t'' = [''DROP TABLE t'']" by code_simp
  ultimately show ?thesis by simp
qed

end
