(* ===== verification/Taxonomy.thy ===== *)
theory Taxonomy
  imports Sqlkind
begin

text \<open>
  The rule-based classifier of \<^verbatim>\<open>packages/core/src/taxonomy.ts\<close>: locality of a target, the
  structural tier of an action, the join of the evidence and the classification record.  The long
  \<^verbatim>\<open>classifyStructural\<close> is one definition per kind of action.
\<close>

section \<open>Tiers and context\<close>

definition max_tier :: "tier \<Rightarrow> tier \<Rightarrow> tier" where
  "max_tier a b = (if tier_rank a \<ge> tier_rank b then a else b)"

definition min_tier :: "tier \<Rightarrow> tier \<Rightarrow> tier" where
  "min_tier a b = (if tier_rank a \<le> tier_rank b then a else b)"

record classify_ctx =
  cx_result :: "json option"
  cx_status :: "int option"
  cx_headers :: "(string \<times> string) list option"
  cx_preimage :: "preimage_ref option"
  cx_matched :: "bool option"
  cx_manifest :: "signature option"
  cx_roots :: "string list option"
  cx_internal_hosts :: "string list"
  cx_transport_error :: bool
  cx_timeout :: bool
  cx_recreate :: bool
  cx_pk :: "bool option"
  cx_rows :: "int option"
  cx_max_rows :: "int option"
  cx_remote_mount :: bool
  cx_escapes :: bool
  cx_candidates :: "candidate list option"
  cx_model :: "tier option"
  cx_scope_violation :: "bool option"
  cx_fidelity :: "fidelity option"

record structural =
  st_tier :: tier
  st_reasons :: "string list"
  st_in_doubt :: bool
  st_locality :: locality

definition verdict :: "tier \<Rightarrow> string \<Rightarrow> locality \<Rightarrow> structural" where
  "verdict t r l = \<lparr>st_tier = t, st_reasons = [r], st_in_doubt = False, st_locality = l\<rparr>"

section \<open>Agent tools\<close>

definition read_http :: "string \<Rightarrow> bool" where
  "read_http m \<longleftrightarrow> m \<in> set [''GET'', ''HEAD'', ''OPTIONS'', ''TRACE'']"

definition agent_fs_write :: "string list" where
  "agent_fs_write = [''write_file'', ''writefile'', ''str_replace'', ''patch'', ''edit'',
     ''mcp__filesystem__write_file'', ''mcp__filesystem__edit_file'']"

definition agent_fs_read :: "string list" where
  "agent_fs_read = [''read_file'', ''readfile'', ''search_files'', ''list_directory'',
     ''mcp__filesystem__read_text_file'', ''mcp__filesystem__list_directory'']"

definition agent_http_read :: "string list" where
  "agent_http_read = [''web_search'', ''websearch'', ''web_extract'', ''webextract'']"

definition name_part :: "string \<Rightarrow> nat \<Rightarrow> string option" where
  "name_part name i = nth_opt (js_split CHR ''.'' name) i"

definition last_part :: "string \<Rightarrow> string" where
  "last_part name = last (js_split CHR ''.'' name)"

definition fs_action :: "string \<Rightarrow> string \<Rightarrow> action_ref" where
  "fs_action opn path = \<lparr>ac_kind = AFs, ac_name = ''fs.'' @ opn @ ''.'' @ path, ac_version = None,
     ac_target = Some path, ac_locality = Internal\<rparr>"

definition spread :: "(string \<times> 'a) list \<Rightarrow> (string \<times> 'a) list \<Rightarrow> (string \<times> 'a) list" where
  "spread base over = foldl (\<lambda>acc (k, v). AList.update k v acc) base over"

definition rewrite_agent_tool :: "action_ref \<Rightarrow> json \<Rightarrow> (action_ref \<times> json) option" where
  "rewrite_agent_tool a args =
     (if ac_kind a \<noteq> AMcpTool \<and> ac_kind a \<noteq> ASdkFn then None
      else
        let rec = as_record (Some args);
            tool = to_lower (orelse (str_of (map_of rec ''tool'')) (last_part (ac_name a)));
            path = orelse (orelse_opt (str_of (map_of rec ''path'')) (orelse_opt (str_of (map_of rec ''file_path''))
                     (str_of (map_of rec ''target'')))) ''/eval-sandbox/file''
        in if tool \<in> set agent_fs_write then
             Some (fs_action ''write'' path,
                   JObj (spread rec [(''op'', JStr ''write''), (''path'', JStr path), (''realpath'', JStr path)]))
           else if tool \<in> set agent_fs_read then
             (let opn = (if includes_str tool ''search'' \<or> includes_str tool ''list'' then ''readdir'' else ''stat'')
              in Some (fs_action opn path,
                   JObj (spread rec [(''op'', JStr opn), (''path'', JStr path), (''realpath'', JStr path)])))
           else if tool \<in> set agent_http_read then
             Some (\<lparr>ac_kind = AHttp, ac_name = ''http.GET.search.invalid/search'', ac_version = None,
                     ac_target = Some ''search.invalid'', ac_locality = External\<rparr>,
                   JObj [(''method'', JStr ''GET''),
                         (''url'', JStr (orelse (str_of (map_of rec ''url'')) ''https://search.invalid/search''))])
           else None)"

section \<open>Helpers\<close>

definition header :: "(string \<times> 'a) list option \<Rightarrow> string \<Rightarrow> 'a option" where
  "header hs name =
     (case hs of None \<Rightarrow> None
      | Some kvs \<Rightarrow> map_option snd (List.find (\<lambda>(k, v). to_lower k = to_lower name) kvs))"

definition last_segment :: "platform \<Rightarrow> string \<Rightarrow> string" where
  "last_segment pf s =
     (let path = (case pf_url pf s None of Some u \<Rightarrow> u_pathname u | None \<Rightarrow> takeWhile (\<lambda>c. c \<noteq> CHR ''?'') s);
          parts = filter (\<lambda>p. p \<noteq> []) (js_split CHR ''/'' path)
      in if parts = [] then [] else to_lower (last parts))"

definition has_body :: "(string \<times> json) list \<Rightarrow> bool" where
  "has_body rec =
     (case map_of rec ''body'' of
        None \<Rightarrow> False
      | Some JNull \<Rightarrow> False
      | Some (JStr s) \<Rightarrow> s \<noteq> []
      | Some (JArr vs) \<Rightarrow> vs \<noteq> []
      | Some (JObj kvs) \<Rightarrow> kvs \<noteq> []
      | Some _ \<Rightarrow> True)"

definition body_id :: "json option \<Rightarrow> bool" where
  "body_id result =
     (case map_of (as_record result) ''id'' of
        Some (JStr _) \<Rightarrow> True | Some v \<Rightarrow> is_number v | None \<Rightarrow> False)"

definition drop_last_dot :: "string \<Rightarrow> string" where
  "drop_last_dot s = (if s \<noteq> [] \<and> last s = CHR ''.'' then butlast s else s)"

definition ipv4 :: "string \<Rightarrow> nat list option" where
  "ipv4 h =
     (let ps = js_split CHR ''.'' h
      in if length ps = 4 \<and> list_all (\<lambda>p. p \<noteq> [] \<and> list_all is_digit p) ps then Some (map read_nat ps) else None)"

definition is_private_host :: "string \<Rightarrow> string list \<Rightarrow> bool" where
  "is_private_host host extra =
     (let h = drop_last_dot (to_lower host)
      in if list_ex (\<lambda>x. to_lower x = h) extra then True
         else if h = ''localhost'' \<or> ends_with h ''.localhost'' then True
         else if ends_with h ''.local'' \<or> ends_with h ''.internal'' then True
         else if h = ''127.0.0.1'' \<or> starts_with h ''127.'' then True
         else if h = ''::1'' then True
         else if (case ipv4 h of
                    Some (a # b # _) \<Rightarrow> a = 10 \<or> (a = 172 \<and> 16 \<le> b \<and> b \<le> 31) \<or> (a = 192 \<and> b = 168)
                  | _ \<Rightarrow> False) then True
         else starts_with h ''fd'' \<or> starts_with h ''fe80:'')"

definition classify_locality :: "platform \<Rightarrow> string option \<Rightarrow> string list \<Rightarrow> locality \<times> tier \<times> string list" where
  "classify_locality pf target internal_hosts =
     (case target of
        None \<Rightarrow> (UnknownLocality, T3, [''locality_unknown_treated_external''])
      | Some t \<Rightarrow>
          if t = [] then (UnknownLocality, T3, [''locality_unknown_treated_external''])
          else
            let host = (if includes_str t ''://'' then (case pf_url pf t None of Some u \<Rightarrow> u_hostname u | None \<Rightarrow> t) else t)
            in if is_private_host host internal_hosts then (Internal, T1, [''locality_internal''])
               else (External, T1, [''locality_external'']))"

definition http_method :: "action_ref \<Rightarrow> (string \<times> json) list \<Rightarrow> string" where
  "http_method a rec =
     to_upper (orelse (orelse_opt (str_of (map_of rec ''method'')) (name_part (ac_name a) 1)) [])"

text \<open>\<^verbatim>\<open>name.replace(/^http\.[A-Z]+\./, "https://")\<close>.\<close>

definition http_url :: "action_ref \<Rightarrow> (string \<times> json) list \<Rightarrow> string" where
  "http_url a rec =
     (case orelse_opt (str_of (map_of rec ''url'')) (ac_target a) of
        Some u \<Rightarrow> u
      | None \<Rightarrow>
          (let name = ac_name a; t = drop 5 name; m = takeWhile is_upper_alpha t; r = dropWhile is_upper_alpha t
           in if starts_with name ''http.'' \<and> m \<noteq> [] \<and> r \<noteq> [] \<and> hd r = CHR ''.'' then ''https://'' @ tl r else name))"

section \<open>Structural tier\<close>

definition whole_preimage :: "classify_ctx \<Rightarrow> bool" where
  "whole_preimage ctx \<longleftrightarrow> (case cx_preimage ctx of Some p \<Rightarrow> \<not> pi_truncated p | None \<Rightarrow> False)"

definition search_segments :: "string list" where
  "search_segments = [''search'', ''query'', ''graphql'', ''batch'', ''rpc'']"

definition method_override :: "classify_ctx \<Rightarrow> (string \<times> json) list \<Rightarrow> bool" where
  "method_override ctx rec =
     (let own = header (Some (as_record (map_of rec ''headers''))) ''x-http-method-override'';
          res = map_option JStr (header (cx_headers ctx) ''x-http-method-override'');
          override = (if nullish own then res else own)
      in truthy own \<or> truthy override)"

text \<open>Evidence that a resource was created: a location or an id in the result.\<close>

definition has_location :: "classify_ctx \<Rightarrow> bool" where
  "has_location ctx \<longleftrightarrow> truthy (map_option JStr (header (cx_headers ctx) ''location''))"

definition landed_evidence :: "classify_ctx \<Rightarrow> bool" where
  "landed_evidence ctx \<longleftrightarrow> has_location ctx \<or> body_id (cx_result ctx)"

definition status_ge :: "classify_ctx \<Rightarrow> int \<Rightarrow> bool" where
  "status_ge ctx n \<longleftrightarrow> (case cx_status ctx of Some s \<Rightarrow> n \<le> s | None \<Rightarrow> False)"

definition http_base :: "platform \<Rightarrow> classify_ctx \<Rightarrow> locality \<Rightarrow> string \<Rightarrow> string \<Rightarrow> (string \<times> json) list
    \<Rightarrow> tier \<times> string list" where
  "http_base pf ctx loc verb addr rec =
     (if method_override ctx rec then (T3, [''method_override''])
      else if read_http verb \<and> \<not> has_body rec then
        (if truthy (map_option JStr (header (cx_headers ctx) ''set-cookie''))
         then (T2, [''http_safe_method'', ''set_cookie'']) else (T1, [''http_safe_method'']))
      else if read_http verb \<and> has_body rec then (T3, [''get_with_body''])
      else if verb = ''POST'' \<and> last_segment pf addr \<in> set search_segments then (T3, [''post_search_like''])
      else if verb = ''DELETE'' then
        (if cx_recreate ctx \<and> whole_preimage ctx then (T3, [''delete_with_preimage''])
         else (T4, [''delete_without_preimage'']))
      else if verb = ''PUT'' \<or> verb = ''PATCH'' then
        (if cx_status ctx = Some 201 \<and> landed_evidence ctx then (T3, [''http_create''])
         else if whole_preimage ctx then (if loc = Internal then T2 else T3, [''http_update_with_preimage''])
         else (T4, [''http_update_without_preimage'']))
      else if verb = ''POST'' \<or> verb = ''PUT'' then
        (if status_ge ctx 400 \<and> \<not> landed_evidence ctx then (T1, [''nothing_landed''])
         else if cx_status ctx = Some 201 \<or> landed_evidence ctx then (T3, [''http_create''])
         else (T3, [''http_mutation'']))
      else (T3, [''http_mutation'']))"

definition http_doubt :: "classify_ctx \<Rightarrow> string \<Rightarrow> bool" where
  "http_doubt ctx verb \<longleftrightarrow> (cx_transport_error ctx \<or> cx_timeout ctx \<or> status_ge ctx 500) \<and> \<not> read_http verb"

definition client_error :: "classify_ctx \<Rightarrow> bool" where
  "client_error ctx \<longleftrightarrow> status_ge ctx 400 \<and> \<not> status_ge ctx 500 \<and> \<not> landed_evidence ctx"

definition structural_http :: "platform \<Rightarrow> classify_ctx \<Rightarrow> action_ref \<Rightarrow> locality \<Rightarrow> (string \<times> json) list \<Rightarrow> structural" where
  "structural_http pf ctx a loc rec =
     (let verb = http_method a rec;
          base = http_base pf ctx loc verb (http_url a rec) rec;
          in_doubt = http_doubt ctx verb;
          s1 = (if in_doubt then
                  (if fst base = T1 then (if verb = ''DELETE'' then T4 else T3) else fst base,
                   snd base @ [''http_in_doubt''])
                else base);
          s2 = (if client_error ctx \<and> \<not> in_doubt then (T1, snd s1 @ [''client_error_nothing_landed'']) else s1);
          s3 = (if (ac_locality a = Internal \<or> loc = Internal) \<and> fst s2 = T1 \<and> \<not> (read_http verb \<and> \<not> has_body rec)
                then (T2, snd s2 @ [''internal_write_floor'']) else s2)
      in \<lparr>st_tier = fst s3, st_reasons = snd s3, st_in_doubt = in_doubt, st_locality = loc\<rparr>)"

definition structural_sql :: "classify_ctx \<Rightarrow> action_ref \<Rightarrow> locality \<Rightarrow> (string \<times> json) list \<Rightarrow> structural" where
  "structural_sql ctx a loc rec =
     (let q = classify_sql (orelse (orelse_opt (str_of (map_of rec ''sql'')) (str_of (map_of rec ''statement''))) []);
          t23 = (if ac_locality a = Internal then T2 else T3);
          out = (\<lambda>t r. verdict t r loc)
      in if sq_multi q then out T4 ''sql_multi_statement''
         else if sq_kind q = SELECT \<and> \<not> sq_for_update q \<and> \<not> sq_modifying_cte q then out T1 ''sql_select''
         else if sq_kind q = SELECT \<and> sq_for_update q then out T2 ''sql_select_for_update''
         else if sq_kind q = INSERT then
           (if cx_pk ctx = Some False then out T4 ''insert_no_pk''
            else if cx_pk ctx = Some True \<or> sq_returning q then out t23 ''insert_pk''
            else out T4 ''insert_no_pk'')
         else if sq_kind q = UPDATE then
           (if \<not> whole_preimage ctx \<or> orelse (cx_rows ctx) 0 > orelse (cx_max_rows ctx) max_preimage_rows
            then out T4 ''update_no_preimage'' else out t23 ''update_preimage'')
         else if sq_kind q = DELETE then
           (if \<not> whole_preimage ctx then out T4 ''delete_no_row_images'' else out t23 ''delete_row_images'')
         else if sq_kind q \<in> {TRUNCATE, DROP, ALTER, CREATE, GRANT, REINDEX, VACUUM} then out T4 ''sql_ddl''
         else if sq_kind q = CALL \<or> sq_kind q = EXEC then out T4 ''sql_call''
         else out T4 ''sql_unknown'')"

definition under_root :: "string \<Rightarrow> string \<Rightarrow> bool" where
  "under_root p r \<longleftrightarrow> p = r \<or> starts_with p (if ends_with r ''/'' then r else r @ ''/'')"

definition structural_fs :: "classify_ctx \<Rightarrow> action_ref \<Rightarrow> (string \<times> json) list \<Rightarrow> structural" where
  "structural_fs ctx a rec =
     (let opn = to_lower (orelse (orelse_opt (str_of (map_of rec ''op'')) (name_part (ac_name a) 1)) []);
          path = orelse (orelse_opt (str_of (map_of rec ''path'')) (orelse_opt (str_of (map_of rec ''realpath'')) (ac_target a))) [];
          roots = orelse (cx_roots ctx) [];
          real = orelse (str_of (map_of rec ''realpath'')) path;
          out = (\<lambda>t r. verdict t r Internal)
      in if cx_escapes ctx \<or> cx_remote_mount ctx then out T4 ''fs_escape_or_remote''
         else if roots \<noteq> [] \<and> \<not> list_ex (under_root real) roots then out T4 ''scope_violation''
         else if opn \<in> set [''open'', ''stat'', ''readdir'', ''readlink'', ''open_rdonly''] then out T1 ''fs_read''
         else if opn = ''write'' \<or> opn = ''truncate'' then
           (case cx_preimage ctx of
              Some p \<Rightarrow>
                if pi_truncated p then out T4 ''preimage_truncated''
                else if pi_kind p = FsAbsent then out T2 ''fs_create''
                else if pi_kind p = FsBytes then out T2 ''fs_overwrite''
                else out T2 ''fs_write''
            | None \<Rightarrow>
                if cx_fidelity ctx \<noteq> None \<and> cx_fidelity ctx \<noteq> Some FFull then out T4 ''fidelity_downgrade_no_preimage''
                else out T2 ''fs_write_assume_capture'')
         else if opn \<in> set [''mkdir'', ''rename'', ''chmod'', ''chown'', ''utimes''] then out T2 (''fs_'' @ opn)
         else if opn = ''unlink'' then
           (if whole_preimage ctx then out T2 ''fs_unlink_preimage'' else out T4 ''fs_unlink_no_preimage'')
         else out T4 ''fs_unknown'')"

definition message_tools :: "string list" where
  "message_tools = [''chat.postMessage'', ''slack.chat.postMessage'', ''discord.createMessage'', ''telegram.sendMessage'']"

definition irreversible_words :: "string list" where
  "irreversible_words = [''smtp'', ''resend'', ''ses'', ''postmark'', ''email'', ''sendmail'',
     ''sms'', ''push_notification'', ''notify.push'']"

definition structural_tool :: "action_ref \<Rightarrow> locality \<Rightarrow> (string \<times> json) list \<Rightarrow> structural" where
  "structural_tool a loc rec =
     (let tool = orelse (str_of (map_of rec ''tool'')) (last_part (ac_name a));
          text = to_lower (ac_name a @ tool)
      in if list_ex (includes_str text) irreversible_words then verdict T4 ''message_irreversible'' loc
         else if list_ex (\<lambda>k. tool = k \<or> ends_with (ac_name a) k \<or> includes_str (ac_name a) k) message_tools
         then verdict T3 ''message_retractable'' loc
         else verdict T4 ''mcp_unknown'' loc)"

function classify_structural :: "platform \<Rightarrow> action_ref \<Rightarrow> json \<Rightarrow> classify_ctx \<Rightarrow> structural" where
  "classify_structural pf a args ctx =
     (case rewrite_agent_tool a args of
        Some (a', args') \<Rightarrow> classify_structural pf a' args' ctx
      | None \<Rightarrow>
          (let rec = as_record (Some args);
               loc = fst (classify_locality pf (orelse_opt (ac_target a) (orelse_opt (str_of (map_of rec ''url''))
                       (str_of (map_of rec ''path'')))) (cx_internal_hosts ctx))
           in case ac_kind a of
                AShell \<Rightarrow> verdict T4 ''shell_unclassifiable'' loc
              | AHttp \<Rightarrow> structural_http pf ctx a loc rec
              | ASql \<Rightarrow> structural_sql ctx a loc rec
              | AFs \<Rightarrow> structural_fs ctx a rec
              | _ \<Rightarrow> structural_tool a loc rec))"
  by pat_completeness auto
termination
  by (relation "measure (\<lambda>(_, a, _). if ac_kind a = AMcpTool \<or> ac_kind a = ASdkFn then 1 else 0)")
    (auto simp: rewrite_agent_tool_def fs_action_def Let_def split: if_splits)

declare classify_structural.simps [simp del]

section \<open>Joining the evidence\<close>

record tier_evidence =
  te_structural :: tier
  te_locality :: tier
  te_manifest :: "tier option"
  te_model :: "tier option"
  te_scope_violation :: bool
  te_matched :: bool
  te_reasons :: "string list"

definition join_tier :: "tier_evidence \<Rightarrow> tier \<times> string list" where
  "join_tier s =
     (let t0 = max_tier (te_structural s) (te_locality s);
          t1 = (if te_manifest s \<noteq> None \<and> \<not> te_scope_violation s then the (te_manifest s) else t0);
          t2 = (if te_scope_violation s then T4 else t1);
          t3 = (case te_model s of Some m \<Rightarrow> max_tier t2 m | None \<Rightarrow> t2)
      in if \<not> te_matched s \<and> t3 = T3 then (t3, te_reasons s @ [''compensator_unavailable'']) else (t3, te_reasons s))"

definition detect_scope_violation :: "action_ref \<Rightarrow> json \<Rightarrow> signature option \<Rightarrow> string list option \<Rightarrow> bool" where
  "detect_scope_violation a args manifest roots =
     (ac_kind a = AFs \<and>
      (let path = orelse (orelse_opt (str_of (map_of (as_record (Some args)) ''path'')) (ac_target a)) [];
           rs = orelse roots []
       in (rs \<noteq> [] \<and> \<not> list_ex (under_root path) rs)
          \<or> (case manifest of
                Some m \<Rightarrow>
                  (case sg_match m of
                     MFs _ glob \<Rightarrow>
                       (let prefix = before_str ''**'' glob;
                            trimmed = (if prefix \<noteq> [] \<and> last prefix = CHR ''/'' then butlast prefix else prefix)
                        in glob \<noteq> [] \<and> includes_str glob ''**'' \<and> prefix \<noteq> [] \<and> \<not> starts_with path trimmed)
                   | _ \<Rightarrow> False)
              | None \<Rightarrow> False)))"

definition downgrade_reason :: string where
  "downgrade_reason = ''fidelity_downgrade_no_preimage''"

definition classify_action :: "platform \<Rightarrow> action_ref \<Rightarrow> json \<Rightarrow> classify_ctx \<Rightarrow> classification" where
  "classify_action pf a args ctx =
     (let st = classify_structural pf a args ctx;
          (loc, _, loc_reasons) = classify_locality pf
             (orelse_opt (ac_target a) (str_of (map_of (as_record (Some args)) ''url''))) (cx_internal_hosts ctx);
          violation = orelse (cx_scope_violation ctx) (detect_scope_violation a args (cx_manifest ctx) (cx_roots ctx));
          loc_tier = (if loc = Internal \<and> st_tier st = T1 then T1 else if loc = Internal then T2 else T1);
          joined = join_tier \<lparr>te_structural = st_tier st, te_locality = loc_tier,
             te_manifest = map_option sg_tier (cx_manifest ctx), te_model = cx_model ctx,
             te_scope_violation = violation, te_matched = orelse (cx_matched ctx) False,
             te_reasons = st_reasons st @ loc_reasons\<rparr>;
          sources = [\<lparr>cs_source = Structural, cs_tier = st_tier st, cs_reasons = st_reasons st\<rparr>,
                     \<lparr>cs_source = Locality, cs_tier = loc_tier, cs_reasons = loc_reasons\<rparr>]
             @ (case cx_manifest ctx of Some m \<Rightarrow> [\<lparr>cs_source = Manifest, cs_tier = sg_tier m, cs_reasons = [''manifest'']\<rparr>]
                | None \<Rightarrow> [])
             @ (case cx_model ctx of Some t \<Rightarrow> [\<lparr>cs_source = Model, cs_tier = t, cs_reasons = [''model'']\<rparr>] | None \<Rightarrow> []);
          downgraded = (cx_fidelity ctx \<noteq> None \<and> cx_fidelity ctx \<noteq> Some FFull \<and> downgrade_reason \<in> set (st_reasons st))
      in \<lparr>cl_tier = (if downgraded then T4 else fst joined), cl_sources = sources,
          cl_reasons = (if downgraded \<and> downgrade_reason \<notin> set (snd joined)
                        then snd joined @ [downgrade_reason] else snd joined),
          cl_candidates = orelse (cx_candidates ctx) [], cl_scope_violation = violation\<rparr>)"

section \<open>Tier lemmas\<close>

lemma max_tier_eq: "max_tier a b = max a b"
  by (auto simp: max_tier_def max_def less_eq_tier_def tier_rank_inj)

lemma min_tier_eq: "min_tier a b = min a b"
  by (auto simp: min_tier_def min_def less_eq_tier_def tier_rank_inj)

lemma verdict_simps [simp]:
  "st_tier (verdict t r l) = t" "st_reasons (verdict t r l) = [r]" "st_in_doubt (verdict t r l) = False"
  "st_locality (verdict t r l) = l"
  by (simp_all add: verdict_def)

lemma tier_not_T1 [simp]: "(if b then T2 else T3) \<noteq> T1" "(if b then T4 else T3) \<noteq> T1"
  by simp_all

lemma http_base_T1:
  "fst (http_base pf ctx loc verb addr rec) = T1 \<Longrightarrow>
     (read_http verb \<and> \<not> has_body rec \<and> \<not> method_override ctx rec) \<or> (status_ge ctx 400 \<and> \<not> landed_evidence ctx)"
  by (auto simp: http_base_def split: if_splits)

text \<open>
  An HTTP action is read-only (T1) only on evidence: never while its outcome is in doubt, and
  only for a safe method without body and method override, or when the server answered an error
  and nothing shows that a resource was created.
\<close>

theorem http_T1_evidence:
  assumes "st_tier (structural_http pf ctx a loc rec) = T1"
  shows "\<not> st_in_doubt (structural_http pf ctx a loc rec)
    \<and> ((read_http (http_method a rec) \<and> \<not> has_body rec \<and> \<not> method_override ctx rec)
       \<or> (status_ge ctx 400 \<and> \<not> landed_evidence ctx))"
  using assms http_base_T1 [of pf ctx loc "http_method a rec" "http_url a rec" rec]
  unfolding structural_http_def Let_def client_error_def
  by (auto split: if_splits)

definition sample_ctx :: classify_ctx where
  "sample_ctx = \<lparr>cx_result = None, cx_status = None, cx_headers = None, cx_preimage = None, cx_matched = None,
     cx_manifest = None, cx_roots = None, cx_internal_hosts = [], cx_transport_error = False, cx_timeout = False,
     cx_recreate = False, cx_pk = None, cx_rows = None, cx_max_rows = None, cx_remote_mount = False,
     cx_escapes = False, cx_candidates = None, cx_model = None, cx_scope_violation = None, cx_fidelity = None\<rparr>"

definition sample_action :: "action_kind \<Rightarrow> string \<Rightarrow> action_ref" where
  "sample_action k name = \<lparr>ac_kind = k, ac_name = name, ac_version = None, ac_target = None, ac_locality = External\<rparr>"

theorem http_T1_evidence_witness:
  "\<not> st_in_doubt (structural_http sample_platform sample_ctx (sample_action AHttp ''http.GET.h/p'') External [])"
proof -
  have "st_tier (structural_http sample_platform sample_ctx (sample_action AHttp ''http.GET.h/p'') External []) = T1"
    by code_simp
  from http_T1_evidence [OF this] show ?thesis by simp
qed

text \<open>
  A SQL action is read-only (T1) exactly when its text, without comments, is a single statement
  classified SELECT with neither a locking clause nor a modifying common table expression; every
  statement list is T4.
\<close>

theorem sql_T1_iff:
  fixes rec :: "(string \<times> json) list"
  defines "q \<equiv> classify_sql (orelse (orelse_opt (str_of (map_of rec ''sql'')) (str_of (map_of rec ''statement''))) [])"
  shows "(st_tier (structural_sql ctx a loc rec) = T1 \<longleftrightarrow>
      \<not> sq_multi q \<and> sq_kind q = SELECT \<and> \<not> sq_for_update q \<and> \<not> sq_modifying_cte q)
    \<and> (sq_multi q \<longrightarrow> st_tier (structural_sql ctx a loc rec) = T4)"
  unfolding structural_sql_def Let_def q_def [symmetric]
  by auto

theorem sql_T1_iff_witness:
  "st_tier (structural_sql sample_ctx (sample_action ASql ''sql'') External
     [(''sql'', JStr ''SELECT 1; DROP TABLE t'')]) = T4"
proof -
  have "sq_multi (classify_sql ''SELECT 1; DROP TABLE t'')" by code_simp
  then show ?thesis
    using sql_T1_iff [where rec = "[(''sql'', JStr ''SELECT 1; DROP TABLE t'')]" and ctx = sample_ctx] by (simp add: str_of_def)
qed

text \<open>
  A gap of the common-table-expression test: with \<^verbatim>\<open>AS MATERIALIZED (\<close> the parenthesis does not follow
  \<^verbatim>\<open>AS\<close>, and a deleting statement behind a reading one is taken for a plain SELECT.
\<close>

lemma materialized_cte_missed:
  "st_tier (structural_sql sample_ctx (sample_action ASql ''sql'') External
     [(''sql'', JStr ''WITH x AS (SELECT 1), y AS MATERIALIZED (DELETE FROM t RETURNING *) SELECT * FROM y'')]) = T1"
  by code_simp

text \<open>A host name beginning with \<^verbatim>\<open>fd\<close> counts as a private IPv6 address.\<close>

lemma fd_host_internal:
  "classify_locality sample_platform (Some ''https://fdic.example/x'') [] = (Internal, T1, [''locality_internal''])"
  by code_simp

section \<open>Classification\<close>

lemma join_tier_cases:
  "fst (join_tier s) =
     (let t = (if te_scope_violation s then T4
               else case te_manifest s of Some m \<Rightarrow> m | None \<Rightarrow> max (te_structural s) (te_locality s))
      in case te_model s of Some m \<Rightarrow> max t m | None \<Rightarrow> t)"
  by (auto simp: join_tier_def Let_def max_tier_eq split: option.splits)

lemma downgrade_http: "downgrade_reason \<notin> set (st_reasons (structural_http pf ctx a loc rec))"
proof -
  have "downgrade_reason \<notin> set (snd (http_base pf ctx loc verb addr rec))" for verb addr
    by (simp add: http_base_def downgrade_reason_def)
  then show ?thesis by (simp add: structural_http_def Let_def downgrade_reason_def)
qed

lemma downgrade_sql: "downgrade_reason \<notin> set (st_reasons (structural_sql ctx a loc rec))"
  by (simp add: structural_sql_def Let_def downgrade_reason_def)

lemma downgrade_fs:
  "st_tier (structural_fs ctx a rec) = T4 \<or> downgrade_reason \<notin> set (st_reasons (structural_fs ctx a rec))"
  by (simp add: structural_fs_def Let_def downgrade_reason_def split: option.split)

lemma downgrade_tool: "downgrade_reason \<notin> set (st_reasons (structural_tool a loc rec))"
  by (simp add: structural_tool_def Let_def downgrade_reason_def)

lemma downgrade_T4:
  "downgrade_reason \<in> set (st_reasons (classify_structural pf a args ctx)) \<Longrightarrow> st_tier (classify_structural pf a args ctx) = T4"
proof (induction pf a args ctx rule: classify_structural.induct)
  case (1 pf a args ctx)
  show ?case
  proof (cases "rewrite_agent_tool a args")
    case None
    with 1 show ?thesis
      using downgrade_http downgrade_sql downgrade_fs [of ctx a "as_record (Some args)"] downgrade_tool
      by (auto simp: classify_structural.simps [of pf a] Let_def split: action_kind.splits)
  next
    case (Some p)
    obtain a' args' where p: "p = (a', args')" by (cases p)
    have "classify_structural pf a args ctx = classify_structural pf a' args' ctx"
      by (subst classify_structural.simps) (simp add: Some p)
    with 1 Some p show ?thesis by simp
  qed
qed



end
