(* ===== verification/Chain.thy ===== *)
theory Chain
  imports Types
begin

text \<open>
  Digests, identifiers and the hash chain of a saga: the second half of
  \<^verbatim>\<open>packages/core/src/jcs.ts\<close> (\<^verbatim>\<open>sha256Prefixed\<close>, \<^verbatim>\<open>crockford32\<close>) and \<^verbatim>\<open>packages/core/src/chain.ts\<close>.
  SHA-256 itself and the Ed25519 check are host functions; results about identity of digests name
  the two concrete texts that would have to collide.
\<close>

unbundle bit_operations_syntax

section \<open>Digests\<close>

definition hex_of :: "8 word list \<Rightarrow> string" where
  "hex_of bs = concat (map (\<lambda>b. [hex_digit (unat b div 16), hex_digit (unat b mod 16)]) bs)"

definition sha256_hex :: "platform \<Rightarrow> string \<Rightarrow> string" where
  "sha256_hex pf s = hex_of (pf_sha256 pf s)"

definition sha256_prefixed :: "platform \<Rightarrow> string \<Rightarrow> string" where
  "sha256_prefixed pf s = ''sha256:'' @ sha256_hex pf s"

definition hash_jcs :: "platform \<Rightarrow> json \<Rightarrow> string option" where
  "hash_jcs pf v = map_option (sha256_prefixed pf) (canonicalize v)"

section \<open>Crockford base 32\<close>

definition crockford_alphabet :: string where
  "crockford_alphabet = ''0123456789ABCDEFGHJKMNPQRSTVWXYZ''"

text \<open>The inner loop: emit a digit while five bits are in the accumulator.\<close>

function cr_drain :: "32 word \<Rightarrow> nat \<Rightarrow> string \<Rightarrow> 32 word \<times> nat \<times> string" where
  "cr_drain acc bits out =
     (if bits \<ge> 5 then
        cr_drain (acc AND (push_bit (bits - 5) 1 - 1)) (bits - 5)
          (out @ [crockford_alphabet ! unat (drop_bit (bits - 5) acc AND 31)])
      else (acc, bits, out))"
  by pat_completeness auto
termination by (relation "measure (\<lambda>(_, bits, _). bits)") auto

declare cr_drain.simps [simp del]

fun cr_bytes :: "8 word list \<Rightarrow> 32 word \<Rightarrow> nat \<Rightarrow> string \<Rightarrow> 32 word \<times> nat \<times> string" where
  "cr_bytes [] acc bits out = (acc, bits, out)"
| "cr_bytes (b # bs) acc bits out =
     (case cr_drain (push_bit 8 acc OR ucast b) (bits + 8) out of
        (acc', bits', out') \<Rightarrow> cr_bytes bs acc' bits' out')"

definition crockford32 :: "8 word list \<Rightarrow> string" where
  "crockford32 bs =
     (case cr_bytes bs 0 0 [] of (acc, bits, out) \<Rightarrow>
        if bits > 0 then out @ [crockford_alphabet ! unat (push_bit (5 - bits) acc AND 31)] else out)"

definition crockford32_of_sha256 :: "platform \<Rightarrow> string \<Rightarrow> string" where
  "crockford32_of_sha256 pf s = crockford32 (pf_sha256 pf s)"

section \<open>Identifiers\<close>

definition genesis_hash :: "platform \<Rightarrow> string \<Rightarrow> string" where
  "genesis_hash pf saga_id = sha256_prefixed pf (''vekrevert/v1:'' @ saga_id)"

definition derive_effect_id :: "platform \<Rightarrow> string \<Rightarrow> int \<Rightarrow> string \<Rightarrow> string \<Rightarrow> string" where
  "derive_effect_id pf saga_id seq action_name args_hash =
     ''eff_'' @ take 26 (crockford32 (pf_sha256 pf
        (saga_id @ ''|'' @ show_int seq @ ''|'' @ action_name @ ''|'' @ args_hash)))"

definition derive_intent_key :: "platform \<Rightarrow> string \<Rightarrow> json \<Rightarrow> string option" where
  "derive_intent_key pf action_name args =
     hash_jcs pf (JObj [(''action'', JStr action_name), (''args'', args)])"

definition plan_hash_body :: "string \<Rightarrow> string \<Rightarrow> string \<Rightarrow> json \<Rightarrow> json" where
  "plan_hash_body effect_id compensator_id origin steps =
     JObj [(''effect_id'', JStr effect_id), (''compensator_id'', JStr compensator_id),
           (''origin'', JStr origin), (''steps'', steps)]"

definition derive_plan_hash :: "platform \<Rightarrow> string \<Rightarrow> string \<Rightarrow> string \<Rightarrow> json \<Rightarrow> string option" where
  "derive_plan_hash pf effect_id compensator_id origin steps =
     hash_jcs pf (plan_hash_body effect_id compensator_id origin steps)"

record idem_input =
  ii_saga_id :: string
  ii_effect_seq :: int
  ii_compensator_id :: string
  ii_plan_hash :: string
  ii_step_index :: int

definition newline :: string where "newline = [CHR 0x0A]"

definition idempotency_material :: "idem_input \<Rightarrow> string" where
  "idempotency_material x =
     ''vekrevert.v1'' @ newline @ ii_saga_id x @ newline @ show_int (ii_effect_seq x) @ newline
       @ ii_compensator_id x @ newline @ ii_plan_hash x @ newline @ show_int (ii_step_index x)"

definition derive_idempotency_key :: "platform \<Rightarrow> idem_input \<Rightarrow> string" where
  "derive_idempotency_key pf x =
     ''vr1_'' @ take 32 (crockford32 (pf_sha256 pf (idempotency_material x)))"

definition seal_hash :: "platform \<Rightarrow> json \<Rightarrow> string option" where
  "seal_hash pf v = hash_jcs pf v"

section \<open>The event chain\<close>

datatype actor_kind = AgentActor | HumanActor | SystemActor

fun actor_kind_str :: "actor_kind \<Rightarrow> string" where
  "actor_kind_str AgentActor = ''agent''"
| "actor_kind_str HumanActor = ''human''"
| "actor_kind_str SystemActor = ''system''"

record event =
  ev_id :: string
  ev_type :: string
  ev_ts :: string
  ev_saga_id :: string
  ev_chain_seq :: int
  ev_effect_id :: "string option"
  ev_actor_kind :: actor_kind
  ev_actor_id :: string
  ev_payload :: json
  ev_prev_hash :: string
  ev_hash :: "string option"
  ev_sig :: "string option"

definition event_body :: "event \<Rightarrow> json" where
  "event_body ev =
     JObj ([(''v'', JStr ''vekrevert/v1''), (''id'', JStr (ev_id ev)), (''type'', JStr (ev_type ev)),
            (''ts'', JStr (ev_ts ev)), (''saga_id'', JStr (ev_saga_id ev)),
            (''chain_seq'', JInt (ev_chain_seq ev))]
       @ (case ev_effect_id ev of Some e \<Rightarrow> [(''effect_id'', JStr e)] | None \<Rightarrow> [])
       @ [(''actor'', JObj [(''kind'', JStr (actor_kind_str (ev_actor_kind ev))), (''id'', JStr (ev_actor_id ev))]),
          (''payload'', ev_payload ev), (''prev_hash'', JStr (ev_prev_hash ev))])"

definition chain_event :: "platform \<Rightarrow> event \<Rightarrow> string \<Rightarrow> event option" where
  "chain_event pf ev prev_hash =
     (let with_prev = ev\<lparr>ev_prev_hash := prev_hash\<rparr>
      in map_option (\<lambda>h. with_prev\<lparr>ev_hash := Some h\<rparr>) (hash_jcs pf (event_body with_prev)))"

datatype chain_fault = HashMismatch | PrevMismatch | SeqGap | BadSig

text \<open>\<open>ChainThrew\<close>: an event whose payload has a non-finite number has no canonical text.\<close>

datatype chain_result = ChainOk | ChainBroken nat chain_fault | ChainThrew

text \<open>\<^verbatim>\<open>edVerify\<close> under a given public key, on the hex text of the hash and the signature.\<close>

type_synonym sig_check = "string \<Rightarrow> string \<Rightarrow> bool"

definition strip_sha256 :: "string \<Rightarrow> string" where
  "strip_sha256 s = (if starts_with s ''sha256:'' then drop 7 s else s)"

definition sig_bad :: "sig_check option \<Rightarrow> event \<Rightarrow> bool" where
  "sig_bad pk ev =
     (case (ev_sig ev, pk) of
        (Some s, Some check) \<Rightarrow> s \<noteq> [] \<and> \<not> check (strip_sha256 (orelse (ev_hash ev) [])) s
      | _ \<Rightarrow> False)"

fun verify_from :: "platform \<Rightarrow> sig_check option \<Rightarrow> nat \<Rightarrow> string \<Rightarrow> int \<Rightarrow> event list \<Rightarrow> chain_result" where
  "verify_from pf pk i prev seq [] = ChainOk"
| "verify_from pf pk i prev seq (ev # evs) =
     (if ev_chain_seq ev \<noteq> seq then ChainBroken i SeqGap
      else if ev_prev_hash ev \<noteq> prev then ChainBroken i PrevMismatch
      else case hash_jcs pf (event_body ev) of
        None \<Rightarrow> ChainThrew
      | Some h \<Rightarrow>
          if ev_hash ev \<noteq> Some h then ChainBroken i HashMismatch
          else if sig_bad pk ev then ChainBroken i BadSig
          else verify_from pf pk (Suc i) (orelse (ev_hash ev) h) (seq + 1) evs)"

definition verify_chain :: "platform \<Rightarrow> sig_check option \<Rightarrow> string option \<Rightarrow> event list \<Rightarrow> chain_result" where
  "verify_chain pf pk genesis events =
     (case events of
        [] \<Rightarrow> ChainOk
      | ev # _ \<Rightarrow> verify_from pf pk 0 (genesis_hash pf (orelse genesis (ev_saga_id ev))) 1 events)"

section \<open>Merkle root\<close>

record anchor_pair =
  ap_saga_id :: string
  ap_chain_head :: string

definition merkle_leaf :: "platform \<Rightarrow> anchor_pair \<Rightarrow> string" where
  "merkle_leaf pf p = sha256_hex pf (orelse (canonicalize
      (JObj [(''saga_id'', JStr (ap_saga_id p)), (''chain_head'', JStr (ap_chain_head p))])) [])"

fun merkle_pairs :: "platform \<Rightarrow> string list \<Rightarrow> string list" where
  "merkle_pairs pf [] = []"
| "merkle_pairs pf [l] = [sha256_hex pf (l @ l)]"
| "merkle_pairs pf (l # r # rest) = sha256_hex pf (l @ r) # merkle_pairs pf rest"

lemma length_merkle_pairs: "length (merkle_pairs pf xs) = (length xs + 1) div 2"
  by (induction pf xs rule: merkle_pairs.induct) auto

function merkle_fold :: "platform \<Rightarrow> string list \<Rightarrow> string list" where
  "merkle_fold pf level = (if length level > 1 then merkle_fold pf (merkle_pairs pf level) else level)"
  by pat_completeness auto
termination by (relation "measure (length \<circ> snd)") (auto simp: length_merkle_pairs)

declare merkle_fold.simps [simp del]

definition merkle_root :: "platform \<Rightarrow> anchor_pair list \<Rightarrow> string" where
  "merkle_root pf pairs =
     (let leaves = map (merkle_leaf pf) (sort_key ap_saga_id pairs)
      in if leaves = [] then sha256_prefixed pf [] else ''sha256:'' @ hd (merkle_fold pf leaves))"

section \<open>Crockford base 32: value and length\<close>

definition crock_val :: "char \<Rightarrow> nat" where
  "crock_val c = length (takeWhile (\<lambda>d. d \<noteq> c) crockford_alphabet)"

lemma crock_val_nth [simp]: "d < 32 \<Longrightarrow> crock_val (crockford_alphabet ! d) = d"
proof -
  have "\<forall>d \<in> set [0..<32]. crock_val (crockford_alphabet ! d) = d" by code_simp
  then show "d < 32 \<Longrightarrow> crock_val (crockford_alphabet ! d) = d" by simp
qed

definition read32 :: "string \<Rightarrow> nat" where
  "read32 s = foldl (\<lambda>n c. 32 * n + crock_val c) 0 s"

lemma read32_simps [simp]: "read32 [] = 0" "read32 (s @ [c]) = 32 * read32 s + crock_val c"
  by (simp_all add: read32_def)

definition read256 :: "nat \<Rightarrow> 8 word list \<Rightarrow> nat" where
  "read256 n bs = foldl (\<lambda>n b. 256 * n + unat b) n bs"

lemma read256_simps [simp]: "read256 n [] = n" "read256 n (b # bs) = read256 (256 * n + unat b) bs"
  by (simp_all add: read256_def)

text \<open>What the accumulator holds: the digits emitted and the bits still pending.\<close>

definition cr_inv :: "nat \<Rightarrow> nat \<Rightarrow> 32 word \<Rightarrow> nat \<Rightarrow> string \<Rightarrow> bool" where
  "cr_inv v n acc bits out \<longleftrightarrow> unat acc < 2 ^ bits \<and> read32 out * 2 ^ bits + unat acc = v
     \<and> 5 * length out + bits = n"

lemma byte_lt: "unat (b :: 8 word) < 256"
  by (rule order_less_le_trans [OF unsigned_less]) simp

lemma low_bits: "unat (acc AND (push_bit k 1 - 1) :: 32 word) = unat acc mod 2 ^ k"
proof -
  have "push_bit k 1 - 1 = (mask k :: 32 word)" by (simp add: mask_eq_exp_minus_1)
  then show ?thesis by (simp add: unsigned_take_bit_eq flip: take_bit_eq_mask take_bit_eq_mod)
qed

lemma and_31: "w AND 31 = take_bit 5 (w :: 32 word)"
  by (simp add: take_bit_eq_mask mask_eq_exp_minus_1)

lemma last_digit: "unat (push_bit k acc AND 31 :: 32 word) = unat acc * 2 ^ k mod 32"
proof -
  have "unat (push_bit k acc AND 31) = take_bit 5 (take_bit 32 (push_bit k (unat acc)))"
    by (simp add: and_31 unsigned_take_bit_eq unsigned_push_bit_eq)
  then have "unat (push_bit k acc AND 31) = take_bit 5 (push_bit k (unat acc))"
    by simp
  then show ?thesis by (simp only: take_bit_eq_mod push_bit_eq_mult) simp
qed

lemma next_digit: "unat (drop_bit k acc AND 31 :: 32 word) = unat acc div 2 ^ k mod 32"
proof -
  have "unat (drop_bit k acc AND 31) = take_bit 5 (drop_bit k (unat acc))"
    by (simp add: and_31 unsigned_take_bit_eq unat_drop_bit_eq)
  then show ?thesis by (simp add: take_bit_eq_mod drop_bit_eq_div)
qed

lemma push_byte:
  assumes "unat (acc :: 32 word) < 32"
  shows "unat (push_bit 8 acc OR ucast (b :: 8 word)) = 256 * unat acc + unat b"
proof -
  have eq: "unat (push_bit 8 acc OR ucast b) = take_bit 32 (push_bit 8 (unat acc)) OR unat b"
    by (simp add: unsigned_or_eq unsigned_push_bit_eq unsigned_ucast_eq take_bit_eq_mod order_less_trans [OF byte_lt])
  have "take_bit 32 (push_bit 8 (unat acc)) = push_bit 8 (unat acc)"
    using assms by (intro take_bit_nat_eq_self) (simp add: push_bit_eq_mult)
  moreover have "push_bit 8 (unat acc) OR unat b = push_bit 8 (unat acc) + unat b"
  proof (rule disjunctive_add_eq_or [symmetric])
    have "take_bit 8 (unat b) = unat b" using byte_lt [of b] by (intro take_bit_nat_eq_self) simp
    then have "\<not> bit (unat b) n" if "n \<ge> 8" for n
      using that by (metis bit_take_bit_iff not_le)
    then show "push_bit 8 (unat acc) AND unat b = 0"
      by (intro bit_eqI) (auto simp: bit_simps not_le)
  qed
  ultimately show ?thesis using eq by (simp add: push_bit_eq_mult)
qed

lemma cr_drain_inv:
  assumes "cr_inv v n acc bits out" "cr_drain acc bits out = (acc', bits', out')"
  shows "cr_inv v n acc' bits' out' \<and> bits' < 5"
  using assms
proof (induction acc bits out rule: cr_drain.induct)
  case (1 acc bits out)
  show ?case
  proof (cases "bits \<ge> 5")
    case True
    then obtain k where k: "bits = k + 5" by (metis add.commute le_Suc_ex)
    have lt: "unat acc div 2 ^ k < 32"
      using "1.prems"(1) by (simp add: cr_inv_def k div_less_iff_less_mult power_add mult.commute)
    have "cr_inv v n (acc AND (push_bit k 1 - 1)) k
        (out @ [crockford_alphabet ! unat (drop_bit k acc AND 31)])"
      using "1.prems"(1) lt unfolding cr_inv_def low_bits next_digit
      by (auto simp: k power_add algebra_simps)
    moreover have "cr_drain (acc AND (push_bit k 1 - 1)) k
        (out @ [crockford_alphabet ! unat (drop_bit k acc AND 31)]) = (acc', bits', out')"
      using "1.prems"(2) by (subst (asm) cr_drain.simps) (simp add: k)
    ultimately show ?thesis using "1.IH" True k by simp
  next
    case False
    with 1 show ?thesis by (simp add: cr_drain.simps [of acc bits])
  qed
qed

lemma cr_bytes_inv:
  assumes "cr_inv v n acc bits out" "bits < 5" "cr_bytes bs acc bits out = (acc', bits', out')"
  shows "cr_inv (read256 v bs) (n + 8 * length bs) acc' bits' out' \<and> bits' < 5"
  using assms
proof (induction bs arbitrary: v n acc bits out)
  case Nil
  then show ?case by simp
next
  case (Cons b bs)
  obtain a k d where d: "cr_drain (push_bit 8 acc OR ucast b) (bits + 8) out = (a, k, d)"
    by (metis prod_cases3)
  have "(2 :: nat) ^ bits \<le> 2 ^ 5" using Cons.prems(2) by (intro power_increasing) simp_all
  then have "unat acc < 32" using Cons.prems(1) by (simp add: cr_inv_def)
  moreover have "unat b < 256" by (rule byte_lt)
  moreover have "unat acc * 256 + 256 \<le> 2 ^ bits * 256"
    using Cons.prems(1) by (simp add: cr_inv_def Suc_leI flip: add_mult_distrib)
  ultimately have "cr_inv (256 * v + unat b) (n + 8) (push_bit 8 acc OR ucast b) (bits + 8) out"
    using Cons.prems(1) by (auto simp: cr_inv_def push_byte power_add algebra_simps)
  from cr_drain_inv [OF this d] have "cr_inv (256 * v + unat b) (n + 8) a k d" "k < 5" by simp_all
  moreover have "cr_bytes bs a k d = (acc', bits', out')" using Cons.prems(3) d by simp
  ultimately show ?case using Cons.IH [of "256 * v + unat b" "n + 8" a k d] by (simp add: algebra_simps)
qed

definition crock_pad :: "nat \<Rightarrow> nat" where
  "crock_pad n = (5 - 8 * n mod 5) mod 5"

lemma crockford32_spec:
  "read32 (crockford32 bs) = read256 0 bs * 2 ^ crock_pad (length bs)
   \<and> 5 * length (crockford32 bs) = 8 * length bs + crock_pad (length bs)"
proof -
  obtain acc bits out where c: "cr_bytes bs 0 0 [] = (acc, bits, out)" by (metis prod_cases3)
  have "cr_inv 0 0 0 0 []" by (simp add: cr_inv_def)
  from cr_bytes_inv [OF this _ c] have inv: "cr_inv (read256 0 bs) (8 * length bs) acc bits out" "bits < 5"
    by simp_all
  show ?thesis
  proof (cases "bits > 0")
    case False
    with inv have "5 * length out = 8 * length bs" by (simp add: cr_inv_def)
    then have "8 * length bs mod 5 = 0" by (metis mod_mult_self1_is_0)
    with False inv c show ?thesis by (simp add: crockford32_def cr_inv_def crock_pad_def)
  next
    case True
    have "8 * length bs = 5 * length out + bits" using inv(1) by (simp add: cr_inv_def)
    with inv(2) have "bits = 8 * length bs mod 5" by simp
    with True inv(2) have pad: "crock_pad (length bs) = 5 - bits" by (simp add: crock_pad_def)
    have "unat acc * 2 ^ (5 - bits) < 2 ^ bits * 2 ^ (5 - bits)" using inv(1) by (simp add: cr_inv_def)
    then have lt: "unat acc * 2 ^ (5 - bits) < 32" using inv(2) by (simp flip: power_add)
    then have "unat (push_bit (5 - bits) acc AND 31) = unat acc * 2 ^ (5 - bits)"
      by (simp add: last_digit)
    moreover have "(2::nat) ^ bits * 2 ^ (5 - bits) = 32" using inv(2) by (simp flip: power_add)
    moreover have "read256 0 bs * 2 ^ (5 - bits)
        = read32 out * (2 ^ bits * 2 ^ (5 - bits)) + unat acc * 2 ^ (5 - bits)"
    proof -
      have v: "read256 0 bs = read32 out * 2 ^ bits + unat acc" using inv(1) by (simp add: cr_inv_def)
      show ?thesis unfolding v by (simp add: algebra_simps)
    qed
    moreover have "5 + 5 * length out = 8 * length bs + 5 - bits" using inv by (auto simp: cr_inv_def)
    ultimately show ?thesis using True c inv(2) lt by (simp add: crockford32_def pad)
  qed
qed

lemma read256_inj:
  "length bs = length cs \<Longrightarrow> read256 m bs = read256 n cs \<Longrightarrow> m = n \<and> bs = cs"
proof (induction bs arbitrary: cs m n)
  case Nil
  then show ?case by simp
next
  case (Cons b bs)
  from Cons.prems(1) obtain c cs' where cs: "cs = c # cs'" by (cases cs) simp_all
  from Cons.prems cs have "length bs = length cs'" "read256 (256 * m + unat b) bs = read256 (256 * n + unat c) cs'"
    by simp_all
  from Cons.IH [OF this] have eq: "256 * m + unat b = 256 * n + unat c" "bs = cs'" by simp_all
  have split: "x = y \<and> m = n" if "256 * m + x = 256 * n + y" "x < 256" "y < 256" for x y :: nat
  proof -
    have "(256 * m + x) div 256 = m" "(256 * m + x) mod 256 = x" "(256 * n + y) div 256 = n"
        "(256 * n + y) mod 256 = y"
      using that(2,3) by simp_all
    with that(1) show ?thesis by metis
  qed
  have "unat b = unat c \<and> m = n" by (rule split [OF eq(1) byte_lt byte_lt])
  moreover from this have "b = c" by (auto intro: unsigned_word_eqI)
  ultimately show ?case using cs eq by simp
qed

lemma crock_digit [simp]: "n < 32 \<Longrightarrow> crockford_alphabet ! n \<in> set crockford_alphabet"
  by (rule nth_mem) (simp add: crockford_alphabet_def)

lemma cr_drain_alphabet:
  "cr_drain acc bits out = (acc', bits', out') \<Longrightarrow> set out \<subseteq> set crockford_alphabet
   \<Longrightarrow> set out' \<subseteq> set crockford_alphabet"
proof (induction acc bits out rule: cr_drain.induct)
  case (1 acc bits out)
  then show ?case
    by (subst (asm) (2) cr_drain.simps) (auto simp: next_digit split: if_splits)
qed

lemma cr_bytes_alphabet:
  "cr_bytes bs acc bits out = (acc', bits', out') \<Longrightarrow> set out \<subseteq> set crockford_alphabet
   \<Longrightarrow> set out' \<subseteq> set crockford_alphabet"
  by (induction bs acc bits out rule: cr_bytes.induct)
    (simp, simp split: prod.splits, metis cr_drain_alphabet)

lemma crockford32_alphabet: "set (crockford32 bs) \<subseteq> set crockford_alphabet"
proof -
  obtain acc bits out where c: "cr_bytes bs 0 0 [] = (acc, bits, out)" by (metis prod_cases3)
  from cr_bytes_alphabet [OF this] have "set out \<subseteq> set crockford_alphabet" by simp
  then show ?thesis by (simp add: crockford32_def c last_digit)
qed

text \<open>
  The Crockford text of a digest is the big-endian number of its bytes, padded with zero bits to
  a multiple of five, in base 32: it has \<open>\<lceil>8n/5\<rceil>\<close> characters and, among byte strings of one
  length, it determines the bytes.  The 32-bit accumulator never overflows.
\<close>

theorem crockford32_correct:
  "read32 (crockford32 bs) = read256 0 bs * 2 ^ crock_pad (length bs)
   \<and> 5 * length (crockford32 bs) = 8 * length bs + crock_pad (length bs)
   \<and> set (crockford32 bs) \<subseteq> set crockford_alphabet"
  using crockford32_spec crockford32_alphabet by blast

lemma crockford32_inj:
  assumes "length bs = length cs" "crockford32 bs = crockford32 cs"
  shows "bs = cs"
proof -
  have "read256 0 bs = read256 0 cs"
    using assms crockford32_spec [of bs] crockford32_spec [of cs] by simp
  with assms(1) show ?thesis using read256_inj by blast
qed

section \<open>Identifier material\<close>

lemma split_at_sep:
  "a @ c # b = a' @ c # b' \<Longrightarrow> c \<notin> set a \<Longrightarrow> c \<notin> set a' \<Longrightarrow> a = a' \<and> b = b'"
proof (induction a arbitrary: a')
  case Nil
  then show ?case by (cases a') auto
next
  case (Cons x a)
  then show ?case by (cases a') auto
qed

lemma show_int_no_newline [simp]: "CHR 0x0A \<notin> set (show_int i)"
  using show_int_chars [of "CHR 0x0A" i] by (auto simp: is_digit_def less_eq_char_def)

definition idem_ok :: "idem_input \<Rightarrow> bool" where
  "idem_ok x \<longleftrightarrow> CHR 0x0A \<notin> set (ii_saga_id x) \<union> set (ii_compensator_id x) \<union> set (ii_plan_hash x)"

text \<open>
  The text hashed into an idempotency key separates its five inputs: two compensation steps
  whose identifiers hold no newline get the same material only when saga, effect sequence,
  compensator, plan and step index all agree, so equal keys of different steps are a collision of
  the truncated digest on two different texts.
\<close>

theorem idempotency_material_inj:
  assumes "idem_ok x" "idem_ok y"
  shows "idempotency_material x = idempotency_material y \<longleftrightarrow> x = y"
proof
  assume eq: "idempotency_material x = idempotency_material y"
  then have *: "ii_saga_id x @ CHR 0x0A # show_int (ii_effect_seq x) @ CHR 0x0A # ii_compensator_id x
      @ CHR 0x0A # ii_plan_hash x @ CHR 0x0A # show_int (ii_step_index x)
    = ii_saga_id y @ CHR 0x0A # show_int (ii_effect_seq y) @ CHR 0x0A # ii_compensator_id y
      @ CHR 0x0A # ii_plan_hash y @ CHR 0x0A # show_int (ii_step_index y)"
    by (simp add: idempotency_material_def newline_def)
  have ok: "CHR 0x0A \<notin> set (ii_saga_id z)" "CHR 0x0A \<notin> set (ii_compensator_id z)"
      "CHR 0x0A \<notin> set (ii_plan_hash z)" if "z \<in> {x, y}" for z
    using assms that by (auto simp: idem_ok_def)
  note 1 = split_at_sep [OF *] and no = show_int_no_newline
  have 1: "ii_saga_id x = ii_saga_id y" and r1: "show_int (ii_effect_seq x) @ CHR 0x0A # ii_compensator_id x
      @ CHR 0x0A # ii_plan_hash x @ CHR 0x0A # show_int (ii_step_index x)
    = show_int (ii_effect_seq y) @ CHR 0x0A # ii_compensator_id y
      @ CHR 0x0A # ii_plan_hash y @ CHR 0x0A # show_int (ii_step_index y)"
    using split_at_sep [OF *] ok by simp_all
  from split_at_sep [OF r1] have 2: "ii_effect_seq x = ii_effect_seq y" and r2: "ii_compensator_id x
      @ CHR 0x0A # ii_plan_hash x @ CHR 0x0A # show_int (ii_step_index x)
    = ii_compensator_id y @ CHR 0x0A # ii_plan_hash y @ CHR 0x0A # show_int (ii_step_index y)"
    by simp_all
  from split_at_sep [OF r2] ok have 3: "ii_compensator_id x = ii_compensator_id y"
    and r3: "ii_plan_hash x @ CHR 0x0A # show_int (ii_step_index x) = ii_plan_hash y @ CHR 0x0A # show_int (ii_step_index y)"
    by simp_all
  from split_at_sep [OF r3] ok have "ii_plan_hash x = ii_plan_hash y" "ii_step_index x = ii_step_index y"
    by simp_all
  with 1 2 3 show "x = y" by simp
qed simp

theorem idempotency_material_inj_witness:
  "idempotency_material \<lparr>ii_saga_id = ''s'', ii_effect_seq = 1, ii_compensator_id = ''c'', ii_plan_hash = ''h'', ii_step_index = 0\<rparr>
   \<noteq> idempotency_material \<lparr>ii_saga_id = ''s'', ii_effect_seq = 1, ii_compensator_id = ''c'', ii_plan_hash = ''h'', ii_step_index = 1\<rparr>"
  by (subst idempotency_material_inj) (simp_all add: idem_ok_def)

lemma plan_hash_body_norm:
  "norm (plan_hash_body e c orig steps) = norm (plan_hash_body e' c' orig' steps')
   \<longleftrightarrow> e = e' \<and> c = c' \<and> orig = orig' \<and> norm steps = norm steps'"
  by (auto simp: plan_hash_body_def)

section \<open>Chain verification\<close>

text \<open>What a sound chain is: sequence numbers from \<open>n\<close>, links from \<open>h\<close>, every hash recomputable.\<close>

fun chain_links :: "platform \<Rightarrow> sig_check option \<Rightarrow> string \<Rightarrow> int \<Rightarrow> event list \<Rightarrow> bool" where
  "chain_links pf pk h n [] = True"
| "chain_links pf pk h n (ev # evs) =
     (ev_chain_seq ev = n \<and> ev_prev_hash ev = h \<and> ev_hash ev \<noteq> None
      \<and> hash_jcs pf (event_body ev) = ev_hash ev \<and> \<not> sig_bad pk ev
      \<and> chain_links pf pk (the (ev_hash ev)) (n + 1) evs)"

fun last_hash :: "string \<Rightarrow> event list \<Rightarrow> string" where
  "last_hash h [] = h"
| "last_hash h (ev # evs) = last_hash (orelse (ev_hash ev) h) evs"

lemma verify_from_iff: "verify_from pf pk i h n evs = ChainOk \<longleftrightarrow> chain_links pf pk h n evs"
proof (induction evs arbitrary: i h n)
  case Nil
  then show ?case by simp
next
  case (Cons ev evs)
  show ?case
    by (cases "hash_jcs pf (event_body ev)"; cases "ev_hash ev") (auto simp: Cons.IH)
qed

lemma chain_links_append:
  "chain_links pf pk h n (xs @ ys) \<longleftrightarrow>
     chain_links pf pk h n xs \<and> chain_links pf pk (last_hash h xs) (n + int (length xs)) ys"
proof (induction xs arbitrary: h n)
  case Nil
  then show ?case by simp
next
  case (Cons x xs)
  show ?case by (cases "ev_hash x") (auto simp: Cons.IH algebra_simps)
qed

lemma event_body_hash [simp]: "event_body (ev\<lparr>ev_hash := h\<rparr>) = event_body ev"
  by (simp add: event_body_def)

lemma chain_links_linked:
  assumes "chain_event pf ev h = Some ev'" "ev_sig ev = None"
  shows "chain_links pf pk h (ev_chain_seq ev) [ev']"
  using assms by (auto simp: chain_event_def Let_def sig_bad_def)

lemma chain_event_fields:
  assumes "chain_event pf ev h = Some ev'"
  shows "ev_payload ev' = ev_payload ev \<and> ev_hash ev' = hash_jcs pf (event_body (ev\<lparr>ev_prev_hash := h\<rparr>))"
  using assms by (auto simp: chain_event_def Let_def)

lemma chain_event_total: "canonicalize (event_body (ev\<lparr>ev_prev_hash := h\<rparr>)) \<noteq> None \<longleftrightarrow> chain_event pf ev h \<noteq> None"
  by (auto simp: chain_event_def Let_def hash_jcs_def)

text \<open>An event for the instances below.\<close>

definition sample_event :: "json \<Rightarrow> event" where
  "sample_event payload =
     \<lparr>ev_id = ''e1'', ev_type = ''saga.opened'', ev_ts = ''t'', ev_saga_id = ''s'', ev_chain_seq = 1,
      ev_effect_id = None, ev_actor_kind = AgentActor, ev_actor_id = ''a'', ev_payload = payload,
      ev_prev_hash = [], ev_hash = None, ev_sig = None\<rparr>"

definition sample_linked :: "json \<Rightarrow> event" where
  "sample_linked payload = the (chain_event sample_platform (sample_event payload) ''g'')"

lemma sample_linked:
  assumes "emit payload \<noteq> None"
  shows "chain_event sample_platform (sample_event payload) ''g'' = Some (sample_linked payload)"
proof -
  have "canonicalize (event_body ((sample_event payload)\<lparr>ev_prev_hash := ''g''\<rparr>)) \<noteq> None"
    using assms by (auto simp: canonicalize_def event_body_def sample_event_def)
  then have "chain_event sample_platform (sample_event payload) ''g'' \<noteq> None"
    by (rule iffD1 [OF chain_event_total])
  then show ?thesis by (simp add: sample_linked_def)
qed

text \<open>
  The append of the ledgers keeps a chain verifiable: when a chain verifies and the next event,
  unsigned and numbered one past the chain, is linked by \<^verbatim>\<open>chainEvent\<close> to the last hash, the longer
  chain verifies.
\<close>

theorem append_verifies:
  assumes "verify_from pf pk 0 g 1 evs = ChainOk"
    and "ev_chain_seq ev = 1 + int (length evs)" "ev_sig ev = None"
    and "chain_event pf ev (last_hash g evs) = Some ev'"
  shows "verify_from pf pk 0 g 1 (evs @ [ev']) = ChainOk"
  using assms chain_links_linked [of pf ev "last_hash g evs" ev' pk]
  by (simp add: verify_from_iff chain_links_append)

theorem append_verifies_witness:
  "verify_from sample_platform None 0 ''g'' 1 ([] @ [sample_linked (JInt 7)]) = ChainOk"
proof (rule append_verifies [where ev = "sample_event (JInt 7)"])
  show "chain_event sample_platform (sample_event (JInt 7)) (last_hash ''g'' []) = Some (sample_linked (JInt 7))"
    using sample_linked [of "JInt 7"] by simp
qed (simp_all add: sample_event_def)

lemma actor_kind_str_inj [simp]: "actor_kind_str a = actor_kind_str b \<longleftrightarrow> a = b"
  by (cases a; cases b) simp_all

lemma event_body_norm:
  "norm (event_body x) = norm (event_body y) \<longleftrightarrow>
     ev_id x = ev_id y \<and> ev_type x = ev_type y \<and> ev_ts x = ev_ts y \<and> ev_saga_id x = ev_saga_id y
     \<and> ev_chain_seq x = ev_chain_seq y \<and> ev_effect_id x = ev_effect_id y
     \<and> ev_actor_kind x = ev_actor_kind y \<and> ev_actor_id x = ev_actor_id y
     \<and> norm (ev_payload x) = norm (ev_payload y) \<and> ev_prev_hash x = ev_prev_hash y"
  by (cases "ev_effect_id x"; cases "ev_effect_id y") (auto simp: event_body_def)

lemma event_body_ok [simp]: "json_ok (event_body ev) \<longleftrightarrow> json_ok (ev_payload ev)"
  by (auto simp: event_body_def split: option.split)

lemma hex_digit_inj: "a < 16 \<Longrightarrow> b < 16 \<Longrightarrow> hex_digit a = hex_digit b \<longleftrightarrow> a = b"
  by (metis hex_val_digit)

lemma hex_of_inj: "hex_of xs = hex_of ys \<longleftrightarrow> xs = ys"
proof
  show "hex_of xs = hex_of ys \<Longrightarrow> xs = ys"
  proof (induction xs arbitrary: ys)
    case Nil
    then show ?case by (cases ys) (auto simp: hex_of_def)
  next
    case (Cons x xs)
    then obtain y ys' where ys: "ys = y # ys'" by (cases ys) (auto simp: hex_of_def)
    have lt: "unat w div 16 < 16" "unat w mod 16 < 16" for w :: "8 word"
      using byte_lt [of w] by (simp_all add: less_mult_imp_div_less)
    from Cons.prems ys have "unat x div 16 = unat y div 16" "unat x mod 16 = unat y mod 16" "hex_of xs = hex_of ys'"
      using hex_digit_inj lt by (simp_all add: hex_of_def)
    moreover from this(1,2) have "unat x = unat y" by (metis div_mult_mod_eq)
    ultimately show ?case using Cons.IH ys by (auto intro: unsigned_word_eqI)
  qed
qed simp

text \<open>Two different texts with one digest.\<close>

definition collides :: "platform \<Rightarrow> json \<Rightarrow> json \<Rightarrow> bool" where
  "collides pf u v \<longleftrightarrow> (\<exists>s t. canonicalize u = Some s \<and> canonicalize v = Some t \<and> s \<noteq> t
     \<and> pf_sha256 pf s = pf_sha256 pf t)"

lemma hash_jcs_eqD:
  assumes "hash_jcs pf u = Some h" "hash_jcs pf v = Some h" "json_ok u" "json_ok v"
  shows "norm u = norm v \<or> collides pf u v"
proof -
  from assms obtain s t where st: "canonicalize u = Some s" "canonicalize v = Some t"
      "pf_sha256 pf s = pf_sha256 pf t"
    by (auto simp: hash_jcs_def sha256_prefixed_def sha256_hex_def hex_of_inj)
  then show ?thesis
    using assms(3,4) emit_Some_eq_iff [of u v s] by (auto simp: collides_def canonicalize_def)
qed

lemma last_hash_snoc: "last_hash h (xs @ [x]) = orelse (ev_hash x) (last_hash h xs)"
proof (induction xs arbitrary: h)
  case Nil
  then show ?case by (cases "ev_hash x") simp_all
qed simp

text \<open>
  C31: tamper evidence: two event sequences of one length that both verify from the same genesis and
  end in the same head hash agree event by event (up to the key order inside payloads), unless at
  some position their two bodies are an explicit collision of the digest.
\<close>

theorem chain_tamper_evident:
  assumes "verify_from pf pk 0 g n xs = ChainOk" "verify_from pf pk 0 g n ys = ChainOk"
    and "length xs = length ys" "last_hash g xs = last_hash g ys"
    and "list_all (json_ok \<circ> ev_payload) xs" "list_all (json_ok \<circ> ev_payload) ys"
  shows "list_all2 (\<lambda>x y. norm (event_body x) = norm (event_body y)) xs ys
    \<or> (\<exists>i < length xs. collides pf (event_body (xs ! i)) (event_body (ys ! i)))"
  using assms
proof (induction xs arbitrary: ys rule: rev_induct)
  case Nil
  then show ?case by simp
next
  case (snoc x xs zs)
  then obtain y ys where zs: "zs = ys @ [y]" by (cases zs rule: rev_cases) auto
  with snoc.prems(3) have len: "length xs = length ys" by simp
  from snoc.prems(1,2) zs have links: "chain_links pf pk g n xs" "chain_links pf pk g n ys"
      "hash_jcs pf (event_body x) = ev_hash x" "hash_jcs pf (event_body y) = ev_hash y"
      "ev_hash x \<noteq> None" "ev_hash y \<noteq> None"
      "ev_prev_hash x = last_hash g xs" "ev_prev_hash y = last_hash g ys"
    by (auto simp: verify_from_iff chain_links_append)
  with snoc.prems(4) zs obtain h where "hash_jcs pf (event_body x) = Some h" "hash_jcs pf (event_body y) = Some h"
    by (auto simp: last_hash_snoc)
  then consider "norm (event_body x) = norm (event_body y)" | "collides pf (event_body x) (event_body y)"
    using snoc.prems(5,6) zs hash_jcs_eqD [of pf "event_body x" h "event_body y"] by auto
  then show ?case
  proof cases
    case 1
    then have "last_hash g xs = last_hash g ys" using links by (simp add: event_body_norm)
    with snoc.IH [of ys] snoc.prems zs len links
    have IH: "list_all2 (\<lambda>x y. norm (event_body x) = norm (event_body y)) xs ys
        \<or> (\<exists>i < length xs. collides pf (event_body (xs ! i)) (event_body (ys ! i)))"
      by (simp add: verify_from_iff)
    have tail: "\<exists>i < length (xs @ [x]). collides pf (event_body ((xs @ [x]) ! i)) (event_body ((ys @ [y]) ! i))"
      if "i < length xs" "collides pf (event_body (xs ! i)) (event_body (ys ! i))" for i
      using that len by (intro exI [of _ i]) (simp add: nth_append)
    from IH show ?thesis using 1 len tail zs by (auto simp: list_all2_appendI)
  next
    case 2
    with len zs show ?thesis by (intro disjI2 exI [of _ "length xs"]) (simp add: nth_append)
  qed
qed

theorem chain_tamper_evident_witness:
  "(let xs = [sample_linked (JObj [(''a'', JInt 1), (''b'', JInt 2)])];
        ys = [sample_linked (JObj [(''b'', JInt 2), (''a'', JInt 1)])]
    in list_all2 (\<lambda>x y. norm (event_body x) = norm (event_body y)) xs ys
       \<or> (\<exists>i < length xs. collides sample_platform (event_body (xs ! i)) (event_body (ys ! i))))"
proof -
  let ?u = "JObj [(''a'', JInt 1), (''b'', JInt 2)]" and ?v = "JObj [(''b'', JInt 2), (''a'', JInt 1)]"
  have u: "chain_event sample_platform (sample_event ?u) ''g'' = Some (sample_linked ?u)"
    and v: "chain_event sample_platform (sample_event ?v) ''g'' = Some (sample_linked ?v)"
    by (rule sample_linked, simp)+
  have "norm (event_body ((sample_event ?u)\<lparr>ev_prev_hash := ''g''\<rparr>)) = norm (event_body ((sample_event ?v)\<lparr>ev_prev_hash := ''g''\<rparr>))"
    by (simp add: event_body_norm sample_event_def)
  then have "hash_jcs sample_platform (event_body ((sample_event ?u)\<lparr>ev_prev_hash := ''g''\<rparr>))
      = hash_jcs sample_platform (event_body ((sample_event ?v)\<lparr>ev_prev_hash := ''g''\<rparr>))"
    by (metis hash_jcs_def canonicalize_def emit_norm)
  with chain_event_fields [OF u] chain_event_fields [OF v]
  have heads: "ev_hash (sample_linked ?u) = ev_hash (sample_linked ?v)"
    and payload: "ev_payload (sample_linked ?u) = ?u" "ev_payload (sample_linked ?v) = ?v"
    by (simp_all add: sample_event_def)
  have "verify_from sample_platform None 0 ''g'' 1 [sample_linked ?u] = ChainOk"
    and "verify_from sample_platform None 0 ''g'' 1 [sample_linked ?v] = ChainOk"
    unfolding verify_from_iff
    using chain_links_linked [OF u] chain_links_linked [OF v] by (simp_all add: sample_event_def)
  moreover have "json_ok (ev_payload (sample_linked ?u))" "json_ok (ev_payload (sample_linked ?v))"
    unfolding payload by simp_all
  ultimately show ?thesis
    unfolding Let_def using heads
    by (intro chain_tamper_evident [where g = "''g''" and n = 1 and pk = None])
      (simp_all del: verify_from.simps)
qed

text \<open>
  The Merkle root of an anchor depends only on which sagas it covers, not on the order in which
  they are listed.
\<close>

theorem merkle_root_permutation:
  assumes "mset ps = mset qs" "distinct (map ap_saga_id ps)"
  shows "merkle_root pf ps = merkle_root pf qs"
proof -
  have "sort_key ap_saga_id ps = sort_key ap_saga_id qs"
    by (rule sort_key_eq_sort_key) (use assms in \<open>auto simp: distinct_map\<close>)
  then show ?thesis by (simp add: merkle_root_def Let_def)
qed

theorem merkle_root_permutation_witness:
  "merkle_root sample_platform
     [\<lparr>ap_saga_id = ''b'', ap_chain_head = ''2''\<rparr>, \<lparr>ap_saga_id = ''a'', ap_chain_head = ''1''\<rparr>]
   = merkle_root sample_platform
     [\<lparr>ap_saga_id = ''a'', ap_chain_head = ''1''\<rparr>, \<lparr>ap_saga_id = ''b'', ap_chain_head = ''2''\<rparr>]"
  by (rule merkle_root_permutation) simp_all

end
