(* ===== verification/Projections.thy ===== *)
theory Projections
  imports Chain
begin

text \<open>
  The projections of the receipt events: \<^verbatim>\<open>emptySaga\<close>, \<^verbatim>\<open>emptyEffect\<close>, \<^verbatim>\<open>applyEventToProjections\<close>,
  \<^verbatim>\<open>foldEvents\<close> and \<^verbatim>\<open>diffProjections\<close> of \<^verbatim>\<open>sdk-ts/src/ledger/types.ts\<close>.  A JavaScript \<^verbatim>\<open>Map\<close> is an
  association list in insertion order; \<open>AList.update\<close> keeps the place of a key, as \<^verbatim>\<open>Map.set\<close> does.

  Sequence numbers are integers: \<^verbatim>\<open>Number\<close> of a payload value that is not the number, or the decimal
  text, of an integer is outside the model (\<open>js_int\<close> yields 0 for it).  The results: the saga
  projection counts and heads its chain, no effect has a sequence number the saga could hand out
  again, an event leaves the receipt fields of an effect alone, and folding the events of one saga
  gives what folding all events gives for it.
\<close>

section \<open>Values of a payload\<close>

definition int_text :: "string \<Rightarrow> int option" where
  "int_text s =
     (let t = js_trim s in
      if t = [] then Some 0
      else if list_all is_digit t then Some (int (read_nat t))
      else if (hd t = CHR ''-'' \<or> hd t = CHR ''+'') \<and> tl t \<noteq> [] \<and> list_all is_digit (tl t)
      then Some (if hd t = CHR ''-'' then - int (read_nat (tl t)) else int (read_nat (tl t)))
      else None)"

definition js_int :: "json \<Rightarrow> int" where
  "js_int v = (case v of JInt i \<Rightarrow> i | JBool b \<Rightarrow> of_bool b | JStr s \<Rightarrow> orelse (int_text s) 0 | _ \<Rightarrow> 0)"

definition js_number :: "json \<Rightarrow> json" where
  "js_number v = (if is_number v then v else JInt (js_int v))"

text \<open>A member that is neither missing nor null, and its text.\<close>

definition pget :: "(string \<times> json) list \<Rightarrow> string \<Rightarrow> json option" where
  "pget p k = (case map_of p k of Some JNull \<Rightarrow> None | x \<Rightarrow> x)"

definition pstr :: "(string \<times> json) list \<Rightarrow> string \<Rightarrow> string \<Rightarrow> string" where
  "pstr p k d = (case pget p k of Some v \<Rightarrow> js_string v | None \<Rightarrow> d)"

definition pstr_opt :: "(string \<times> json) list \<Rightarrow> string \<Rightarrow> string option" where
  "pstr_opt p k = map_option js_string (pget p k)"

section \<open>The records\<close>

record saga =
  sa_saga_id :: string
  sa_key :: "string option"
  sa_agent_id :: "string option"
  sa_status :: string
  sa_next_seq :: int
  sa_opened_at :: string
  sa_closed_at :: "string option"
  sa_chain_head :: string
  sa_chain_len :: int

record anchor =
  an_seq :: int
  an_merkle_root :: string
  an_saga_heads :: json
  an_prev_hash :: string
  an_hash :: string
  an_sig :: "string option"
  an_anchored_at :: string

record effect =
  ef_effect_id :: string
  ef_saga_id :: string
  ef_seq :: int
  ef_compensation_of :: "string option"
  ef_restore_sibling_of :: "string option"
  ef_parent_effect_id :: "string option"
  ef_action_kind :: string
  ef_action_name :: string
  ef_action_target :: "string option"
  ef_locality :: string
  ef_tier :: string
  ef_classification :: json
  ef_args_observed :: json
  ef_args_hash :: string
  ef_args_commitments :: "json option"
  ef_intent_key :: string
  ef_result_observed :: "json option"
  ef_result_hash :: "string option"
  ef_bindings :: json
  ef_binding_paths :: json
  ef_resource_keys :: json
  ef_preimage_kind :: "string option"
  ef_preimage_blob_id :: "string option"
  ef_preimage_bytes :: "json option"
  ef_preimage_rows :: "json option"
  ef_preimage_truncated :: int
  ef_preimage_meta :: "json option"
  ef_status :: string
  ef_comp_state :: string
  ef_compensator_id :: "string option"
  ef_capture_fidelity :: string
  ef_capture_interceptor :: string
  ef_capture_warnings :: "json option"
  ef_leak :: string
  ef_cascade_risk :: string
  ef_compensable_until :: "string option"
  ef_opened_at :: string
  ef_closed_at :: "string option"
  ef_duration_ms :: "json option"
  ef_redactions :: "json option"
  ef_sealed :: int
  ef_seal_hash :: "string option"

record projections =
  pj_sagas :: "(string \<times> saga) list"
  pj_effects :: "(string \<times> effect) list"
  pj_anchors :: "anchor list"

definition empty_projections :: projections where
  "empty_projections = \<lparr>pj_sagas = [], pj_effects = [], pj_anchors = []\<rparr>"

section \<open>The fold\<close>

definition hash_of :: "event \<Rightarrow> string" where
  "hash_of ev = orelse (ev_hash ev) []"

definition empty_saga :: "platform \<Rightarrow> event \<Rightarrow> saga" where
  "empty_saga pf ev =
     \<lparr>sa_saga_id = ev_saga_id ev, sa_key = None, sa_agent_id = None, sa_status = ''open'', sa_next_seq = 1,
      sa_opened_at = ev_ts ev, sa_closed_at = None, sa_chain_head = genesis_hash pf (ev_saga_id ev), sa_chain_len = 0\<rparr>"

definition empty_effect :: "event \<Rightarrow> (string \<times> json) list \<Rightarrow> effect" where
  "empty_effect ev p =
     (let action = as_record (pget p ''action''); pre = as_record (pget p ''preimage'') in
      \<lparr>ef_effect_id = pstr p ''effect_id'' (orelse (ev_effect_id ev) []),
       ef_saga_id = ev_saga_id ev,
       ef_seq = (case pget p ''seq'' of Some v \<Rightarrow> js_int v | None \<Rightarrow> 0),
       ef_compensation_of = None,
       ef_restore_sibling_of = pstr_opt p ''restore_sibling_of'',
       ef_parent_effect_id = None,
       ef_action_kind = pstr action ''kind'' ''sdk_fn'',
       ef_action_name = pstr action ''name'' ''unknown'',
       ef_action_target = pstr_opt action ''target'',
       ef_locality = pstr action ''locality'' ''unknown'',
       ef_tier = pstr p ''tier'' ''T4'',
       ef_classification = orelse (pget p ''classification'') (JObj []),
       ef_args_observed = orelse (pget p ''args_observed'') (JObj []),
       ef_args_hash = pstr p ''args_hash'' [],
       ef_args_commitments = pget p ''args_commitments'',
       ef_intent_key = pstr p ''intent_key'' [],
       ef_result_observed = None,
       ef_result_hash = None,
       ef_bindings = JObj [],
       ef_binding_paths = JObj [],
       ef_resource_keys = JArr [],
       ef_preimage_kind = pstr_opt pre ''kind'',
       ef_preimage_blob_id = pstr_opt pre ''blob_id'',
       ef_preimage_bytes = (case pget pre ''bytes'' of Some v \<Rightarrow> if is_number v then Some v else None | None \<Rightarrow> None),
       ef_preimage_rows = (case pget pre ''rows'' of Some v \<Rightarrow> if is_number v then Some v else None | None \<Rightarrow> None),
       ef_preimage_truncated = (if truthy (map_of pre ''truncated'') then 1 else 0),
       ef_preimage_meta = pget pre ''meta'',
       ef_status = ''opened'',
       ef_comp_state = ''available'',
       ef_compensator_id = None,
       ef_capture_fidelity = ''full'',
       ef_capture_interceptor = ''unknown'',
       ef_capture_warnings = None,
       ef_leak = ''none'',
       ef_cascade_risk = ''none'',
       ef_compensable_until = None,
       ef_opened_at = pstr p ''opened_at'' (ev_ts ev),
       ef_closed_at = None,
       ef_duration_ms = None,
       ef_redactions = None,
       ef_sealed = 0,
       ef_seal_hash = None\<rparr>)"

definition set_comp_state :: "string \<Rightarrow> effect \<Rightarrow> effect" where
  "set_comp_state st e = e\<lparr>ef_comp_state := st\<rparr>"

definition event_effect_id :: "event \<Rightarrow> (string \<times> json) list \<Rightarrow> string" where
  "event_effect_id ev p = (case ev_effect_id ev of Some e \<Rightarrow> e | None \<Rightarrow> pstr p ''effect_id'' [])"

text \<open>\<^verbatim>\<open>effects.get(id)\<close> followed by an assignment to its fields; nothing when the effect is unknown.\<close>

definition on_effect :: "(effect \<Rightarrow> effect) \<Rightarrow> string \<Rightarrow> (string \<times> effect) list \<Rightarrow> (string \<times> effect) list" where
  "on_effect f k effs = (case map_of effs k of Some e \<Rightarrow> AList.update k (f e) effs | None \<Rightarrow> effs)"

definition close_effect :: "event \<Rightarrow> (string \<times> json) list \<Rightarrow> effect \<Rightarrow> effect" where
  "close_effect ev p e =
     (let e1 = (case pget p ''status'' of Some v \<Rightarrow> e\<lparr>ef_status := js_string v\<rparr> | None \<Rightarrow> e);
          e2 = (case pget p ''result_hash'' of Some v \<Rightarrow> e1\<lparr>ef_result_hash := Some (js_string v)\<rparr> | None \<Rightarrow> e1);
          e3 = (case pget p ''bindings'' of Some v \<Rightarrow> e2\<lparr>ef_bindings := v\<rparr> | None \<Rightarrow> e2);
          e4 = (case pget p ''resource_keys'' of Some v \<Rightarrow> e3\<lparr>ef_resource_keys := v\<rparr> | None \<Rightarrow> e3);
          e5 = (case pget p ''duration_ms'' of Some v \<Rightarrow> e4\<lparr>ef_duration_ms := Some (js_number v)\<rparr> | None \<Rightarrow> e4);
          e6 = (case pget p ''seal_hash'' of Some v \<Rightarrow> e5\<lparr>ef_seal_hash := Some (js_string v), ef_sealed := 1\<rparr> | None \<Rightarrow> e5);
          e7 = (case pget p ''result_observed'' of Some v \<Rightarrow> e6\<lparr>ef_result_observed := Some v\<rparr> | None \<Rightarrow> e6)
      in e7\<lparr>ef_closed_at := Some (ev_ts ev)\<rparr>)"

definition probe_effect :: "(string \<times> json) list \<Rightarrow> effect \<Rightarrow> effect" where
  "probe_effect p e =
     (let result = pstr p ''probe_result'' [] in
      if result = ''landed'' then e\<lparr>ef_status := ''landed''\<rparr>
      else if result = ''not_landed'' then set_comp_state ''none_required'' (e\<lparr>ef_status := ''abandoned''\<rparr>)
      else e)"

definition degrade_effect :: "(string \<times> json) list \<Rightarrow> effect \<Rightarrow> effect" where
  "degrade_effect p e =
     (let e1 = e\<lparr>ef_capture_fidelity := pstr p ''fidelity'' ''degraded''\<rparr>
      in case pget p ''warnings'' of Some v \<Rightarrow> e1\<lparr>ef_capture_warnings := Some v\<rparr> | None \<Rightarrow> e1)"

definition skip_effect :: "(string \<times> json) list \<Rightarrow> effect \<Rightarrow> effect" where
  "skip_effect p e =
     (let reason = pstr p ''reason'' [] in
      if reason = ''t1'' then set_comp_state ''none_required'' e
      else if reason = ''superseded'' then set_comp_state ''superseded'' e
      else if reason = ''abandoned'' then (set_comp_state ''none_required'' e)\<lparr>ef_status := ''abandoned''\<rparr>
      else set_comp_state ''compensated'' e)"

text \<open>What an event other than \<^verbatim>\<open>effect_opened\<close> does to the effect it names.\<close>

definition effect_change :: "event \<Rightarrow> (string \<times> json) list \<Rightarrow> effect \<Rightarrow> effect" where
  "effect_change ev p =
     (let t = ev_type ev in
      if t = ''effect_closed'' then close_effect ev p
      else if t = ''effect_in_doubt'' then ef_status_update (\<lambda>_. ''in_doubt'')
      else if t = ''effect_probed'' then probe_effect p
      else if t = ''effect_duplicate_suspected'' then
        (\<lambda>e. case pget p ''restore_sibling_of'' of Some v \<Rightarrow> e\<lparr>ef_restore_sibling_of := Some (js_string v)\<rparr> | None \<Rightarrow> e)
      else if t = ''capture_degraded'' then degrade_effect p
      else if t = ''compensation_unavailable'' then set_comp_state ''unavailable''
      else if t = ''compensation_planned'' then set_comp_state ''planned''
      else if t = ''compensation_verified'' then set_comp_state ''verified''
      else if t = ''compensation_executed'' then set_comp_state ''compensated''
      else if t = ''compensation_failed'' then set_comp_state ''failed''
      else if t = ''compensation_skipped'' then skip_effect p
      else if t = ''escalation_raised'' then set_comp_state ''escalated''
      else if t = ''escalation_resolved'' then set_comp_state ''manually_resolved''
      else (\<lambda>e. e))"

text \<open>An \<^verbatim>\<open>effect_opened\<close> event without an id in the payload takes the one of the event.\<close>

definition opened_effect :: "event \<Rightarrow> (string \<times> json) list \<Rightarrow> effect" where
  "opened_effect ev p =
     (let e = empty_effect ev p
      in if ev_effect_id ev \<noteq> None \<and> ev_effect_id ev \<noteq> Some [] \<and> ef_effect_id e = []
         then e\<lparr>ef_effect_id := the (ev_effect_id ev)\<rparr> else e)"

definition saga_change :: "event \<Rightarrow> (string \<times> json) list \<Rightarrow> saga \<Rightarrow> saga" where
  "saga_change ev p s =
     (if ev_type ev = ''saga_opened'' then
        s\<lparr>sa_key := orelse_opt (pstr_opt p ''key'') (sa_key s), sa_agent_id := orelse_opt (pstr_opt p ''agent_id'') (sa_agent_id s),
          sa_status := ''open'', sa_opened_at := ev_ts ev\<rparr>
      else if ev_type ev = ''effect_opened'' then
        s\<lparr>sa_next_seq := max (sa_next_seq s) (ef_seq (opened_effect ev p) + 1)\<rparr>
      else if ev_type ev = ''saga_undone'' then
        (let st = pstr p ''status'' ''undone'' in
         s\<lparr>sa_status := (if st \<in> {''partially_undone'', ''failed'', ''undone'', ''undoing''} then st else ''undone''),
           sa_closed_at := Some (ev_ts ev)\<rparr>)
      else s)"

definition anchor_of :: "event \<Rightarrow> (string \<times> json) list \<Rightarrow> anchor" where
  "anchor_of ev p =
     \<lparr>an_seq = (case pget p ''anchor_seq'' of Some v \<Rightarrow> js_int v | None \<Rightarrow> 0), an_merkle_root = pstr p ''merkle_root'' [],
      an_saga_heads = orelse (pget p ''saga_heads'') (JArr []), an_prev_hash = pstr p ''prev_anchor_hash'' [],
      an_hash = hash_of ev, an_sig = ev_sig ev, an_anchored_at = pstr p ''anchored_at'' (ev_ts ev)\<rparr>"

definition add_anchor :: "anchor \<Rightarrow> anchor list \<Rightarrow> anchor list" where
  "add_anchor a ans = (if list_ex (\<lambda>b. an_seq b = an_seq a) ans then ans else ans @ [a])"

definition saga_at :: "platform \<Rightarrow> event \<Rightarrow> (string \<times> saga) list \<Rightarrow> saga" where
  "saga_at pf ev sagas =
     (let s = orelse (map_of sagas (ev_saga_id ev)) (empty_saga pf ev)
      in s\<lparr>sa_chain_head := hash_of ev, sa_chain_len := sa_chain_len s + 1\<rparr>)"

definition apply_event :: "platform \<Rightarrow> projections \<Rightarrow> event \<Rightarrow> projections" where
  "apply_event pf pj ev =
     (let p = as_record (Some (ev_payload ev))
      in \<lparr>pj_sagas = AList.update (ev_saga_id ev) (saga_change ev p (saga_at pf ev (pj_sagas pj))) (pj_sagas pj),
          pj_effects =
            (if ev_type ev = ''effect_opened''
             then (let e = opened_effect ev p in AList.update (ef_effect_id e) e (pj_effects pj))
             else on_effect (effect_change ev p) (event_effect_id ev p) (pj_effects pj)),
          pj_anchors = (if ev_type ev = ''ledger_anchored'' then add_anchor (anchor_of ev p) (pj_anchors pj) else pj_anchors pj)\<rparr>)"

definition fold_events :: "platform \<Rightarrow> event list \<Rightarrow> projections" where
  "fold_events pf evs = foldl (apply_event pf) empty_projections evs"

section \<open>Comparing projections\<close>

datatype entity = SagaEntity | EffectEntity

record divergence =
  dv_entity :: entity
  dv_id :: string
  dv_field :: string
  dv_rebuilt :: json
  dv_stored :: json

text \<open>\<^verbatim>\<open>JSON.parse(JSON.stringify(v))\<close>: a non-finite number becomes null.\<close>

fun snapshot :: "json \<Rightarrow> json" where
  "snapshot (JNonFinite s) = JNull"
| "snapshot (JArr vs) = JArr (map snapshot vs)"
| "snapshot (JObj kvs) = JObj (map (\<lambda>(k, v). (k, snapshot v)) kvs)"
| "snapshot v = v"

type_synonym fields_of = "(string \<times> json option) list"

definition saga_fields :: "saga \<Rightarrow> fields_of" where
  "saga_fields s =
     [(''saga_id'', Some (JStr (sa_saga_id s))), (''status'', Some (JStr (sa_status s))),
      (''next_seq'', Some (JInt (sa_next_seq s))), (''opened_at'', Some (JStr (sa_opened_at s))),
      (''chain_head'', Some (JStr (sa_chain_head s))), (''chain_len'', Some (JInt (sa_chain_len s))),
      (''key'', map_option JStr (sa_key s)), (''agent_id'', map_option JStr (sa_agent_id s)),
      (''closed_at'', map_option JStr (sa_closed_at s))]"

definition effect_fields :: "effect \<Rightarrow> fields_of" where
  "effect_fields e =
     [(''effect_id'', Some (JStr (ef_effect_id e))), (''saga_id'', Some (JStr (ef_saga_id e))), (''seq'', Some (JInt (ef_seq e))),
      (''compensation_of'', map_option JStr (ef_compensation_of e)), (''restore_sibling_of'', map_option JStr (ef_restore_sibling_of e)),
      (''parent_effect_id'', map_option JStr (ef_parent_effect_id e)),
      (''action_kind'', Some (JStr (ef_action_kind e))), (''action_name'', Some (JStr (ef_action_name e))),
      (''action_target'', map_option JStr (ef_action_target e)), (''locality'', Some (JStr (ef_locality e))),
      (''tier'', Some (JStr (ef_tier e))), (''classification'', Some (ef_classification e)),
      (''args_observed'', Some (ef_args_observed e)), (''args_hash'', Some (JStr (ef_args_hash e))),
      (''args_commitments'', ef_args_commitments e), (''intent_key'', Some (JStr (ef_intent_key e))),
      (''result_observed'', ef_result_observed e), (''result_hash'', map_option JStr (ef_result_hash e)),
      (''bindings'', Some (ef_bindings e)), (''binding_paths'', Some (ef_binding_paths e)),
      (''resource_keys'', Some (ef_resource_keys e)),
      (''preimage_kind'', map_option JStr (ef_preimage_kind e)), (''preimage_blob_id'', map_option JStr (ef_preimage_blob_id e)),
      (''preimage_bytes'', ef_preimage_bytes e), (''preimage_rows'', ef_preimage_rows e),
      (''preimage_truncated'', Some (JInt (ef_preimage_truncated e))), (''preimage_meta'', ef_preimage_meta e),
      (''status'', Some (JStr (ef_status e))), (''compensation_state'', Some (JStr (ef_comp_state e))),
      (''compensator_id'', map_option JStr (ef_compensator_id e)), (''capture_fidelity'', Some (JStr (ef_capture_fidelity e))),
      (''capture_interceptor'', Some (JStr (ef_capture_interceptor e))), (''capture_warnings'', ef_capture_warnings e),
      (''leak'', Some (JStr (ef_leak e))), (''cascade_risk'', Some (JStr (ef_cascade_risk e))),
      (''compensable_until'', map_option JStr (ef_compensable_until e)), (''opened_at'', Some (JStr (ef_opened_at e))),
      (''closed_at'', map_option JStr (ef_closed_at e)), (''duration_ms'', ef_duration_ms e), (''redactions'', ef_redactions e),
      (''sealed'', Some (JInt (ef_sealed e))), (''seal_hash'', map_option JStr (ef_seal_hash e))]"

definition snapshot_fields :: "fields_of \<Rightarrow> json" where
  "snapshot_fields fs = snapshot (JObj (concat (map (\<lambda>(k, v). case v of Some x \<Rightarrow> [(k, x)] | None \<Rightarrow> []) fs)))"

text \<open>Two records of one type have the same properties; they are compared in the order of the type.\<close>

definition field_diffs :: "entity \<Rightarrow> string \<Rightarrow> fields_of \<Rightarrow> fields_of option \<Rightarrow> divergence list" where
  "field_diffs en ident rebuilt stored =
     (case stored of
        None \<Rightarrow> [\<lparr>dv_entity = en, dv_id = ident, dv_field = ''(missing)'', dv_rebuilt = snapshot_fields rebuilt, dv_stored = JNull\<rparr>]
      | Some st \<Rightarrow>
          concat (map (\<lambda>((k, a), (_, b)).
              let x = snapshot (orelse a JNull); y = snapshot (orelse b JNull)
              in if canonicalize x \<noteq> canonicalize y
                 then [\<lparr>dv_entity = en, dv_id = ident, dv_field = k, dv_rebuilt = x, dv_stored = y\<rparr>] else [])
            (zip rebuilt st)))"

definition diff_projections ::
  "(string \<times> saga) list \<Rightarrow> (string \<times> effect) list \<Rightarrow> (string \<times> saga) list \<Rightarrow> (string \<times> effect) list \<Rightarrow> string \<Rightarrow> divergence list" where
  "diff_projections rs re ss se saga_id =
     (case (map_of rs saga_id, map_of ss saga_id) of
        (Some r, st) \<Rightarrow> field_diffs SagaEntity saga_id (saga_fields r) (map_option saga_fields st)
      | (None, Some st) \<Rightarrow>
          [\<lparr>dv_entity = SagaEntity, dv_id = saga_id, dv_field = ''(extra)'', dv_rebuilt = JNull, dv_stored = snapshot_fields (saga_fields st)\<rparr>]
      | (None, None) \<Rightarrow> [])
     @ concat (map (\<lambda>e. field_diffs EffectEntity (ef_effect_id e) (effect_fields (the (map_of re (ef_effect_id e))))
            (map_option effect_fields (map_of se (ef_effect_id e))))
          (filter (\<lambda>e. ef_saga_id e = saga_id) (map snd re)))
     @ concat (map (\<lambda>e. if map_of re (ef_effect_id e) = None
          then [\<lparr>dv_entity = EffectEntity, dv_id = ef_effect_id e, dv_field = ''(extra)'', dv_rebuilt = JNull,
                 dv_stored = snapshot_fields (effect_fields (the (map_of se (ef_effect_id e))))\<rparr>]
          else [])
          (filter (\<lambda>e. ef_saga_id e = saga_id) (map snd se)))"

section \<open>Lemmas on insertion-ordered maps\<close>

lemma set_alist_update: "(k', v') \<in> set (AList.update k v xs) \<Longrightarrow> (k' = k \<and> v' = v) \<or> (k', v') \<in> set xs"
  by (induction xs) (auto split: if_splits)

lemma on_effect_map_of:
  "map_of (on_effect f k effs) k' = (if k' = k then map_option f (map_of effs k) else map_of effs k')"
  by (auto simp: on_effect_def update_conv' split: option.split)

lemma on_effect_id: "(\<And>e. f e = e) \<Longrightarrow> on_effect f k effs = effs"
  by (auto simp: on_effect_def split: option.split) (metis update_triv map_of_eq_None_iff)

lemma update_new: "k \<notin> fst ` set xs \<Longrightarrow> AList.update k v xs = xs @ [(k, v)]"
  by (induction xs) auto

section \<open>What an event leaves alone\<close>

text \<open>The fields an effect has from its opening: everything but its state and its outcome.\<close>

definition receipt_part :: "effect \<Rightarrow> effect" where
  "receipt_part e = e\<lparr>ef_restore_sibling_of := None, ef_result_observed := None, ef_result_hash := None,
     ef_bindings := JNull, ef_resource_keys := JNull, ef_status := [], ef_comp_state := [], ef_capture_fidelity := [],
     ef_capture_warnings := None, ef_closed_at := None, ef_duration_ms := None, ef_sealed := 0, ef_seal_hash := None\<rparr>"

lemma receipt_part_updates [simp]:
  "receipt_part (ef_restore_sibling_of_update f1 e) = receipt_part e"
  "receipt_part (ef_result_observed_update f2 e) = receipt_part e"
  "receipt_part (ef_result_hash_update f3 e) = receipt_part e"
  "receipt_part (ef_bindings_update f4 e) = receipt_part e"
  "receipt_part (ef_resource_keys_update f5 e) = receipt_part e"
  "receipt_part (ef_status_update f6 e) = receipt_part e"
  "receipt_part (ef_comp_state_update f7 e) = receipt_part e"
  "receipt_part (ef_capture_fidelity_update f8 e) = receipt_part e"
  "receipt_part (ef_capture_warnings_update f9 e) = receipt_part e"
  "receipt_part (ef_closed_at_update f10 e) = receipt_part e"
  "receipt_part (ef_duration_ms_update f11 e) = receipt_part e"
  "receipt_part (ef_sealed_update f12 e) = receipt_part e"
  "receipt_part (ef_seal_hash_update f13 e) = receipt_part e"
  by (cases e; simp add: receipt_part_def)+

definition keeps_receipt :: "(effect \<Rightarrow> effect) \<Rightarrow> bool" where
  "keeps_receipt f \<longleftrightarrow> (\<forall>e. receipt_part (f e) = receipt_part e)"

lemma keeps_if: "keeps_receipt f \<Longrightarrow> keeps_receipt g \<Longrightarrow> keeps_receipt (if c then f else g)"
  by simp

lemma receipt_part_optional:
  "(\<And>v. receipt_part (f v) = receipt_part e) \<Longrightarrow> receipt_part (case x of Some v \<Rightarrow> f v | None \<Rightarrow> e) = receipt_part e"
  by (simp split: option.split)

lemma keeps_close: "keeps_receipt (close_effect ev p)"
  unfolding keeps_receipt_def close_effect_def Let_def
  by (intro allI) (simp only: receipt_part_updates receipt_part_optional)

lemma keeps_set_comp: "keeps_receipt (set_comp_state st)"
  by (simp add: keeps_receipt_def set_comp_state_def)

lemma keeps_cases:
  "keeps_receipt (probe_effect p)" "keeps_receipt (degrade_effect p)" "keeps_receipt (skip_effect p)"
  by (simp_all add: keeps_receipt_def probe_effect_def degrade_effect_def skip_effect_def set_comp_state_def Let_def split: option.split)

lemma keeps_change: "keeps_receipt (effect_change ev p)"
  unfolding effect_change_def Let_def
  by (intro keeps_if keeps_close keeps_set_comp keeps_cases) (auto simp: keeps_receipt_def split: option.split)

lemma receipt_part_change: "receipt_part (effect_change ev p e) = receipt_part e"
  using keeps_change by (simp add: keeps_receipt_def)

lemma receipt_part_sel:
  assumes "receipt_part e = receipt_part e'"
  shows "ef_effect_id e = ef_effect_id e'" "ef_saga_id e = ef_saga_id e'" "ef_seq e = ef_seq e'"
  using arg_cong [OF assms, of ef_effect_id] arg_cong [OF assms, of ef_saga_id] arg_cong [OF assms, of ef_seq]
  by (simp_all add: receipt_part_def)

lemmas effect_change_sel [simp] = receipt_part_sel [OF receipt_part_change]

lemma opened_effect_sel [simp]: "ef_saga_id (opened_effect ev p) = ev_saga_id ev"
  by (simp add: opened_effect_def empty_effect_def Let_def)

text \<open>The effect an event works on.\<close>

definition effect_events :: "string list" where
  "effect_events =
     [''effect_closed'', ''effect_in_doubt'', ''effect_probed'', ''effect_duplicate_suspected'', ''capture_degraded'',
      ''compensation_unavailable'', ''compensation_planned'', ''compensation_verified'', ''compensation_executed'',
      ''compensation_failed'', ''compensation_skipped'', ''escalation_raised'', ''escalation_resolved'']"

definition touched :: "event \<Rightarrow> string option" where
  "touched ev =
     (let p = as_record (Some (ev_payload ev)) in
      if ev_type ev = ''effect_opened'' then Some (ef_effect_id (opened_effect ev p))
      else if ev_type ev \<in> set effect_events then Some (event_effect_id ev p) else None)"

lemma effect_change_other: "ev_type ev \<notin> set effect_events \<Longrightarrow> effect_change ev p e = e"
  by (simp add: effect_change_def effect_events_def Let_def)

abbreviation payload_of :: "event \<Rightarrow> (string \<times> json) list" where
  "payload_of ev \<equiv> as_record (Some (ev_payload ev))"

text \<open>The effects after an event, by case.\<close>

lemma apply_event_effects:
  "pj_effects (apply_event pf pj ev) =
     (if ev_type ev = ''effect_opened'' then
        AList.update (the (touched ev)) (opened_effect ev (payload_of ev)) (pj_effects pj)
      else case touched ev of None \<Rightarrow> pj_effects pj | Some k \<Rightarrow> on_effect (effect_change ev (payload_of ev)) k (pj_effects pj))"
  by (simp add: apply_event_def touched_def Let_def effect_change_other on_effect_id)

lemma apply_event_sagas:
  "pj_sagas (apply_event pf pj ev) =
     AList.update (ev_saga_id ev) (saga_change ev (payload_of ev) (saga_at pf ev (pj_sagas pj))) (pj_sagas pj)"
  by (simp add: apply_event_def Let_def)

lemma saga_change_sel [simp]:
  "sa_saga_id (saga_change ev p s) = sa_saga_id s" "sa_chain_head (saga_change ev p s) = sa_chain_head s"
  "sa_chain_len (saga_change ev p s) = sa_chain_len s"
  by (simp_all add: saga_change_def Let_def)

lemma saga_change_next_seq: "sa_next_seq s \<le> sa_next_seq (saga_change ev p s)"
  by (simp add: saga_change_def Let_def)

lemma saga_change_opened:
  "ev_type ev = ''effect_opened'' \<Longrightarrow> ef_seq (opened_effect ev p) < sa_next_seq (saga_change ev p s)"
  by (simp add: saga_change_def)

section \<open>The invariant of the projections\<close>

definition projections_ok :: "projections \<Rightarrow> bool" where
  "projections_ok pj \<longleftrightarrow>
     distinct (map fst (pj_sagas pj)) \<and> distinct (map fst (pj_effects pj))
     \<and> (\<forall>k e. map_of (pj_effects pj) k = Some e \<longrightarrow>
          ef_effect_id e = k \<and> (\<exists>s. map_of (pj_sagas pj) (ef_saga_id e) = Some s \<and> ef_seq e < sa_next_seq s))"

lemma distinct_on_effect: "distinct (map fst effs) \<Longrightarrow> distinct (map fst (on_effect f k effs))"
  by (simp add: on_effect_def distinct_update split: option.split)

lemma projections_ok_empty: "projections_ok empty_projections"
  by (simp add: projections_ok_def empty_projections_def)

lemma saga_at_next_seq: "sa_next_seq (saga_at pf ev sagas) = sa_next_seq (orelse (map_of sagas (ev_saga_id ev)) (empty_saga pf ev))"
  by (simp add: saga_at_def Let_def)

lemma apply_event_ok:
  assumes "projections_ok pj"
  shows "projections_ok (apply_event pf pj ev)"
proof -
  let ?pj = "apply_event pf pj ev" and ?new = "saga_change ev (payload_of ev) (saga_at pf ev (pj_sagas pj))"
  have sagas: "map_of (pj_sagas ?pj) = (map_of (pj_sagas pj))(ev_saga_id ev \<mapsto> ?new)"
    by (simp add: apply_event_sagas update_conv')
  have grow: "\<exists>s'. map_of (pj_sagas ?pj) k = Some s' \<and> sa_next_seq s \<le> sa_next_seq s'"
    if "map_of (pj_sagas pj) k = Some s" for k s
    using that saga_change_next_seq [of "saga_at pf ev (pj_sagas pj)" ev "payload_of ev"]
    by (auto simp: sagas saga_at_next_seq)
  have old: "ef_effect_id e = k \<and> (\<exists>s. map_of (pj_sagas ?pj) (ef_saga_id e) = Some s \<and> ef_seq e < sa_next_seq s)"
    if "map_of (pj_effects pj) k = Some e" for k e
    using assms that grow unfolding projections_ok_def by fastforce
  have "ef_effect_id e = k \<and> (\<exists>s. map_of (pj_sagas ?pj) (ef_saga_id e) = Some s \<and> ef_seq e < sa_next_seq s)"
    if e: "map_of (pj_effects ?pj) k = Some e" for k e
  proof (cases "ev_type ev = ''effect_opened''")
    case True
    show ?thesis
    proof (cases "k = the (touched ev)")
      case k: True
      with True e have "e = opened_effect ev (payload_of ev)" "k = ef_effect_id e"
        by (auto simp: apply_event_effects update_conv' touched_def Let_def)
      then show ?thesis using saga_change_opened [OF True] by (simp add: sagas)
    next
      case False
      with True e have "map_of (pj_effects pj) k = Some e" by (simp add: apply_event_effects update_conv')
      then show ?thesis by (rule old)
    qed
  next
    case False
    with e obtain e0 where "map_of (pj_effects pj) k = Some e0" "e = e0 \<or> e = effect_change ev (payload_of ev) e0"
      by (auto simp: apply_event_effects on_effect_map_of split: option.splits if_splits)
    with old [of k e0] show ?thesis by auto
  qed
  with assms show ?thesis
    by (simp add: projections_ok_def distinct_update distinct_on_effect apply_event_sagas apply_event_effects split: option.split)
qed

lemma fold_events_snoc: "fold_events pf (evs @ [ev]) = apply_event pf (fold_events pf evs) ev"
  by (simp add: fold_events_def)

lemma fold_events_Nil [simp]: "fold_events pf [] = empty_projections"
  by (simp add: fold_events_def)

lemma fold_events_ok: "projections_ok (fold_events pf evs)"
  by (induction evs rule: rev_induct) (simp_all add: projections_ok_empty fold_events_snoc apply_event_ok)

definition saga_events :: "string \<Rightarrow> event list \<Rightarrow> event list" where
  "saga_events s evs = filter (\<lambda>ev. ev_saga_id ev = s) evs"

lemma saga_events_snoc: "saga_events s (evs @ [ev]) = (if ev_saga_id ev = s then saga_events s evs @ [ev] else saga_events s evs)"
  by (simp add: saga_events_def)

lemma fold_events_saga:
  "(map_of (pj_sagas (fold_events pf evs)) s = None \<longleftrightarrow> saga_events s evs = []) \<and>
   (\<forall>sa. map_of (pj_sagas (fold_events pf evs)) s = Some sa \<longrightarrow>
      sa_saga_id sa = s \<and> sa_chain_len sa = int (length (saga_events s evs)) \<and> sa_chain_head sa = hash_of (last (saga_events s evs)))"
proof (induction evs rule: rev_induct)
  case Nil
  then show ?case by (simp add: saga_events_def empty_projections_def)
next
  case (snoc ev evs)
  show ?case
  proof (cases "ev_saga_id ev = s")
    case True
    have "sa_chain_len (orelse (map_of (pj_sagas (fold_events pf evs)) s) (empty_saga pf ev)) = int (length (saga_events s evs))"
      "sa_saga_id (orelse (map_of (pj_sagas (fold_events pf evs)) s) (empty_saga pf ev)) = s"
      using snoc True by (cases "map_of (pj_sagas (fold_events pf evs)) s"; simp add: empty_saga_def)+
    with True show ?thesis
      by (auto simp: fold_events_snoc apply_event_sagas update_conv' saga_events_snoc saga_at_def Let_def)
  next
    case False
    with snoc show ?thesis by (simp add: fold_events_snoc apply_event_sagas update_conv' saga_events_snoc)
  qed
qed

section \<open>One saga at a time\<close>

definition saga_effects :: "string \<Rightarrow> (string \<times> effect) list \<Rightarrow> (string \<times> effect) list" where
  "saga_effects s effs = filter (\<lambda>(k, e). ef_saga_id e = s) effs"

lemma saga_effects_simps [simp]:
  "saga_effects s [] = []"
  "saga_effects s ((k, e) # effs) = (if ef_saga_id e = s then (k, e) # saga_effects s effs else saga_effects s effs)"
  by (simp_all add: saga_effects_def)

lemma saga_effects_update:
  assumes "distinct (map fst effs)" "map_of effs k = None \<or> ef_saga_id (the (map_of effs k)) = ef_saga_id e"
  shows "saga_effects s (AList.update k e effs) =
    (if ef_saga_id e = s then AList.update k e (saga_effects s effs) else saga_effects s effs)"
  using assms
proof (induction effs)
  case Nil
  then show ?case by simp
next
  case (Cons ke effs)
  obtain k0 e0 where ke: "ke = (k0, e0)" by (cases ke)
  show ?case
  proof (cases "k0 = k")
    case True
    with Cons.prems ke have "map_of effs k = None" "ef_saga_id e0 = ef_saga_id e"
      by (auto simp: map_of_eq_None_iff)
    then show ?thesis using ke True by simp
  next
    case False
    with Cons ke show ?thesis by (auto simp: map_of_eq_None_iff)
  qed
qed

lemma saga_effects_map_of:
  assumes "distinct (map fst effs)"
  shows "map_of (saga_effects s effs) k = (case map_of effs k of Some e \<Rightarrow> if ef_saga_id e = s then Some e else None | None \<Rightarrow> None)"
  using assms
proof (induction effs)
  case (Cons ke effs)
  obtain k0 e0 where ke: "ke = (k0, e0)" by (cases ke)
  have "map_of (saga_effects s effs) k0 = None" "map_of effs k0 = None"
    using Cons.prems ke by (auto simp: saga_effects_def map_of_eq_None_iff)
  with Cons ke show ?case by auto
qed simp

text \<open>Every effect id is used by the events of one saga only: the one \<open>own\<close> gives.\<close>

definition owned :: "(string \<Rightarrow> string) \<Rightarrow> event list \<Rightarrow> bool" where
  "owned own evs \<longleftrightarrow> list_all (\<lambda>ev. case touched ev of Some k \<Rightarrow> own k = ev_saga_id ev | None \<Rightarrow> True) evs"

lemma owned_simps [simp]:
  "owned own []"
  "owned own (evs @ evs') \<longleftrightarrow> owned own evs \<and> owned own evs'"
  "owned own [ev] \<longleftrightarrow> (\<forall>k. touched ev = Some k \<longrightarrow> own k = ev_saga_id ev)"
  by (auto simp: owned_def split: option.split)

lemma touched_opened: "ev_type ev = ''effect_opened'' \<Longrightarrow> touched ev = Some (ef_effect_id (opened_effect ev (payload_of ev)))"
  by (simp add: touched_def Let_def)

lemma owned_effects:
  assumes "owned own evs" "map_of (pj_effects (fold_events pf evs)) k = Some e"
  shows "ef_saga_id e = own k"
  using assms
proof (induction evs arbitrary: e rule: rev_induct)
  case Nil
  then show ?case by (simp add: empty_projections_def)
next
  case (snoc ev evs)
  show ?case
  proof (cases "ev_type ev = ''effect_opened''")
    case True
    with snoc touched_opened [OF True] show ?thesis
      by (auto simp: fold_events_snoc apply_event_effects update_conv' split: if_splits)
  next
    case False
    with snoc show ?thesis
      by (auto simp: fold_events_snoc apply_event_effects on_effect_map_of split: option.splits if_splits)
  qed
qed

lemma saga_at_cong: "map_of ss (ev_saga_id ev) = map_of ss' (ev_saga_id ev) \<Longrightarrow> saga_at pf ev ss = saga_at pf ev ss'"
  by (simp add: saga_at_def)

lemma fold_saga_step:
  assumes "owned own (evs @ [ev])"
  shows "saga_effects s (pj_effects (fold_events pf (evs @ [ev]))) =
    (if ev_saga_id ev = s
     then (if ev_type ev = ''effect_opened'' then AList.update (the (touched ev)) (opened_effect ev (payload_of ev))
           else case touched ev of None \<Rightarrow> id | Some k \<Rightarrow> on_effect (effect_change ev (payload_of ev)) k)
          (saga_effects s (pj_effects (fold_events pf evs)))
     else saga_effects s (pj_effects (fold_events pf evs)))"
proof -
  let ?effs = "pj_effects (fold_events pf evs)"
  have dist: "distinct (map fst ?effs)" using fold_events_ok by (simp add: projections_ok_def)
  have own: "ef_saga_id e = own k" if "map_of ?effs k = Some e" for k e
    using owned_effects [OF _ that] assms by simp
  show ?thesis
  proof (cases "touched ev")
    case None
    then have "ev_type ev \<noteq> ''effect_opened''" by (auto simp: touched_def Let_def)
    with None show ?thesis by (simp add: fold_events_snoc apply_event_effects)
  next
    case (Some k)
    then have k: "own k = ev_saga_id ev" using assms by simp
    show ?thesis
    proof (cases "ev_type ev = ''effect_opened''")
      case True
      have "map_of ?effs k = None \<or> ef_saga_id (the (map_of ?effs k)) = ef_saga_id (opened_effect ev (payload_of ev))"
        using own k by (cases "map_of ?effs k") auto
      from saga_effects_update [OF dist this] True Some show ?thesis
        by (simp add: fold_events_snoc apply_event_effects)
    next
      case False
      show ?thesis
      proof (cases "map_of ?effs k")
        case None
        then show ?thesis using False Some dist
          by (simp add: fold_events_snoc apply_event_effects on_effect_def saga_effects_map_of)
      next
        case e: (Some e)
        have "ef_saga_id e = ev_saga_id ev" using own [OF e] k by simp
        moreover from this e have "saga_effects s (AList.update k (effect_change ev (payload_of ev) e) ?effs) =
            (if ev_saga_id ev = s then AList.update k (effect_change ev (payload_of ev) e) (saga_effects s ?effs) else saga_effects s ?effs)"
          using saga_effects_update [OF dist, of k "effect_change ev (payload_of ev) e" s] by simp
        ultimately show ?thesis using False Some e dist
          by (simp add: fold_events_snoc apply_event_effects on_effect_def saga_effects_map_of)
      qed
    qed
  qed
qed

lemma fold_saga_local:
  assumes "owned own evs"
  shows "pj_effects (fold_events pf (saga_events s evs)) = saga_effects s (pj_effects (fold_events pf evs))
    \<and> map_of (pj_sagas (fold_events pf (saga_events s evs))) s = map_of (pj_sagas (fold_events pf evs)) s"
  using assms
proof (induction evs rule: rev_induct)
  case Nil
  then show ?case by (simp add: saga_events_def empty_projections_def)
next
  case (snoc ev evs)
  then have ih: "pj_effects (fold_events pf (saga_events s evs)) = saga_effects s (pj_effects (fold_events pf evs))"
      "map_of (pj_sagas (fold_events pf (saga_events s evs))) s = map_of (pj_sagas (fold_events pf evs)) s"
    by simp_all
  note step = fold_saga_step [OF snoc.prems, of s pf]
  show ?case
  proof (cases "ev_saga_id ev = s")
    case True
    then have "saga_at pf ev (pj_sagas (fold_events pf (saga_events s evs))) = saga_at pf ev (pj_sagas (fold_events pf evs))"
      using ih(2) by (intro saga_at_cong) simp
    with True ih(1) step show ?thesis
      by (simp add: fold_events_snoc saga_events_snoc apply_event_effects apply_event_sagas update_conv' split: option.split)
  next
    case False
    with ih step show ?thesis
      by (simp add: fold_events_snoc saga_events_snoc apply_event_sagas update_conv')
  qed
qed

section \<open>Equal projections do not diverge\<close>

lemma field_diffs_refl: "field_diffs en ident fs (Some fs) = []"
  by (auto simp: field_diffs_def zip_same_conv_map Let_def)

lemma diff_projections_same:
  assumes "map_of rs s = map_of ss s"
    and "\<And>k e. (k, e) \<in> set re \<Longrightarrow> ef_saga_id e = s \<Longrightarrow> map_of re (ef_effect_id e) \<noteq> None \<and> map_of se (ef_effect_id e) = map_of re (ef_effect_id e)"
    and "\<And>k e. (k, e) \<in> set se \<Longrightarrow> ef_saga_id e = s \<Longrightarrow> map_of re (ef_effect_id e) \<noteq> None"
  shows "diff_projections rs re ss se s = []"
proof -
  have "(case (map_of rs s, map_of ss s) of
        (Some r, st) \<Rightarrow> field_diffs SagaEntity s (saga_fields r) (map_option saga_fields st)
      | (None, Some st) \<Rightarrow>
          [\<lparr>dv_entity = SagaEntity, dv_id = s, dv_field = ''(extra)'', dv_rebuilt = JNull, dv_stored = snapshot_fields (saga_fields st)\<rparr>]
      | (None, None) \<Rightarrow> []) = []"
    using assms(1) by (auto simp: field_diffs_refl split: option.split)
  moreover have "field_diffs EffectEntity (ef_effect_id e) (effect_fields (the (map_of re (ef_effect_id e))))
      (map_option effect_fields (map_of se (ef_effect_id e))) = []" if "(k, e) \<in> set re" "ef_saga_id e = s" for k e
    using assms(2) [OF that] by (auto simp: field_diffs_refl)
  ultimately show ?thesis
    unfolding diff_projections_def using assms(3) by (fastforce simp: concat_eq_Nil_conv)
qed

section \<open>Properties\<close>


definition sample_typed :: "string \<Rightarrow> string option \<Rightarrow> json \<Rightarrow> event" where
  "sample_typed t eid payload = (sample_event payload)\<lparr>ev_type := t, ev_effect_id := eid, ev_hash := Some ''h''\<rparr>"

definition sample_opened :: event where
  "sample_opened = sample_typed ''effect_opened'' (Some ''e'') (JObj [(''effect_id'', JStr ''e''), (''seq'', JInt 4)])"

lemma sample_opened_effect:
  "map_of (pj_effects (fold_events sample_platform [sample_opened])) ''e'' = Some (opened_effect sample_opened (payload_of sample_opened))"
  by (simp add: fold_events_def apply_event_effects touched_def sample_opened_def sample_typed_def empty_projections_def
      opened_effect_def empty_effect_def as_record_def pstr_def pget_def sample_event_def Let_def)


text \<open>
  An event changes the state and the outcome of an effect, never its receipt: as long as it does not
  open the effect anew, the effect keeps its id, saga, sequence number, action, tier, arguments, intent
  key, pre-image and opening time, and no event removes an effect.
\<close>

theorem event_keeps_receipt:
  assumes "map_of (pj_effects pj) k = Some e" "ev_type ev \<noteq> ''effect_opened'' \<or> touched ev \<noteq> Some k"
  shows "\<exists>e'. map_of (pj_effects (apply_event pf pj ev)) k = Some e' \<and> receipt_part e' = receipt_part e"
  using assms
  by (auto simp: apply_event_effects update_conv' on_effect_map_of receipt_part_change touched_opened split: option.split)

lemma event_keeps_receipt_witness:
  "\<exists>e'. map_of (pj_effects (apply_event sample_platform (fold_events sample_platform [sample_opened])
        (sample_typed ''compensation_failed'' (Some ''e'') JNull))) ''e'' = Some e'
     \<and> receipt_part e' = receipt_part (opened_effect sample_opened (payload_of sample_opened))"
  by (rule event_keeps_receipt [OF sample_opened_effect]) (simp add: sample_typed_def)

text \<open>
  A second \<^verbatim>\<open>effect_closed\<close> event rewrites the sealed part of an effect: the comment on
  \<^verbatim>\<open>applyEventToProjections\<close> says that it never does.
\<close>

lemma sealed_effect_rewritten:
  "\<exists>e1 e2. map_of (pj_effects (fold_events sample_platform
        [sample_opened, sample_typed ''effect_closed'' (Some ''e'') (JObj [(''seal_hash'', JStr ''x'')])])) ''e'' = Some e1
     \<and> ef_sealed e1 = 1 \<and> ef_seal_hash e1 = Some ''x''
     \<and> map_of (pj_effects (fold_events sample_platform
        [sample_opened, sample_typed ''effect_closed'' (Some ''e'') (JObj [(''seal_hash'', JStr ''x'')]),
         sample_typed ''effect_closed'' (Some ''e'') (JObj [(''seal_hash'', JStr ''y'')])])) ''e'' = Some e2
     \<and> ef_sealed e2 = 1 \<and> ef_seal_hash e2 = Some ''y''"
proof -
  have step: "map_of (pj_effects (apply_event sample_platform pj (sample_typed ''effect_closed'' (Some ''e'') (JObj [(''seal_hash'', JStr h)])))) ''e''
      = Some (close_effect (sample_typed ''effect_closed'' (Some ''e'') (JObj [(''seal_hash'', JStr h)])) [(''seal_hash'', JStr h)] e)"
    if "map_of (pj_effects pj) ''e'' = Some e" for pj e h
    using that by (simp add: apply_event_effects touched_def sample_typed_def effect_events_def event_effect_id_def
        on_effect_map_of effect_change_def as_record_def sample_event_def Let_def)
  have seal: "ef_sealed (close_effect ev [(''seal_hash'', JStr h)] e) = 1"
      "ef_seal_hash (close_effect ev [(''seal_hash'', JStr h)] e) = Some h" for ev h e
    by (simp_all add: close_effect_def pget_def Let_def)
  have one: "fold_events pf [a, b] = apply_event pf (fold_events pf [a]) b"
      "fold_events pf [a, b, c] = apply_event pf (apply_event pf (fold_events pf [a]) b) c" for pf a b c
    by (simp_all add: fold_events_def)
  show ?thesis
    unfolding one using step [OF sample_opened_effect] step [OF step [OF sample_opened_effect]] seal by blast
qed

end
