(* ===== verification/Jsonpath.thy ===== *)
theory Jsonpath
  imports Json
begin

text \<open>
  The JSONPath subset of \<^verbatim>\<open>packages/core/src/jsonpath.ts\<close>.  The loop over the index \<^verbatim>\<open>i\<close> is a recursion
  on the text that is left, which the code only reads forward.  \<open>Inl\<close> carries the message of an
  exception, \<open>Inr None\<close> is \<^verbatim>\<open>undefined\<close>.

  \<open>js_index\<close> is \<^verbatim>\<open>Number(key)\<close> where that is a non-negative integer: blanks around, an empty text as
  zero, hexadecimal, octal and binary prefixes, and decimal texts with sign, fraction and exponent.
\<close>

section \<open>Numeric keys\<close>

fun digits_in :: "nat \<Rightarrow> nat \<Rightarrow> string \<Rightarrow> nat option" where
  "digits_in base n [] = Some n"
| "digits_in base n (c # cs) =
     (let l = of_char (lower_char c) :: nat;
          d = (if is_digit c then l - 48 else if is_alpha c then l - 87 else base)
      in if d < base then digits_in base (base * n + d) cs else None)"

definition prefixed_nat :: "nat \<Rightarrow> string \<Rightarrow> nat option" where
  "prefixed_nat base s = (if s = [] then None else digits_in base 0 s)"

text \<open>\<open>m * 10^k\<close> when that is an integer.\<close>

definition scaled_nat :: "nat \<Rightarrow> int \<Rightarrow> nat option" where
  "scaled_nat m k =
     (if m = 0 then Some 0
      else if 0 \<le> k then Some (m * 10 ^ nat k)
      else if 10 ^ nat (- k) dvd m then Some (m div 10 ^ nat (- k)) else None)"

definition js_exponent :: "string \<Rightarrow> int option" where
  "js_exponent s =
     (case s of
        [] \<Rightarrow> Some 0
      | e # r \<Rightarrow>
          if e \<noteq> CHR ''e'' \<and> e \<noteq> CHR ''E'' then None
          else (let neg = (r \<noteq> [] \<and> hd r = CHR ''-'');
                    ds = (if r \<noteq> [] \<and> hd r \<in> {CHR ''-'', CHR ''+''} then tl r else r)
                in if ds \<noteq> [] \<and> list_all is_digit ds
                   then Some (if neg then - int (read_nat ds) else int (read_nat ds)) else None))"

definition decimal_nat :: "string \<Rightarrow> nat option" where
  "decimal_nat s =
     (let neg = (s \<noteq> [] \<and> hd s = CHR ''-'');
          t = (if s \<noteq> [] \<and> hd s \<in> {CHR ''-'', CHR ''+''} then tl s else s);
          ip = takeWhile is_digit t;
          r = dropWhile is_digit t;
          fp = (if r \<noteq> [] \<and> hd r = CHR ''.'' then takeWhile is_digit (tl r) else []);
          q = (if r \<noteq> [] \<and> hd r = CHR ''.'' then dropWhile is_digit (tl r) else r)
      in if ip @ fp = [] then None
         else case js_exponent q of
           None \<Rightarrow> None
         | Some e \<Rightarrow>
             (case scaled_nat (read_nat (ip @ fp)) (e - int (length fp)) of
                Some n \<Rightarrow> if neg \<and> n \<noteq> 0 then None else Some n
              | None \<Rightarrow> None))"

definition js_index :: "string \<Rightarrow> nat option" where
  "js_index key =
     (let s = js_trim key; p = to_lower (take 2 s)
      in if s = [] then Some 0
         else if p = ''0x'' then prefixed_nat 16 (drop 2 s)
         else if p = ''0o'' then prefixed_nat 8 (drop 2 s)
         else if p = ''0b'' then prefixed_nat 2 (drop 2 s)
         else decimal_nat s)"

section \<open>Evaluation\<close>

fun from_key :: "json \<Rightarrow> string \<Rightarrow> json option" where
  "from_key (JArr vs) key = (case js_index key of Some n \<Rightarrow> nth_opt vs n | None \<Rightarrow> None)"
| "from_key (JObj kvs) key = map_of kvs key"
| "from_key _ key = None"

definition is_quote :: "char \<Rightarrow> bool" where
  "is_quote c \<longleftrightarrow> c = CHR 0x27 \<or> c = CHR 0x22"

definition plain_char :: "char \<Rightarrow> bool" where
  "plain_char c \<longleftrightarrow> c \<noteq> CHR ''.'' \<and> c \<noteq> CHR ''[''"

text \<open>The key of a bracket: quoted text or decimal digits.\<close>

definition bracket_key :: "string \<Rightarrow> string + string" where
  "bracket_key raw =
     (if raw \<noteq> [] \<and> is_quote (hd raw) then Inr (butlast (tl raw))
      else if raw \<noteq> [] \<and> list_all is_digit raw then Inr raw
      else Inl ''JSONPath filter expressions are not supported'')"

function path_loop :: "string \<Rightarrow> json option \<Rightarrow> string + json option" where
  "path_loop p None = Inr None"
| "path_loop [] (Some cur) = Inr (Some cur)"
| "path_loop (c # r) (Some cur) =
     (if c = CHR ''.'' then path_loop r (Some cur)
      else if c = CHR ''['' then
        (if CHR '']'' \<notin> set r then Inl ''unclosed JSONPath bracket''
         else case bracket_key (js_trim (takeWhile (\<lambda>x. x \<noteq> CHR '']'') r)) of
           Inl e \<Rightarrow> Inl e
         | Inr key \<Rightarrow> path_loop (tl (dropWhile (\<lambda>x. x \<noteq> CHR '']'') r)) (from_key cur key))
      else if c = CHR ''?'' then Inl ''JSONPath filters and recursive descent are not supported''
      else path_loop (dropWhile plain_char (c # r)) (from_key cur (takeWhile plain_char (c # r))))"
  by pat_completeness auto
termination
proof (relation "measure (\<lambda>(p, _). length p)", goal_cases)
  case (3 c r cur x2)
  have "length (tl (dropWhile (\<lambda>x. x \<noteq> CHR '']'') r)) \<le> length r"
    by (metis diff_le_self dual_order.trans length_dropWhile_le length_tl)
  then show ?case by simp
next
  case (4 c r cur)
  then have "plain_char c" by (simp add: plain_char_def)
  then show ?case using length_dropWhile_le [of plain_char r] by (simp add: le_imp_less_Suc)
qed auto

definition eval_json_path :: "json option \<Rightarrow> string \<Rightarrow> string + json option" where
  "eval_json_path root path =
     (case root of
        None \<Rightarrow> Inr None
      | Some v \<Rightarrow>
          (let p = js_trim path
           in if starts_with p ''$.'' then path_loop (drop 2 p) (Some v)
              else if p = ''$'' then Inr (Some v)
              else if starts_with p ''$['' then path_loop (drop 1 p) (Some v)
              else if starts_with p ''$'' then path_loop (drop 1 p) (Some v)
              else path_loop p (Some v)))"

section \<open>Properties\<close>

text \<open>The member reached by following keys.\<close>

fun walk_keys :: "json option \<Rightarrow> string list \<Rightarrow> json option" where
  "walk_keys v [] = v"
| "walk_keys None ks = None"
| "walk_keys (Some v) (k # ks) = walk_keys (from_key v k) ks"

lemma walk_keys_None [simp]: "walk_keys None ks = None"
  by (cases ks) simp_all

definition simple_key :: "string \<Rightarrow> bool" where
  "simple_key k \<longleftrightarrow> k \<noteq> [] \<and> list_all plain_char k \<and> hd k \<noteq> CHR ''?'' \<and> list_all (\<lambda>c. \<not> is_space c) k"

lemma simple_key_head:
  assumes "simple_key k" "r = [] \<or> hd r = CHR ''.'' \<or> hd r = CHR ''[''"
  shows "path_loop (k @ r) (Some v) = path_loop r (from_key v k)"
proof -
  obtain c cs where k: "k = c # cs" using assms(1) by (cases k) (auto simp: simple_key_def)
  have all: "\<forall>x \<in> set k. plain_char x" and c: "c \<noteq> CHR ''?'' " "plain_char c"
    using assms(1) k by (auto simp: simple_key_def list_all_iff)
  have r: "dropWhile plain_char r = r" "takeWhile plain_char r = []"
    using assms(2) by (cases r; auto simp: plain_char_def)+
  have "dropWhile plain_char (k @ r) = r" "takeWhile plain_char (k @ r) = k"
    using all r by (simp_all add: dropWhile_append takeWhile_append)
  with k c show ?thesis by (simp add: plain_char_def)
qed

lemma path_loop_None [simp]: "path_loop p None = Inr None"
  by simp

lemma path_loop_join:
  "ks \<noteq> [] \<Longrightarrow> list_all simple_key ks \<Longrightarrow> path_loop (js_join ''.'' ks) (Some v) = Inr (walk_keys (Some v) ks)"
proof (induction ks arbitrary: v)
  case Nil
  then show ?case by simp
next
  case (Cons k ks)
  show ?case
  proof (cases "ks = []")
    case True
    with Cons.prems simple_key_head [of k "[]" v] show ?thesis by (cases "from_key v k") simp_all
  next
    case False
    then have "path_loop (js_join ''.'' (k # ks)) (Some v)
        = path_loop (CHR ''.'' # js_join ''.'' ks) (from_key v k)"
      using Cons.prems simple_key_head [of k "CHR ''.'' # js_join ''.'' ks" v] by (simp add: js_join_Cons)
    with Cons False show ?thesis by (cases "from_key v k") simp_all
  qed
qed

lemma js_trim_id: "s = [] \<or> (\<not> is_space (hd s) \<and> \<not> is_space (last s)) \<Longrightarrow> js_trim s = s"
proof (cases "s = []")
  case False
  assume "s = [] \<or> (\<not> is_space (hd s) \<and> \<not> is_space (last s))"
  with False have "dropWhile is_space s = s" "dropWhile is_space (rev s) = rev s"
    by (simp_all add: dropWhile_eq_self_iff hd_rev)
  then show ?thesis by (simp add: js_trim_def)
qed (simp add: js_trim_def)

lemma join_last: "ks \<noteq> [] \<Longrightarrow> \<forall>k \<in> set ks. k \<noteq> [] \<Longrightarrow> js_join sep ks \<noteq> [] \<and> last (js_join sep ks) = last (last ks)"
proof (induction ks)
  case (Cons k ks)
  then show ?case by (cases "ks = []") (auto simp: js_join_Cons)
qed simp

text \<open>
  A dotted path \<^verbatim>\<open>$.k1.k2...\<close> over keys without dots, brackets and blanks reaches exactly the
  member that following the keys reaches (array indices included), and never throws.
\<close>

theorem eval_json_path_dotted:
  assumes "ks \<noteq> []" "list_all simple_key ks"
  shows "eval_json_path (Some v) (''$.'' @ js_join ''.'' ks) = Inr (walk_keys (Some v) ks)"
proof -
  have ne: "\<forall>k \<in> set ks. k \<noteq> []" and "simple_key (last ks)"
    using assms by (auto simp: list_all_iff simple_key_def)
  then have sp: "\<not> is_space (last (last ks))" by (auto simp: list_all_iff simple_key_def)
  have "\<not> is_space (CHR ''$'')" by code_simp
  with join_last [OF assms(1) ne, of "''.''"] sp
  have "js_trim (''$.'' @ js_join ''.'' ks) = ''$.'' @ js_join ''.'' ks"
    by (intro js_trim_id) simp
  with assms show ?thesis by (simp add: eval_json_path_def path_loop_join)
qed

theorem eval_json_path_dotted_witness:
  "eval_json_path (Some (JObj [(''a'', JArr [JNull, JObj [(''b'', JInt 5)]])])) (''$.'' @ js_join ''.'' [''a'', ''1'', ''b''])
   = Inr (Some (JInt 5))"
proof -
  have "list_all simple_key [''a'', ''1'', ''b'']" by code_simp
  moreover have "walk_keys (Some (JObj [(''a'', JArr [JNull, JObj [(''b'', JInt 5)]])])) [''a'', ''1'', ''b''] = Some (JInt 5)"
    by code_simp
  ultimately show ?thesis
    using eval_json_path_dotted [of "[''a'', ''1'', ''b'']"] by simp
qed

end
