(* ===== verification/Resource.thy ===== *)
theory Resource
  imports Types
begin

text \<open>
  Resource keys and action names: \<^verbatim>\<open>packages/core/src/resource.ts\<close>.  Setting a component of a URL
  object is an update of its field; the search parameters are its list of pairs.
\<close>

section \<open>URLs\<close>

record norm_url =
  nu_host :: string
  nu_path :: string
  nu_href :: string

definition default_port :: "url \<Rightarrow> bool" where
  "default_port u \<longleftrightarrow> (u_protocol u = ''https:'' \<and> u_port u = ''443'')
     \<or> (u_protocol u = ''http:'' \<and> u_port u = ''80'')"

definition normalize_http_url :: "platform \<Rightarrow> string \<Rightarrow> norm_url option" where
  "normalize_http_url pf s =
     (case pf_url pf s None of
        None \<Rightarrow> None
      | Some u0 \<Rightarrow>
          (let u1 = u0\<lparr>u_hash := [], u_hostname := to_lower (u_hostname u0)\<rparr>;
               u2 = (if default_port u1 then u1\<lparr>u_port := []\<rparr> else u1);
               resolved = resolve_segments (js_split CHR ''/'' (u_pathname u2));
               u3 = u2\<lparr>u_pathname := ''/'' @ js_join ''/'' resolved, u_search := sort_key fst (u_search u2)\<rparr>
           in Some \<lparr>nu_host = u_hostname u3, nu_path = u_pathname u3, nu_href = pf_href pf u3\<rparr>))"

section \<open>Keys\<close>

text \<open>The \<^verbatim>\<open>str\<close> of this module: other values than strings and null by \<^verbatim>\<open>String\<close>.\<close>

definition str_any :: "json option \<Rightarrow> string option" where
  "str_any v = (case v of
      None \<Rightarrow> None | Some JNull \<Rightarrow> None | Some (JStr s) \<Rightarrow> Some s | Some w \<Rightarrow> Some (js_string w))"

definition nonempty :: "string option \<Rightarrow> bool" where
  "nonempty s \<longleftrightarrow> (case s of Some (_ # _) \<Rightarrow> True | _ \<Rightarrow> False)"

record key_input =
  ki_action :: action_ref
  ki_bindings :: "(string \<times> json) list"
  ki_args :: "json option"
  ki_headers :: "(string \<times> string) list option"
  ki_dialect :: "string option"
  ki_db :: "string option"
  ki_table :: "string option"
  ki_pk :: "(string \<times> string) list option"
  ki_realpath :: "string option"
  ki_mcp_server :: "string option"
  ki_mcp_tool :: "string option"
  ki_primary_binding :: "string option"

definition header_location :: "(string \<times> string) list option \<Rightarrow> string option" where
  "header_location hs =
     (case hs of None \<Rightarrow> None
      | Some kvs \<Rightarrow> if nonempty (map_of kvs ''Location'') then map_of kvs ''Location'' else map_of kvs ''location'')"

definition http_keys :: "platform \<Rightarrow> key_input \<Rightarrow> string list" where
  "http_keys pf x =
     (let rec = as_record (ki_args x);
          loc = orelse_opt (str_any (map_of (ki_bindings x) ''resource_url'')) (header_location (ki_headers x));
          arg_url = str_any (map_of rec ''url'');
          url = (if nonempty loc
                 then (case pf_url pf (the loc) (Some (orelse arg_url ''https://placeholder.invalid'')) of
                         Some u \<Rightarrow> Some (pf_href pf u) | None \<Rightarrow> loc)
                 else arg_url)
      in if nonempty url then
           [case normalize_http_url pf (the url) of
              Some n \<Rightarrow> ''http:'' @ nu_host n @ '':'' @ nu_path n
            | None \<Rightarrow> ''http:'' @ orelse (ac_target (ki_action x)) ''unknown'' @ '':'' @ the url]
         else [])"

definition set_key :: "string \<Rightarrow> 'a \<Rightarrow> (string \<times> 'a) list \<Rightarrow> (string \<times> 'a) list" where
  "set_key k v kvs = AList.update k v kvs"

definition sql_pk :: "key_input \<Rightarrow> (string \<times> string) list" where
  "sql_pk x =
     (let pk = orelse (ki_pk x) []; b = ki_bindings x
      in if pk = [] then
           (let pk1 = (if nullish (map_of b ''pk'') then pk else set_key ''id'' (js_string (the (map_of b ''pk''))) pk)
            in if nullish (map_of b ''id'') then pk1
               else set_key ''id'' (js_string (the (map_of b ''id''))) pk1)
         else pk)"

definition sql_keys :: "key_input \<Rightarrow> string list" where
  "sql_keys x =
     (let rec = as_record (ki_args x);
          dialect = orelse (orelse_opt (ki_dialect x) (str_any (map_of rec ''dialect''))) ''unknown'';
          db = orelse (orelse_opt (ki_db x) (ac_target (ki_action x))) ''app'';
          table = orelse (orelse_opt (ki_table x) (str_any (map_of rec ''table''))) ''unknown'';
          pk_part = js_join '','' (map (\<lambda>(k, v). k @ ''='' @ v) (sort_key fst (sql_pk x)));
          base = ''sql:'' @ dialect @ '':'' @ db @ '':'' @ table
      in [if pk_part \<noteq> [] then base @ '':'' @ pk_part else base])"

definition fs_keys :: "key_input \<Rightarrow> string list" where
  "fs_keys x =
     (let rec = as_record (ki_args x);
          path = orelse (orelse_opt (ki_realpath x) (orelse_opt (str_any (map_of rec ''realpath''))
            (orelse_opt (str_any (map_of rec ''path'')) (ac_target (ki_action x))))) [];
          from_p = str_any (map_of rec ''from'');
          to_p = str_any (map_of rec ''to'')
      in (if path \<noteq> [] then [''fs:'' @ path] else [])
         @ (if nonempty from_p \<and> from_p \<noteq> Some path then [''fs:'' @ the from_p] else [])
         @ (if nonempty to_p \<and> to_p \<noteq> Some path \<and> to_p \<noteq> from_p then [''fs:'' @ the to_p] else []))"

definition mcp_keys :: "key_input \<Rightarrow> string list" where
  "mcp_keys x =
     (let b = ki_bindings x;
          server = orelse (orelse_opt (ki_mcp_server x) (ac_target (ki_action x))) ''unknown'';
          tool = orelse (ki_mcp_tool x) (last (js_split CHR ''.'' (ac_name (ki_action x))));
          primary = orelse (orelse_opt (ki_primary_binding x) (orelse_opt (str_any (map_of b ''ts''))
            (orelse_opt (str_any (map_of b ''id'')) (str_any (map_of b ''message_id''))))) ''unknown''
      in [''mcp:'' @ server @ '':'' @ tool @ '':'' @ primary])"

definition resource_keys :: "platform \<Rightarrow> key_input \<Rightarrow> string list" where
  "resource_keys pf x =
     (case ac_kind (ki_action x) of
        AHttp \<Rightarrow> http_keys pf x
      | ASql \<Rightarrow> sql_keys x
      | AFs \<Rightarrow> fs_keys x
      | AMcpTool \<Rightarrow> mcp_keys x
      | _ \<Rightarrow> [])"

record name_extras =
  ne_method :: "string option"
  ne_host :: "string option"
  ne_path :: "string option"
  ne_sql_kind :: "string option"
  ne_db :: "string option"
  ne_table :: "string option"
  ne_op :: "string option"
  ne_realpath :: "string option"
  ne_server :: "string option"
  ne_tool :: "string option"
  ne_module :: "string option"
  ne_fn :: "string option"
  ne_argv0 :: "string option"

definition action_name :: "action_ref \<Rightarrow> name_extras \<Rightarrow> string" where
  "action_name a x =
     (if ac_name a \<noteq> [] \<and> \<not> ends_with (ac_name a) ''.'' then ac_name a
      else case ac_kind a of
        AHttp \<Rightarrow> ''http.'' @ orelse (ne_method x) ''GET'' @ ''.'' @ orelse (orelse_opt (ne_host x) (ac_target a)) ''unknown''
                  @ orelse (ne_path x) []
      | ASql \<Rightarrow> ''sql.'' @ orelse (ne_sql_kind x) ''UNKNOWN'' @ ''.'' @ orelse (ne_db x) ''app'' @ ''.'' @ orelse (ne_table x) ''t''
      | AFs \<Rightarrow> ''fs.'' @ orelse (ne_op x) ''write'' @ ''.'' @ orelse (orelse_opt (ne_realpath x) (ac_target a)) []
      | AMcpTool \<Rightarrow> ''mcp.'' @ orelse (ne_server x) ''server'' @ ''.'' @ orelse (ne_tool x) ''tool''
      | ASdkFn \<Rightarrow> ''sdk.'' @ orelse (ne_module x) ''mod'' @ ''.'' @ orelse (ne_fn x) ''fn''
      | AShell \<Rightarrow> ''shell.'' @ orelse (ne_argv0 x) ''sh'')"

section \<open>Normalised paths\<close>

text \<open>
  The path of a normalised URL is absolute and has no empty, dot or dot-dot segment, so a
  comparison of such paths cannot be led out of a resource by relative segments.
\<close>

theorem normalized_path_clean:
  assumes "normalize_http_url pf s = Some n"
  shows "\<exists>segs. nu_path n = ''/'' @ js_join ''/'' segs
    \<and> (\<forall>x \<in> set segs. x \<notin> {[], ''.'', ''..''} \<and> CHR ''/'' \<notin> set x)"
proof -
  from assms have "\<exists>p. nu_path n = ''/'' @ js_join ''/'' (resolve_segments (js_split CHR ''/'' p))"
    unfolding normalize_http_url_def Let_def
    by (cases "pf_url pf s None") (simp, simp only: option.case option.inject, drule sym, simp, rule exI, rule refl)
  then obtain p where path: "nu_path n = ''/'' @ js_join ''/'' (resolve_segments (js_split CHR ''/'' p))" ..
  have "\<forall>x \<in> set (resolve_segments (js_split CHR ''/'' p)).
      x \<notin> {[], ''.'', ''..''} \<and> CHR ''/'' \<notin> set x"
    using set_resolve_segments js_split_no_sep by fastforce
  with path show ?thesis by blast
qed

theorem normalized_path_clean_witness:
  "\<exists>segs. ''/a/c'' = ''/'' @ js_join ''/'' segs \<and> ''..'' \<notin> set segs"
proof -
  have "map_option nu_path (normalize_http_url sample_platform ''https://H/a/b/.././c/'') = Some ''/a/c''"
    by code_simp
  then obtain n where n: "normalize_http_url sample_platform ''https://H/a/b/.././c/'' = Some n" "nu_path n = ''/a/c''"
    by auto
  from normalized_path_clean [OF n(1)] obtain segs where s: "nu_path n = ''/'' @ js_join ''/'' segs"
    "\<forall>x \<in> set segs. x \<notin> {[], ''.'', ''..''} \<and> CHR ''/'' \<notin> set x"
    by blast
  then have "''..'' \<notin> set segs" by blast
  with s(1) n(2) show ?thesis by metis
qed

end
