(* ===== verification/Matching.thy ===== *)
theory Matching
  imports Jsonpath Resource "HOL-Library.Product_Lexorder"
begin

text \<open>
  Deterministic compensator matching: \<^verbatim>\<open>packages/core/src/match.ts\<close>.  The patterns the code writes as
  regular expressions are functions on the text; a glob is compiled to tokens as the code compiles it to
  a regular expression.  The comparator of the sort is the lexicographic order on its keys.
\<close>

section \<open>Names\<close>

text \<open>\<^verbatim>\<open>/^<prefix>([A-Z]+)\./\<close>: the upper-case word after the prefix, with the text after its dot.\<close>

definition upper_word :: "string \<Rightarrow> string \<Rightarrow> (string \<times> string) option" where
  "upper_word pre name =
     (let t = drop (length pre) name; w = takeWhile is_upper_alpha t; r = dropWhile is_upper_alpha t
      in if starts_with name pre \<and> w \<noteq> [] \<and> r \<noteq> [] \<and> hd r = CHR ''.'' then Some (w, tl r) else None)"

definition method_from_name :: "string \<Rightarrow> string option" where
  "method_from_name name = map_option fst (upper_word ''http.'' name)"

definition sql_kind_from_name :: "string \<Rightarrow> string option" where
  "sql_kind_from_name name = map_option fst (upper_word ''sql.'' name)"

text \<open>\<^verbatim>\<open>/^[^.]+\.(.+)$/\<close>: the text after the first segment.\<close>

definition line_end :: "char \<Rightarrow> bool" where
  "line_end c \<longleftrightarrow> c = CHR 0x0A \<or> c = CHR 0x0D"

definition after_segment :: "string \<Rightarrow> string option" where
  "after_segment t =
     (let w = takeWhile (\<lambda>c. c \<noteq> CHR ''.'') t; r = dropWhile (\<lambda>c. c \<noteq> CHR ''.'') t
      in if w \<noteq> [] \<and> length r > 1 \<and> list_all (\<lambda>c. \<not> line_end c) (tl r) then Some (tl r) else None)"

definition table_from_name :: "string \<Rightarrow> string option" where
  "table_from_name name =
     (case upper_word ''sql.'' name of Some (_, r) \<Rightarrow> after_segment r | None \<Rightarrow> None)"

definition fs_op_from_name :: "string \<Rightarrow> string option" where
  "fs_op_from_name name =
     (let t = drop 3 name; w = takeWhile (\<lambda>c. c \<noteq> CHR ''.'') t
      in if starts_with name ''fs.'' \<and> w \<noteq> [] \<and> length w < length t then Some w else None)"

definition mcp_tool_from_name :: "string \<Rightarrow> string option" where
  "mcp_tool_from_name name = (if starts_with name ''mcp.'' then after_segment (drop 4 name) else None)"

definition sdk_parts :: "string \<Rightarrow> string \<times> string" where
  "sdk_parts name =
     (let rest = (if starts_with name ''sdk.'' then drop 4 name else name)
      in case last_index CHR ''.'' rest of None \<Rightarrow> (rest, []) | Some i \<Rightarrow> (take i rest, drop (Suc i) rest))"

section \<open>Patterns\<close>

definition one_of :: "one_or_many \<Rightarrow> string \<Rightarrow> bool" where
  "one_of want got = (case want of One w \<Rightarrow> w = got | Many ws \<Rightarrow> got \<in> set ws)"

text \<open>\<^verbatim>\<open>/^\{[^}]+\}$/\<close>.\<close>

definition is_param :: "string \<Rightarrow> bool" where
  "is_param s \<longleftrightarrow> length s > 2 \<and> hd s = CHR ''{'' \<and> last s = CHR ''}'' \<and> CHR ''}'' \<notin> set (butlast (tl s))"

definition is_wildcard_host :: "string \<Rightarrow> bool" where
  "is_wildcard_host h \<longleftrightarrow> h = ''*'' \<or> h = ''**'' \<or> is_param h"

record url_pattern =
  up_scheme :: string
  up_host :: string
  up_segments :: "string list"

definition pattern_scheme :: "string \<Rightarrow> (string \<times> string) option" where
  "pattern_scheme s =
     (let l = to_lower s
      in if starts_with l ''https://'' then Some (''https'', drop 8 s)
         else if starts_with l ''http://'' then Some (''http'', drop 7 s)
         else if starts_with l ''*://'' then Some (''*'', drop 4 s) else None)"

definition split_url_pattern :: "string \<Rightarrow> url_pattern option" where
  "split_url_pattern pat =
     (case pattern_scheme (js_trim pat) of
        None \<Rightarrow> None
      | Some (scheme, rest) \<Rightarrow>
          (let hostpart = takeWhile (\<lambda>c. c \<notin> set ''/?#'') rest;
               pathpart = takeWhile (\<lambda>c. c \<notin> set ''?#'') (dropWhile (\<lambda>c. c \<notin> set ''/?#'') rest);
               h0 = to_lower hostpart;
               h1 = (if ends_with h0 '':443'' \<and> scheme = ''https'' then take (length h0 - 4) h0 else h0);
               h2 = (if ends_with h1 '':80'' \<and> scheme = ''http'' then take (length h1 - 3) h1 else h1);
               path = (if pathpart \<noteq> [] then pathpart else ''/'')
           in if hostpart = [] then None
              else Some \<lparr>up_scheme = scheme, up_host = h2, up_segments = resolve_segments (js_split CHR ''/'' path)\<rparr>))"

fun match_segments :: "string list \<Rightarrow> string list \<Rightarrow> bool" where
  "match_segments [] obs = (obs = [])"
| "match_segments (seg # ps) obs =
     (if seg = ''**'' then ps = []
      else case obs of
        [] \<Rightarrow> False
      | got # os \<Rightarrow>
          if is_param seg then got \<noteq> [] \<and> match_segments ps os
          else seg = got \<and> match_segments ps os)"

definition match_path_pattern :: "string list \<Rightarrow> string \<Rightarrow> bool" where
  "match_path_pattern segs path = match_segments segs (filter (\<lambda>p. p \<noteq> []) (js_split CHR ''/'' path))"

text \<open>The serialisation of a parsed URL parses again, so the inner parse does not fail.\<close>

definition scheme_of_href :: "platform \<Rightarrow> string \<Rightarrow> string" where
  "scheme_of_href pf href =
     (case pf_url pf href None of
        Some u \<Rightarrow> (takeWhile (\<lambda>c. c \<noteq> CHR '':'') (u_protocol u)) @ drop 1 (dropWhile (\<lambda>c. c \<noteq> CHR '':'') (u_protocol u))
      | None \<Rightarrow> [])"

definition match_http_url :: "platform \<Rightarrow> string \<Rightarrow> string \<Rightarrow> bool" where
  "match_http_url pf pat observed =
     (if pat = ''*'' \<or> pat = ''**'' \<or> pat = ''*://*/**'' then True
      else case normalize_http_url pf observed of
        None \<Rightarrow> False
      | Some obs \<Rightarrow>
          (case split_url_pattern pat of
             None \<Rightarrow> False
           | Some p \<Rightarrow>
               if up_scheme p \<noteq> [] \<and> up_scheme p \<noteq> ''*'' \<and> up_scheme p \<noteq> scheme_of_href pf (nu_href obs) then False
               else if up_host p \<noteq> [] \<and> \<not> is_wildcard_host (up_host p) \<and> up_host p \<noteq> nu_host obs then False
               else match_path_pattern (up_segments p) (nu_path obs)))"

datatype glob_token = AnyText | SegText | SegChar | Lit char

fun glob_tokens :: "string \<Rightarrow> glob_token list" where
  "glob_tokens [] = []"
| "glob_tokens (c # r) =
     (if c = CHR ''*'' then
        (case r of
           d # r' \<Rightarrow>
             if d = CHR ''*'' then
               AnyText # (case r' of e # r'' \<Rightarrow> if e = CHR ''/'' then glob_tokens r'' else glob_tokens (e # r'') | [] \<Rightarrow> [])
             else SegText # glob_tokens (d # r')
         | [] \<Rightarrow> [SegText])
      else if c = CHR ''?'' then SegChar # glob_tokens r
      else Lit c # glob_tokens r)"

text \<open>The language of the compiled expression: \<^verbatim>\<open>.*\<close>, \<^verbatim>\<open>[^/]*\<close>, \<^verbatim>\<open>[^/]\<close> and characters.\<close>

fun tokens_match :: "glob_token list \<Rightarrow> string \<Rightarrow> bool" where
  "tokens_match [] s = (s = [])"
| "tokens_match (Lit c # ts) [] = False"
| "tokens_match (Lit c # ts) (x # s) = (x = c \<and> tokens_match ts s)"
| "tokens_match (SegChar # ts) [] = False"
| "tokens_match (SegChar # ts) (x # s) = (x \<noteq> CHR ''/'' \<and> tokens_match ts s)"
| "tokens_match (SegText # ts) [] = tokens_match ts []"
| "tokens_match (SegText # ts) (x # s) =
     (tokens_match ts (x # s) \<or> (x \<noteq> CHR ''/'' \<and> tokens_match (SegText # ts) s))"
| "tokens_match (AnyText # ts) [] = tokens_match ts []"
| "tokens_match (AnyText # ts) (x # s) =
     (tokens_match ts (x # s) \<or> (\<not> line_end x \<and> tokens_match (AnyText # ts) s))"

definition glob_match :: "string \<Rightarrow> string \<Rightarrow> bool" where
  "glob_match glob path = (glob = ''**'' \<or> glob = ''**/**'' \<or> tokens_match (glob_tokens glob) path)"

fun match_argv :: "string list \<Rightarrow> string list \<Rightarrow> bool" where
  "match_argv [] [] = True"
| "match_argv (t # ts) (a # as) = ((t = ''{}'' \<or> t = a) \<and> match_argv ts as)"
| "match_argv _ _ = False"

definition version_match :: "string \<Rightarrow> string \<Rightarrow> bool" where
  "version_match pat observed =
     (let s0 = dropWhile (\<lambda>c. c \<in> set ''^~>=<'' \<or> is_space c) pat;
          stripped = (if ends_with s0 ''.x'' \<or> ends_with s0 ''.*'' then take (length s0 - 2) s0 else s0);
          major = takeWhile (\<lambda>c. c \<noteq> CHR ''.'') stripped
      in pat = observed \<or> observed = stripped \<or> starts_with observed stripped \<or> starts_with stripped observed
         \<or> (major \<noteq> [] \<and> takeWhile (\<lambda>c. c \<noteq> CHR ''.'') observed = major \<and> list_ex (\<lambda>c. c \<in> set ''^~>=*'') pat))"

definition quoted_by :: "char \<Rightarrow> char \<Rightarrow> string \<Rightarrow> bool" where
  "quoted_by a b t \<longleftrightarrow> t \<noteq> [] \<and> hd t = a \<and> last t = b"

definition fold_table :: "string \<Rightarrow> string" where
  "fold_table table =
     (let t0 = js_trim table;
          t1 = (if quoted_by CHR 0x22 CHR 0x22 t0 \<or> quoted_by CHR 0x60 CHR 0x60 t0 \<or> quoted_by CHR ''['' CHR '']'' t0
                then butlast (tl t0) else t0);
          t2 = (if CHR ''.'' \<in> set t1 then
                  (let p = last (js_split CHR ''.'' t1)
                   in if quoted_by CHR 0x22 CHR 0x22 p \<or> quoted_by CHR 0x60 CHR 0x60 p then butlast (tl p) else p)
                else t1)
      in to_lower t2)"

section \<open>Predicates of a signature\<close>

definition kind_eligible :: "matcher \<Rightarrow> action_kind \<Rightarrow> bool" where
  "kind_eligible m k =
     (case m of
        MStar \<Rightarrow> True | MMcpTool _ _ \<Rightarrow> k = AMcpTool | MSdkFn _ _ \<Rightarrow> k = ASdkFn | MHttp _ _ \<Rightarrow> k = AHttp
      | MSql _ _ _ \<Rightarrow> k = ASql | MFs _ _ \<Rightarrow> k = AFs | MShell _ \<Rightarrow> k = AShell)"

definition string_array :: "json option \<Rightarrow> string list option" where
  "string_array v = (case v of Some (JArr vs) \<Rightarrow> those (map (\<lambda>x. str_of (Some x)) vs) | _ \<Rightarrow> None)"

definition kind_predicate :: "platform \<Rightarrow> matcher \<Rightarrow> action_ref \<Rightarrow> json \<Rightarrow> bool" where
  "kind_predicate pf m a args =
     (let rec = as_record (Some args); field = (\<lambda>k. str_of (map_of rec k))
      in case m of
        MStar \<Rightarrow> True
      | MHttp methods pat \<Rightarrow>
          (let verb = to_upper (orelse (orelse_opt (field ''method'') (method_from_name (ac_name a))) []);
               addr = orelse (orelse_opt (field ''url'') (ac_target a)) []
           in one_of methods verb \<and> addr \<noteq> [] \<and> match_http_url pf pat addr)
      | MSql statements table dialect \<Rightarrow>
          (let stmt = to_upper (orelse (orelse_opt (field ''statement'') (sql_kind_from_name (ac_name a))) []);
               got = fold_table (orelse (orelse_opt (field ''table'') (table_from_name (ac_name a))) []);
               want = fold_table table
           in one_of statements stmt \<and> (want = ''*'' \<or> got = want)
              \<and> (\<not> nonempty dialect \<or> orelse (field ''dialect'') ''unknown'' = the dialect))
      | MFs ops glob \<Rightarrow>
          (let opn = orelse (orelse_opt (field ''op'') (fs_op_from_name (ac_name a))) [];
               real = orelse (orelse_opt (field ''realpath'') (orelse_opt (field ''path'') (ac_target a))) []
           in one_of ops opn \<and> glob_match glob real)
      | MMcpTool tool version \<Rightarrow>
          (let got = orelse (orelse_opt (field ''tool'') (mcp_tool_from_name (ac_name a))) [];
               observed = orelse_opt (field ''version'') (ac_version a)
           in got = tool \<and> (\<not> nonempty version \<or> (nonempty observed \<and> version_match (the version) (the observed))))
      | MSdkFn module fname \<Rightarrow>
          orelse (field ''module'') (fst (sdk_parts (ac_name a))) = module
          \<and> orelse (field ''fn'') (snd (sdk_parts (ac_name a))) = fname
      | MShell template \<Rightarrow>
          (case orelse_opt (string_array (map_of rec ''argv''))
                  (if nonempty (field ''command'') then Some [the (field ''command'')] else None) of
             None \<Rightarrow> False
           | Some argv \<Rightarrow> match_argv template argv))"

definition result_status :: "json option \<Rightarrow> json option" where
  "result_status result =
     (case result of
        Some v \<Rightarrow>
          if is_number v then Some v
          else (let rec = as_record result;
                    s = (if nullish (map_of rec ''status'') then map_of rec ''statusCode'' else map_of rec ''status'')
                in case s of Some n \<Rightarrow> if is_number n then Some n else None | None \<Rightarrow> None)
      | None \<Rightarrow> None)"

definition header_names :: "json option \<Rightarrow> string list" where
  "header_names v = map fst (filter (\<lambda>(k, x). case x of JStr _ \<Rightarrow> True | _ \<Rightarrow> False) (as_record v))"

definition json_eq :: "json option \<Rightarrow> json \<Rightarrow> bool" where
  "json_eq a b \<longleftrightarrow> map_option json_stringify a = Some (json_stringify b)"

fun eval_predicate :: "signature \<Rightarrow> json \<Rightarrow> json option \<Rightarrow> predicate \<Rightarrow> string + bool" where
  "eval_predicate sg args result (ResultStatusIn codes) =
     Inr (case result_status result of Some (JInt n) \<Rightarrow> n \<in> set codes | _ \<Rightarrow> False)"
| "eval_predicate sg args result (ArgEquals path value) =
     (case eval_json_path (Some args) path of Inl e \<Rightarrow> Inl e | Inr got \<Rightarrow> Inr (json_eq got value))"
| "eval_predicate sg args result (HeaderPresent name) =
     Inr (list_ex (\<lambda>k. to_lower k = to_lower name)
       (header_names (map_of (as_record (Some args)) ''headers'')
        @ header_names (map_of (as_record result) ''headers'')))"
| "eval_predicate sg args result (DeleteUndoesCreate b) = Inr (orelse (sg_delete_undoes_create sg) False = b)"
| "eval_predicate sg args result (Cascades xs) = Inr True"

fun eval_all :: "signature \<Rightarrow> json \<Rightarrow> json option \<Rightarrow> predicate list \<Rightarrow> string + bool" where
  "eval_all sg args result [] = Inr True"
| "eval_all sg args result (p # ps) =
     (case eval_predicate sg args result p of
        Inl e \<Rightarrow> Inl e
      | Inr b \<Rightarrow> if b then eval_all sg args result ps else Inr False)"

definition eval_applies_when :: "signature \<Rightarrow> json \<Rightarrow> json option \<Rightarrow> string + bool" where
  "eval_applies_when sg args result = eval_all sg args result (orelse (sg_applies_when sg) [])"

section \<open>Scoring and selection\<close>

definition literal_segments :: "matcher \<Rightarrow> nat" where
  "literal_segments m =
     (case m of
        MHttp _ pat \<Rightarrow>
          (case split_url_pattern pat of None \<Rightarrow> 0
           | Some p \<Rightarrow> length (filter (\<lambda>s. s \<noteq> ''**'' \<and> \<not> is_param s) (up_segments p)))
      | MShell template \<Rightarrow> length (filter (\<lambda>s. s \<noteq> ''{}'') template)
      | MFs _ glob \<Rightarrow> length (filter (\<lambda>s. s \<noteq> [] \<and> s \<noteq> ''?'' \<and> CHR ''*'' \<notin> set s) (js_split CHR ''/'' glob))
      | MSdkFn _ _ \<Rightarrow> 2
      | MMcpTool _ _ \<Rightarrow> 1
      | MSql _ table _ \<Rightarrow> if table = ''*'' then 0 else 1
      | MStar \<Rightarrow> 0)"

definition specificity_score :: "signature \<Rightarrow> nat" where
  "specificity_score sg =
     (let m = sg_match sg;
          not_star = (if m \<noteq> MStar then 1 else 0);
          applies = length (orelse (sg_applies_when sg) []);
          version = (case m of MMcpTool _ v \<Rightarrow> if nonempty v then 1 else 0 | _ \<Rightarrow> 0);
          dialect = (case m of MSql _ _ d \<Rightarrow> if nonempty d then 1 else 0 | _ \<Rightarrow> 0)
      in 1000 * not_star + 100 * literal_segments m + 50 * applies + 25 * version + 10 * dialect)"

fun source_rank :: "source \<Rightarrow> nat" where
  "source_rank Registered = 0" | "source_rank Builtin = 1" | "source_rank Drafted = 2"

record match_result =
  mr_matched :: "signature option"
  mr_candidates :: "candidate list"
  mr_errors :: "(string \<times> string) list"

text \<open>The key of the comparator: higher score, better source, earlier registration, smaller id.\<close>

definition rank_key :: "signature \<Rightarrow> int \<times> nat \<times> string \<times> string" where
  "rank_key sg = (- int (specificity_score sg), source_rank (sg_source sg), orelse (sg_registered_at sg) [], sg_id sg)"

definition passes_kind :: "platform \<Rightarrow> action_ref \<Rightarrow> json \<Rightarrow> signature \<Rightarrow> bool" where
  "passes_kind pf a args sg \<longleftrightarrow>
     \<not> sg_disabled sg \<and> kind_eligible (sg_match sg) (ac_kind a) \<and> kind_predicate pf (sg_match sg) a args"

fun score_loop :: "platform \<Rightarrow> action_ref \<Rightarrow> json \<Rightarrow> json option \<Rightarrow> signature list
    \<Rightarrow> signature list \<times> (string \<times> string) list" where
  "score_loop pf a args result [] = ([], [])"
| "score_loop pf a args result (sg # sgs) =
     (let (scored, errs) = score_loop pf a args result sgs
      in if \<not> passes_kind pf a args sg then (scored, errs)
         else case eval_applies_when sg args result of
           Inl e \<Rightarrow> (scored, (sg_id sg, e) # errs)
         | Inr b \<Rightarrow> if b then (sg # scored, errs) else (scored, errs))"

definition match_compensator :: "platform \<Rightarrow> signature list \<Rightarrow> action_ref \<Rightarrow> json \<Rightarrow> json option \<Rightarrow> match_result" where
  "match_compensator pf registry a args result =
     (let (scored, errs) = score_loop pf a args result registry;
          ranked = sort_key rank_key scored
      in \<lparr>mr_matched = nth_opt ranked 0,
          mr_candidates = map (\<lambda>sg. \<lparr>cd_id = sg_id sg, cd_score = specificity_score sg, cd_source = sg_source sg\<rparr>) ranked,
          mr_errors = errs\<rparr>)"

section \<open>The selected compensator\<close>

definition applicable :: "platform \<Rightarrow> action_ref \<Rightarrow> json \<Rightarrow> json option \<Rightarrow> signature \<Rightarrow> bool" where
  "applicable pf a args result sg \<longleftrightarrow> passes_kind pf a args sg \<and> eval_applies_when sg args result = Inr True"

lemma score_loop_filter: "fst (score_loop pf a args result reg) = filter (applicable pf a args result) reg"
proof (induction reg)
  case (Cons sg reg)
  obtain xs errs where e: "score_loop pf a args result reg = (xs, errs)" by force
  with Cons have "xs = filter (applicable pf a args result) reg" by simp
  then show ?case
    by (cases "passes_kind pf a args sg"; cases "eval_applies_when sg args result")
      (simp_all add: e applicable_def [of pf a args result sg])
qed simp

lemma match_compensator_simps:
  "mr_matched (match_compensator pf reg a args result) = nth_opt (sort_key rank_key (filter (applicable pf a args result) reg)) 0"
  "mr_candidates (match_compensator pf reg a args result) =
     map (\<lambda>sg. \<lparr>cd_id = sg_id sg, cd_score = specificity_score sg, cd_source = sg_source sg\<rparr>)
       (sort_key rank_key (filter (applicable pf a args result) reg))"
  using score_loop_filter [of pf a args result reg, symmetric]
  by (simp_all add: match_compensator_def case_prod_beta Let_def)

text \<open>
  C33: the compensator chosen for an effect is enabled, of the right kind, matches the call and its
  conditions, and no applicable signature of the registry comes before it in the order by
  specificity, then registered before builtin before drafted, then age, then id; none is
  chosen only when none applies.
\<close>

theorem match_compensator_best:
  "case mr_matched (match_compensator pf reg a args result) of
     None \<Rightarrow> \<forall>sg \<in> set reg. \<not> applicable pf a args result sg
   | Some sg \<Rightarrow> sg \<in> set reg \<and> \<not> sg_disabled sg \<and> applicable pf a args result sg
       \<and> (\<forall>sg' \<in> set reg. applicable pf a args result sg' \<longrightarrow> rank_key sg \<le> rank_key sg')"
proof -
  let ?f = "filter (applicable pf a args result) reg"
  show ?thesis
  proof (cases "sort_key rank_key ?f")
    case Nil
    then have "?f = []" by (metis set_empty set_sort)
    with Nil show ?thesis by (simp add: match_compensator_simps filter_empty_conv)
  next
    case (Cons sg rest)
    have "sorted (map rank_key (sort_key rank_key ?f))" by simp
    with Cons have "\<forall>s \<in> set (sort_key rank_key ?f). rank_key sg \<le> rank_key s" by auto
    then have "\<forall>s \<in> set ?f. rank_key sg \<le> rank_key s" by (simp only: set_sort)
    moreover have "sg \<in> set ?f" using Cons by (metis list.set_intros(1) set_sort)
    ultimately show ?thesis using Cons by (auto simp: match_compensator_simps applicable_def passes_kind_def)
  qed
qed

definition sample_signature :: "string \<Rightarrow> source \<Rightarrow> matcher \<Rightarrow> signature" where
  "sample_signature i src m = \<lparr>sg_id = i, sg_match = m, sg_applies_when = None, sg_tier = T2,
     sg_compensator = Declarative [] None, sg_constants = None, sg_permits = None, sg_leak = NoLeak,
     sg_cascade_risk = NoRisk, sg_completeness = Full, sg_source = src, sg_delete_undoes_create = None,
     sg_registered_at = None, sg_disabled = False, sg_binds = [], sg_preimage = None,
     sg_credentials = None, sg_volatile = None, sg_window = None, sg_independent = False, sg_preimage_required = False, sg_signature = None\<rparr>"

definition sample_registry :: "signature list" where
  "sample_registry = [sample_signature ''b'' Builtin (MFs (One ''write'') ''/w/**''),
     sample_signature ''r'' Registered (MFs (One ''write'') ''/w/**''),
     sample_signature ''s'' Registered MStar]"

definition sample_fs_action :: "string \<Rightarrow> action_ref" where
  "sample_fs_action path = \<lparr>ac_kind = AFs, ac_name = ''fs.write.'' @ path, ac_version = None,
     ac_target = Some path, ac_locality = Internal\<rparr>"

theorem match_compensator_best_witness:
  "rank_key (sample_signature ''r'' Registered (MFs (One ''write'') ''/w/**'')) \<le> rank_key (sample_signature ''s'' Registered MStar)"
proof -
  have "mr_matched (match_compensator sample_platform sample_registry (sample_fs_action ''/w/x'') JNull None)
      = Some (sample_signature ''r'' Registered (MFs (One ''write'') ''/w/**''))"
    by code_simp
  moreover have "sample_signature ''s'' Registered MStar \<in> set sample_registry" by (simp add: sample_registry_def)
  moreover have "applicable sample_platform (sample_fs_action ''/w/x'') JNull None (sample_signature ''s'' Registered MStar)"
    by code_simp
  ultimately show ?thesis
    using match_compensator_best [where pf = sample_platform and reg = sample_registry
      and a = "sample_fs_action ''/w/x''" and args = JNull and result = None] by simp
qed

text \<open>
  The choice and the list of candidates do not depend on the order in which signatures were
  registered, as long as their ids differ.
\<close>

theorem match_compensator_permutation:
  assumes "mset reg = mset reg'" "distinct (map sg_id reg)"
  shows "mr_matched (match_compensator pf reg a args result) = mr_matched (match_compensator pf reg' a args result)
    \<and> mr_candidates (match_compensator pf reg a args result) = mr_candidates (match_compensator pf reg' a args result)"
proof -
  have "sort_key rank_key (filter (applicable pf a args result) reg)
      = sort_key rank_key (filter (applicable pf a args result) reg')"
  proof (rule sort_key_eq_sort_key)
    show "mset (filter (applicable pf a args result) reg) = mset (filter (applicable pf a args result) reg')"
      using assms(1) by simp
    show "inj_on rank_key (set (filter (applicable pf a args result) reg))"
      using assms(2) by (auto simp: distinct_map inj_on_def rank_key_def)
  qed
  then show ?thesis by (simp add: match_compensator_simps)
qed

theorem match_compensator_permutation_witness:
  "mr_matched (match_compensator sample_platform sample_registry (sample_fs_action ''/w/x'') JNull None)
   = mr_matched (match_compensator sample_platform (rev sample_registry) (sample_fs_action ''/w/x'') JNull None)"
  using match_compensator_permutation [of sample_registry "rev sample_registry"]
  by (simp add: sample_registry_def sample_signature_def)

section \<open>Globs\<close>

definition no_wild :: "string \<Rightarrow> bool" where
  "no_wild d \<longleftrightarrow> CHR ''*'' \<notin> set d \<and> CHR ''?'' \<notin> set d"

lemma glob_tokens_literal: "no_wild d \<Longrightarrow> glob_tokens (d @ g) = map Lit d @ glob_tokens g"
  by (induction d) (auto simp: no_wild_def)

lemma tokens_match_literal: "tokens_match (map Lit d @ ts) s \<longleftrightarrow> (\<exists>r. s = d @ r \<and> tokens_match ts r)"
proof (induction d arbitrary: s)
  case (Cons c d)
  then show ?case by (cases s) auto
qed simp

lemma tokens_match_any: "tokens_match [AnyText] s \<longleftrightarrow> list_all (\<lambda>c. \<not> line_end c) s"
  by (induction s) auto

lemma tokens_match_seg: "tokens_match [SegText] s \<longleftrightarrow> CHR ''/'' \<notin> set s"
  by (induction s) auto

text \<open>
  The path globs of signatures mean what they say: a glob without wildcards matches that path
  only, \<^verbatim>\<open>d/*\<close> the direct children of \<^verbatim>\<open>d\<close>, and \<^verbatim>\<open>d/**\<close> exactly the paths under \<^verbatim>\<open>d/\<close> (without
  line breaks below it).
\<close>

theorem glob_match_meaning:
  assumes "no_wild d"
  shows "(glob_match d p \<longleftrightarrow> p = d)
    \<and> (glob_match (d @ ''/*'') p \<longleftrightarrow> (\<exists>r. p = d @ ''/'' @ r \<and> CHR ''/'' \<notin> set r))
    \<and> (glob_match (d @ ''/**'') p \<longleftrightarrow> (\<exists>r. p = d @ ''/'' @ r \<and> list_all (\<lambda>c. \<not> line_end c) r))"
proof (intro conjI)
  have no_star: "d \<noteq> ''**''" "d \<noteq> ''**/**''" "d @ ''/*'' \<noteq> ''**''" "d @ ''/*'' \<noteq> ''**/**''"
      "d @ ''/**'' \<noteq> ''**''" "d @ ''/**'' \<noteq> ''**/**''"
    using assms by (auto simp: no_wild_def append_eq_Cons_conv)
  have slash: "glob_tokens (d @ CHR ''/'' # g) = map Lit (d @ ''/'') @ glob_tokens g" for g
    using glob_tokens_literal [OF assms, of "CHR ''/'' # g"] by simp
  show "glob_match d p \<longleftrightarrow> p = d"
    using glob_tokens_literal [OF assms, of "[]"] tokens_match_literal [of d "[]" p] no_star
    by (simp add: glob_match_def)
  show "glob_match (d @ ''/*'') p \<longleftrightarrow> (\<exists>r. p = d @ ''/'' @ r \<and> CHR ''/'' \<notin> set r)"
    unfolding glob_match_def using no_star slash [of "''*''"] tokens_match_literal [of "d @ ''/''" "[SegText]" p]
    by (simp add: tokens_match_seg)
  show "glob_match (d @ ''/**'') p \<longleftrightarrow> (\<exists>r. p = d @ ''/'' @ r \<and> list_all (\<lambda>c. \<not> line_end c) r)"
    unfolding glob_match_def using no_star slash [of "''**''"] tokens_match_literal [of "d @ ''/''" "[AnyText]" p]
    by (simp add: tokens_match_any)
qed

theorem glob_match_meaning_witness:
  "\<not> glob_match (''/work'' @ ''/*'') ''/work/a/b'' \<and> glob_match (''/work'' @ ''/**'') ''/work/a/b''"
  using glob_match_meaning [of "''/work''" "''/work/a/b''"] by (simp add: no_wild_def line_end_def)

end
