(* ===== verification/Plan.thy ===== *)
theory Plan
  imports Chain Matching
begin

text \<open>
  The plan compiler: \<^verbatim>\<open>packages/core/src/plan.ts\<close>.  Steps are JSON values, read field by field as the
  code reads them; the checks follow the code one function each: the closed step set, provenance of
  every argument, resolution of references, positions of credentials, unsafe statements, scope
  against the receipt, the number of steps and the distinct resources they change.

  A field access on a value that is not of the promised shape throws in JavaScript; the schema
  check excludes it for the fields it inspects, and \<open>compile_plan\<close> has a result for the plan hash of a
  step with a non-finite number, which throws.
\<close>

section \<open>References\<close>

definition is_ref :: "json \<Rightarrow> bool" where
  "is_ref v \<longleftrightarrow> (case v of JObj [(k, JStr _)] \<Rightarrow> k = ''$ref'' | _ \<Rightarrow> False)"

text \<open>The text of a reference, when the value is one.\<close>

definition ref_of :: "json \<Rightarrow> string option" where
  "ref_of v = (case v of JObj [(k, JStr s)] \<Rightarrow> if k = ''$ref'' then Some s else None | _ \<Rightarrow> None)"

definition is_ref_source :: "string \<Rightarrow> bool" where
  "is_ref_source s \<longleftrightarrow>
     s = ''receipt.preimage.blob'' \<or> s = ''receipt.preimage.absent'' \<or> s = ''runtime.idempotency_key''
     \<or> starts_with s ''receipt.bindings.'' \<or> starts_with s ''receipt.args.''
     \<or> starts_with s ''receipt.result.'' \<or> starts_with s ''const.'' \<or> starts_with s ''credential.''"

section \<open>The closed step set\<close>

definition step_kinds :: "string list" where
  "step_kinds = [''http_request'', ''sql_statement'', ''fs_restore'', ''fs_rename'', ''mcp_tool_call'', ''noop'', ''manual'']"

definition allowed_keys :: "string \<Rightarrow> string list" where
  "allowed_keys kind =
     (if kind = ''http_request'' then [''kind'', ''method'', ''url'', ''headers'', ''body'', ''expect'']
      else if kind = ''sql_statement'' then
        [''kind'', ''dialect'', ''statement'', ''table'', ''where'', ''set'', ''values'', ''expect_rowcount'']
      else if kind = ''fs_restore'' then [''kind'', ''path'', ''source'', ''restore_meta'']
      else if kind = ''fs_rename'' then [''kind'', ''from'', ''to'']
      else if kind = ''mcp_tool_call'' then [''kind'', ''tool'', ''args'', ''expect'']
      else if kind = ''noop'' then [''kind'', ''reason'']
      else if kind = ''manual'' then [''kind'', ''instructions'', ''suggested_actions'']
      else [''kind''])"

definition sql_text_keys :: "string list" where
  "sql_text_keys = [''sql'', ''query'', ''text'', ''raw'', ''raw_sql'', ''command'', ''script'']"

definition is_object :: "json option \<Rightarrow> bool" where
  "is_object v \<longleftrightarrow> (case v of Some (JObj _) \<Rightarrow> True | Some (JArr _) \<Rightarrow> True | _ \<Rightarrow> False)"

definition js_string_opt :: "json option \<Rightarrow> string" where
  "js_string_opt v = (case v of Some w \<Rightarrow> js_string w | None \<Rightarrow> ''undefined'')"

definition step_label :: "nat \<Rightarrow> string" where
  "step_label i = ''steps['' @ show_nat i @ '']''"

definition http_shape :: "string \<Rightarrow> (string \<times> json) list \<Rightarrow> string option" where
  "http_shape l rec =
     (if js_string_opt (map_of rec ''method'') \<notin> set [''DELETE'', ''POST'', ''PATCH'', ''PUT''] then Some (l @ '' http method not allowed'')
      else if map_of rec ''url'' = None then Some (l @ '' url required'')
      else if \<not> is_object (map_of rec ''expect'') then Some (l @ '' expect required'') else None)"

definition sql_shape :: "string \<Rightarrow> (string \<times> json) list \<Rightarrow> string option" where
  "sql_shape l rec =
     (if js_string_opt (map_of rec ''dialect'') \<notin> set [''sqlite'', ''postgres'', ''mysql'', ''unknown''] then Some (l @ '' dialect invalid'')
      else case map_of rec ''statement'' of
        Some (JStr s) \<Rightarrow>
          if s \<notin> set [''INSERT'', ''UPDATE'', ''DELETE''] \<or> includes_str s '';'' \<or> includes_str s '' ''
          then Some (l @ '' statement must be INSERT|UPDATE|DELETE, not SQL text'')
          else if map_of rec ''table'' = None then Some (l @ '' table required'')
          else if \<not> is_object (map_of rec ''expect_rowcount'') then Some (l @ '' expect_rowcount required'') else None
      | _ \<Rightarrow> Some (l @ '' statement must be INSERT|UPDATE|DELETE, not SQL text''))"

definition validate_step :: "nat \<Rightarrow> json \<Rightarrow> string option" where
  "validate_step i step =
     (let l = step_label i
      in case step of
        JObj rec \<Rightarrow>
          (case map_of rec ''kind'' of
             Some (JStr kind) \<Rightarrow>
               if kind \<notin> set step_kinds then Some (l @ '' kind is not in the closed set'')
               else
                 (let extra = filter (\<lambda>k. k \<notin> set (allowed_keys kind)) (map fst rec);
                      sql_text = filter (\<lambda>k. k \<in> set sql_text_keys) (map fst rec)
                  in if extra \<noteq> [] then Some (l @ '' unknown fields: '' @ js_join '','' extra)
                     else if kind = ''sql_statement'' \<and> sql_text \<noteq> [] then
                       Some (l @ '' declarative sql_statement cannot carry SQL text'')
                     else if kind = ''http_request'' then http_shape l rec
                     else if kind = ''sql_statement'' then sql_shape l rec
                     else if kind = ''fs_restore'' then
                       (if map_of rec ''path'' = None then Some (l @ '' path required'')
                        else if map_of rec ''source'' = None then Some (l @ '' source required'') else None)
                     else if kind = ''fs_rename'' then
                       (if map_of rec ''from'' = None \<or> map_of rec ''to'' = None then Some (l @ '' from and to required'') else None)
                     else if kind = ''mcp_tool_call'' then
                       (if map_of rec ''tool'' = None then Some (l @ '' tool required'')
                        else if map_of rec ''args'' = None then Some (l @ '' args required'') else None)
                     else if kind = ''noop'' then
                       (if str_of (map_of rec ''reason'') = None then Some (l @ '' reason required'') else None)
                     else
                       (if str_of (map_of rec ''instructions'') = None then Some (l @ '' instructions required'')
                        else case map_of rec ''suggested_actions'' of
                          Some (JArr _) \<Rightarrow> None | _ \<Rightarrow> Some (l @ '' suggested_actions required'')))
           | _ \<Rightarrow> Some (l @ '' kind is not in the closed set''))
      | _ \<Rightarrow> Some (l @ '' is not an object''))"

definition validate_closed_step_set :: "json list \<Rightarrow> string option" where
  "validate_closed_step_set steps =
     (if steps = [] then Some ''plan must contain at least one step'' else first_err validate_step 0 steps)"

section \<open>Provenance\<close>

definition field :: "json \<Rightarrow> string \<Rightarrow> json option" where
  "field step k = obj_get step k"

definition step_kind :: "json \<Rightarrow> string" where
  "step_kind step = orelse (str_of (field step ''kind'')) []"

definition members :: "string \<Rightarrow> json option \<Rightarrow> (string \<times> json option) list" where
  "members pre v = (if truthy v then map (\<lambda>(k, x). (pre @ ''.'' @ k, Some x)) (entries (the v)) else [])"

definition arg_positions :: "json \<Rightarrow> (string \<times> json option) list" where
  "arg_positions step =
     (let kind = step_kind step; at = (\<lambda>k. (k, field step k))
      in if kind = ''http_request'' then
           [at ''url''] @ members ''headers'' (field step ''headers'')
             @ (if field step ''body'' \<noteq> None then [at ''body''] else [])
         else if kind = ''sql_statement'' then
           [at ''table''] @ members ''where'' (field step ''where'') @ members ''set'' (field step ''set'')
             @ members ''values'' (field step ''values'')
         else if kind = ''fs_restore'' then [at ''path'', at ''source'']
         else if kind = ''fs_rename'' then [at ''from'', at ''to'']
         else if kind = ''mcp_tool_call'' then [at ''tool'', at ''args'']
         else [])"

fun assert_arg_value :: "string \<Rightarrow> json \<Rightarrow> rejection option" where
  "assert_arg_value path (JArr vs) =
     first_err (\<lambda>i v. assert_arg_value (path @ ''['' @ show_nat i @ '']'') v) 0 vs"
| "assert_arg_value path (JObj kvs) =
     (if map_of kvs ''$ref'' \<noteq> None then
        (case ref_of (JObj kvs) of
           None \<Rightarrow> Some (reject VR3007 SProvenance (path @ '': malformed ref''))
         | Some s \<Rightarrow> if is_ref_source s then None
                    else Some (reject VR3006 SProvenance (path @ '': unresolvable_ref '' @ s)))
      else first_err (\<lambda>i (k, v). assert_arg_value (path @ ''.'' @ k) v) 0 kvs)"
| "assert_arg_value path v = Some (reject VR3007 SProvenance (path @ '': unprovenanced_literal''))"

definition assert_position :: "nat \<Rightarrow> string \<times> json option \<Rightarrow> rejection option" where
  "assert_position i pos =
     (case pos of (p, v) \<Rightarrow>
        (let path = step_label i @ ''.'' @ p
         in case v of None \<Rightarrow> Some (reject VR3007 SProvenance (path @ '': missing'')) | Some w \<Rightarrow> assert_arg_value path w))"

definition assert_provenance :: "json list \<Rightarrow> rejection option" where
  "assert_provenance steps = first_err (\<lambda>i step. first_err (\<lambda>_. assert_position i) 0 (arg_positions step)) 0 steps"

fun has_const :: "json \<Rightarrow> bool" where
  "has_const (JArr vs) = list_ex has_const vs"
| "has_const (JObj kvs) =
     ((case ref_of (JObj kvs) of Some s \<Rightarrow> starts_with s ''const.'' | None \<Rightarrow> False)
      \<or> list_ex (\<lambda>(k, v). has_const v) kvs)"
| "has_const _ = False"

definition has_const_ref :: "json list \<Rightarrow> bool" where
  "has_const_ref steps = list_ex has_const steps"

section \<open>Resolution\<close>

definition unresolvable :: "string \<Rightarrow> rejection" where
  "unresolvable d = reject VR3006 SProvenance d"

definition resolve_path :: "string \<Rightarrow> json option \<Rightarrow> string \<Rightarrow> rejection + json" where
  "resolve_path src root path =
     (case eval_json_path root path of
        Inl e \<Rightarrow> Inl (unresolvable (src @ '': '' @ e))
      | Inr None \<Rightarrow> Inl (unresolvable src)
      | Inr (Some v) \<Rightarrow> Inr v)"

definition resolve_ref :: "string \<Rightarrow> receipt \<Rightarrow> signature \<Rightarrow> source \<Rightarrow> rejection + json" where
  "resolve_ref src rc sg origin =
     (if \<not> is_ref_source src then Inl (unresolvable (''unresolvable_ref '' @ src))
      else if starts_with src ''credential.'' then Inr (JObj [(''$ref'', JStr src)])
      else if src = ''runtime.idempotency_key'' then Inr (JObj [(''$ref'', JStr src)])
      else if starts_with src ''const.'' then
        (if origin = Drafted then Inl (reject VR3010 SCompile src)
         else case map_of (orelse (sg_constants sg) []) (drop 6 src) of
           None \<Rightarrow> Inl (unresolvable (''unresolvable_ref '' @ src)) | Some v \<Rightarrow> Inr v)
      else if src = ''receipt.preimage.blob'' then
        (case rc_preimage rc of
           None \<Rightarrow> Inl (unresolvable src)
         | Some p \<Rightarrow>
             if pi_kind p = NoPreimage \<or> pi_kind p = FsAbsent then Inl (unresolvable src)
             else Inr (JStr (orelse (pi_blob_id p) ''receipt.preimage.blob'')))
      else if src = ''receipt.preimage.absent'' then Inr (JStr ''absent'')
      else if starts_with src ''receipt.bindings.'' then
        (case map_of (rc_bindings rc) (drop 17 src) of None \<Rightarrow> Inl (unresolvable src) | Some v \<Rightarrow> Inr v)
      else if starts_with src ''receipt.args.'' then resolve_path src (Some (rc_args rc)) (drop 13 src)
      else if starts_with src ''receipt.result.'' then resolve_path src (rc_result rc) (drop 15 src)
      else Inl (unresolvable src))"

text \<open>The results of a sequence of resolutions, or the first rejection.\<close>

fun all_ok :: "('e + 'a) list \<Rightarrow> 'e + 'a list" where
  "all_ok [] = Inr []"
| "all_ok (r # rs) = (case r of Inl e \<Rightarrow> Inl e | Inr v \<Rightarrow> (case all_ok rs of Inl e \<Rightarrow> Inl e | Inr vs \<Rightarrow> Inr (v # vs)))"

fun resolve_deep :: "receipt \<Rightarrow> signature \<Rightarrow> source \<Rightarrow> json \<Rightarrow> rejection + json" where
  "resolve_deep rc sg origin (JArr vs) =
     map_sum id JArr (all_ok (map (resolve_deep rc sg origin) vs))"
| "resolve_deep rc sg origin (JObj kvs) =
     (case ref_of (JObj kvs) of
        Some src \<Rightarrow> resolve_ref src rc sg origin
      | None \<Rightarrow> map_sum id JObj (all_ok (map (\<lambda>(k, v). map_sum id (Pair k) (resolve_deep rc sg origin v)) kvs)))"
| "resolve_deep rc sg origin v = Inr v"

definition resolve_steps :: "json list \<Rightarrow> receipt \<Rightarrow> signature \<Rightarrow> source \<Rightarrow> rejection + json list" where
  "resolve_steps steps rc sg origin = all_ok (map (resolve_deep rc sg origin) steps)"

section \<open>Credentials\<close>

fun check_credentials :: "nat \<Rightarrow> bool \<Rightarrow> string \<Rightarrow> json \<Rightarrow> rejection option" where
  "check_credentials i forbidden path (JArr vs) =
     first_err (\<lambda>j v. check_credentials i forbidden (path @ ''['' @ show_nat j @ '']'') v) 0 vs"
| "check_credentials i forbidden path (JObj kvs) =
     (case ref_of (JObj kvs) of
        Some s \<Rightarrow>
          if starts_with s ''credential.'' \<and> forbidden
          then Some (reject VR3009 SCompile (step_label i @ ''.'' @ path @ '': credential.* not allowed here''))
          else None
      | None \<Rightarrow> first_err (\<lambda>_ (k, v). check_credentials i forbidden (path @ ''.'' @ k) v) 0 kvs)"
| "check_credentials i forbidden path v = None"

definition check_field :: "nat \<Rightarrow> json \<Rightarrow> bool \<Rightarrow> string \<Rightarrow> rejection option" where
  "check_field i step forbidden k =
     (case field step k of None \<Rightarrow> None | Some v \<Rightarrow> check_credentials i forbidden k v)"

definition walk_credentials :: "nat \<Rightarrow> json \<Rightarrow> rejection option" where
  "walk_credentials i step =
     (let kind = step_kind step; bad = check_field i step True
      in if kind = ''http_request'' then
           orelse_opt (bad ''url'') (orelse_opt (bad ''body'') (check_field i step False ''headers''))
         else if kind = ''sql_statement'' then
           orelse_opt (bad ''table'') (orelse_opt (bad ''where'') (orelse_opt (bad ''set'') (bad ''values'')))
         else if kind = ''fs_restore'' then orelse_opt (bad ''path'') (bad ''source'')
         else if kind = ''fs_rename'' then orelse_opt (bad ''from'') (bad ''to'')
         else if kind = ''mcp_tool_call'' then orelse_opt (bad ''tool'') (check_field i step False ''args'')
         else None)"

definition assert_credential_positions :: "json list \<Rightarrow> rejection option" where
  "assert_credential_positions steps = first_err walk_credentials 0 steps"

section \<open>Unsafe statements\<close>

definition sql_words :: "string list" where
  "sql_words = [''select'', ''insert'', ''update'', ''delete'', ''drop'', ''alter'', ''truncate'', ''union'', ''where'']"

text \<open>\<^verbatim>\<open>/\b(select|...)\b/i\<close>: one of the words between word boundaries; \<open>prev\<close> tells whether a word
  character precedes.\<close>

fun has_word :: "string list \<Rightarrow> bool \<Rightarrow> string \<Rightarrow> bool" where
  "has_word ws prev [] = False"
| "has_word ws prev (c # r) =
     ((\<not> prev \<and> list_ex (\<lambda>w. starts_with (to_lower (c # r)) w
         \<and> (case drop (length w) (c # r) of [] \<Rightarrow> True | x # _ \<Rightarrow> \<not> is_word x)) ws)
      \<or> has_word ws (is_word c) r)"

definition looks_like_sql :: "string \<Rightarrow> bool" where
  "looks_like_sql s \<longleftrightarrow> has_word sql_words False s \<and> includes_str s '' ''"

definition http_method_of :: "receipt \<Rightarrow> string" where
  "http_method_of rc =
     (case str_of (map_of (as_record (Some (rc_args rc))) ''method'') of
        Some m \<Rightarrow> to_upper m
      | None \<Rightarrow> orelse (method_from_name (ac_name (rc_action rc))) [])"

definition bag_carries_sql :: "(string \<times> json) list \<Rightarrow> string \<Rightarrow> bool" where
  "bag_carries_sql rec slot =
     (let bag = map_of rec slot
      in is_object bag
         \<and> list_ex (\<lambda>(k, v). let s = stringify (Some v)
                    in includes_str s '';'' \<or> looks_like_sql s \<or> looks_like_sql k) (entries (the bag)))"

definition unsafe_sql :: "nat \<Rightarrow> json \<Rightarrow> (string \<times> json) list \<Rightarrow> rejection option" where
  "unsafe_sql i step rec =
     (let l = step_label i; table = stringify (map_of rec ''table'');
          stmt = orelse (str_of (field step ''statement'')) []; wh = map_of rec ''where'';
          keys = map fst (as_record wh)
      in if includes_str table '';'' \<or> looks_like_sql table then Some (reject VR3009 SCompile (l @ ''.table carries SQL text''))
         else if (stmt = ''UPDATE'' \<or> stmt = ''DELETE'') \<and> keys = [] then Some (reject VR3009 SCompile (l @ '' bare WHERE''))
         else if (stmt = ''UPDATE'' \<or> stmt = ''DELETE'') \<and> list_ex (\<lambda>k. k = ''1'' \<or> to_lower k = ''true'') keys
         then Some (reject VR3009 SCompile (l @ '' WHERE true''))
         else map_option (\<lambda>slot. reject VR3009 SCompile (l @ ''.'' @ slot @ '' carries SQL text''))
           (List.find (bag_carries_sql rec) [''where'', ''set'', ''values'']))"

definition unsafe_step :: "receipt \<Rightarrow> nat \<Rightarrow> json \<times> json \<Rightarrow> rejection option" where
  "unsafe_step rc i sr =
     (case sr of (step, resolved) \<Rightarrow>
        (let kind = step_kind step; rec = as_record (Some resolved)
         in if kind = ''sql_statement'' then unsafe_sql i step rec
            else if kind = ''fs_restore'' then
              (if (case field step ''source'' of Some v \<Rightarrow> ref_of v = Some ''receipt.preimage.blob'' | None \<Rightarrow> False)
                  \<and> (case rc_preimage rc of None \<Rightarrow> True
                      | Some p \<Rightarrow> pi_truncated p \<or> pi_kind p = FsAbsent \<or> pi_kind p = NoPreimage)
               then Some (reject VR3009 SCompile ''DELETE-without-preimage'') else None)
            else if kind = ''http_request'' \<and> str_of (field step ''method'') = Some ''DELETE'' then
              (if ac_kind (rc_action rc) = AHttp \<and> http_method_of rc = ''DELETE''
                  \<and> (case rc_preimage rc of None \<Rightarrow> True | Some p \<Rightarrow> pi_kind p = NoPreimage)
               then Some (reject VR3009 SCompile ''DELETE-without-preimage'') else None)
            else None))"

definition assert_unsafe_statements :: "json list \<Rightarrow> json list \<Rightarrow> receipt \<Rightarrow> rejection option" where
  "assert_unsafe_statements steps resolved rc = first_err (unsafe_step rc) 0 (zip steps resolved)"

section \<open>Scope of HTTP steps\<close>

definition scheme_char :: "char \<Rightarrow> bool" where
  "scheme_char c \<longleftrightarrow> is_alpha c \<or> is_digit c \<or> c \<in> set ''+.-''"

definition host_of_authority :: "string \<Rightarrow> string" where
  "host_of_authority h = (if starts_with h ''['' then h else takeWhile (\<lambda>c. c \<noteq> CHR '':'') h)"

text \<open>The host as written, before any normalisation: whether it has user information, and its text.\<close>

definition inspect_raw_http_host :: "string \<Rightarrow> bool \<times> string" where
  "inspect_raw_http_host s =
     (let scheme = takeWhile scheme_char s; r = dropWhile scheme_char s
      in if scheme = [] \<or> \<not> is_alpha (hd scheme) \<or> \<not> starts_with r ''://'' then (False, [])
         else
           (let authority = takeWhile (\<lambda>c. c \<notin> set ''/?#'') (drop 3 r)
            in case last_index CHR ''@'' authority of
                 Some i \<Rightarrow> (True, host_of_authority (drop (Suc i) authority))
               | None \<Rightarrow> (False, host_of_authority authority)))"

definition filter_keys :: "string \<Rightarrow> string list \<Rightarrow> string list" where
  "filter_keys pre keys = filter (\<lambda>k. starts_with k pre) keys"

definition key_part :: "string \<Rightarrow> nat \<Rightarrow> string" where
  "key_part k i = orelse (nth_opt (js_split CHR '':'' k) i) []"

definition host_of_url :: "platform \<Rightarrow> json option \<Rightarrow> string list" where
  "host_of_url pf v =
     (case v of Some (JStr s) \<Rightarrow> (case normalize_http_url pf s of Some n \<Rightarrow> [nu_host n] | None \<Rightarrow> []) | _ \<Rightarrow> [])"

definition http_hosts :: "platform \<Rightarrow> receipt \<Rightarrow> string list \<Rightarrow> string list" where
  "http_hosts pf rc keys =
     filter (\<lambda>h. h \<noteq> [])
       (map (\<lambda>k. key_part k 1) (filter_keys ''http:'' keys)
        @ host_of_url pf (map_of (as_record (Some (rc_args rc))) ''url'')
        @ host_of_url pf (map_of (rc_bindings rc) ''resource_url''))"

definition protocol_name :: "url \<Rightarrow> string" where
  "protocol_name u = takeWhile (\<lambda>c. c \<noteq> CHR '':'') (u_protocol u) @ drop 1 (dropWhile (\<lambda>c. c \<noteq> CHR '':'') (u_protocol u))"

definition http_scheme :: "platform \<Rightarrow> receipt \<Rightarrow> string" where
  "http_scheme pf rc =
     (let s = orelse (orelse_opt (str_of (map_of (as_record (Some (rc_args rc))) ''url''))
                (str_of (map_of (rc_bindings rc) ''resource_url''))) []
      in case pf_url pf s None of Some u \<Rightarrow> protocol_name u | None \<Rightarrow> ''https'')"

definition trim_slash :: "string \<Rightarrow> string" where
  "trim_slash p = (if ends_with p ''/'' then butlast p else p)"

definition path_equals_or_extends :: "string \<Rightarrow> string \<Rightarrow> bool" where
  "path_equals_or_extends resource planned \<longleftrightarrow>
     resource = planned \<or> trim_slash planned = trim_slash resource
     \<or> starts_with (trim_slash planned) (trim_slash resource @ ''/'')"

definition key_covers :: "norm_url \<Rightarrow> string \<Rightarrow> bool" where
  "key_covers n k \<longleftrightarrow>
     (let path = js_join '':'' (drop 2 (js_split CHR '':'' k))
      in key_part k 1 = nu_host n \<and> path_equals_or_extends (if path = [] then ''/'' else path) (nu_path n))"

definition const_covers :: "platform \<Rightarrow> string \<Rightarrow> norm_url \<Rightarrow> json \<Rightarrow> bool" where
  "const_covers pf s n v \<longleftrightarrow>
     (case v of
        JStr c \<Rightarrow>
          (case normalize_http_url pf c of
             Some m \<Rightarrow> nu_href m = nu_href n \<or> (nu_host m = nu_host n \<and> nu_path m = nu_path n)
           | None \<Rightarrow> c = s)
      | _ \<Rightarrow> False)"

definition scope_reject :: "string \<Rightarrow> rejection option" where
  "scope_reject d = Some (reject VR3008 SScope d)"

definition assert_http_scope :: "platform \<Rightarrow> string \<Rightarrow> receipt \<Rightarrow> signature \<Rightarrow> source \<Rightarrow> string list \<Rightarrow> rejection option" where
  "assert_http_scope pf s rc sg origin keys =
     (let (userinfo, host) = inspect_raw_http_host s
      in if s = [] then scope_reject ''http url empty''
         else if userinfo then scope_reject ''url userinfo''
         else if ends_with host ''.'' then scope_reject ''trailing-dot host''
         else if host \<noteq> to_lower host then scope_reject ''host-case''
         else if list_ex (\<lambda>c. (of_char c :: nat) > 127) host then scope_reject ''IDN hostname''
         else case pf_url pf s None of
           None \<Rightarrow> scope_reject (''invalid url '' @ s)
         | Some parsed \<Rightarrow>
             if u_username parsed \<noteq> [] \<or> u_password parsed \<noteq> [] then scope_reject ''url userinfo''
             else case normalize_http_url pf s of
               None \<Rightarrow> scope_reject ''url normalize failed''
             | Some n \<Rightarrow>
                 if nu_host n \<notin> set (http_hosts pf rc keys) then scope_reject (''host '' @ nu_host n @ '' not in receipt'')
                 else if http_scheme pf rc = ''https'' \<and> u_protocol parsed = ''http:'' then scope_reject ''scheme downgrade''
                 else if list_ex (key_covers n) (filter_keys ''http:'' keys) then None
                 else if list_ex (const_covers pf s n) (map snd (orelse (sg_constants sg) []))
                         \<and> (origin = Registered \<or> origin = Builtin) then None
                 else scope_reject (''url '' @ nu_path n @ '' not in resource_keys''))"

section \<open>Scope of SQL, file and tool steps\<close>

text \<open>
  Comparison of a JSON number with an integer.  A non-integer is compared by its floor; numeric
  strings are read when they are non-negative integers, other values are incomparable.
\<close>

definition frac_floor :: "string \<Rightarrow> int" where
  "frac_floor s =
     (let neg = (s \<noteq> [] \<and> hd s = CHR ''-''); t = (if neg then tl s else s);
          ip = (if CHR ''e'' \<in> set s then 0 else int (read_nat (takeWhile is_digit t)))
      in if neg then - ip - 1 else ip)"

definition greater_than :: "json option \<Rightarrow> int \<Rightarrow> bool" where
  "greater_than v n \<longleftrightarrow>
     (case v of
        Some (JInt i) \<Rightarrow> i > n
      | Some (JFrac s) \<Rightarrow> frac_floor s \<ge> n
      | Some (JNonFinite s) \<Rightarrow> s = ''Infinity''
      | Some (JStr s) \<Rightarrow> (case js_index s of Some k \<Rightarrow> int k > n | None \<Rightarrow> False)
      | Some (JBool b) \<Rightarrow> (if b then 1 else 0) > n
      | Some JNull \<Rightarrow> 0 > n
      | _ \<Rightarrow> False)"

definition row_number :: "json option \<Rightarrow> int option option" where
  "row_number v = (case v of
      Some (JInt i) \<Rightarrow> Some (Some i) | Some (JFrac s) \<Rightarrow> Some (Some (frac_floor s))
    | Some (JNonFinite s) \<Rightarrow> Some None | _ \<Rightarrow> None)"

definition observed_row_count :: "receipt \<Rightarrow> int option" where
  "observed_row_count rc =
     (case rc_preimage rc of
        Some p \<Rightarrow> (case pi_rows p of Some n \<Rightarrow> Some n
           | None \<Rightarrow> (let rec = as_record (rc_result rc); at = (\<lambda>k. row_number (map_of rec k))
                      in orelse (orelse_opt (at ''rowcount'') (orelse_opt (at ''changes'') (at ''rowCount''))) None))
      | None \<Rightarrow> (let rec = as_record (rc_result rc); at = (\<lambda>k. row_number (map_of rec k))
                 in orelse (orelse_opt (at ''rowcount'') (orelse_opt (at ''changes'') (at ''rowCount''))) None))"

definition id_column :: "string \<Rightarrow> bool" where
  "id_column name \<longleftrightarrow> to_lower name \<in> set [''id'', ''pk'', ''uuid'', ''ulid''] \<or> ends_with name ''_id''"

definition key_columns :: "string \<Rightarrow> string list" where
  "key_columns k =
     (let pk = js_join '':'' (drop 4 (js_split CHR '':'' k))
      in filter (\<lambda>c. c \<noteq> []) (map (takeWhile (\<lambda>c. c \<noteq> CHR ''='')) (js_split CHR '','' pk)))"

definition pk_columns :: "string list \<Rightarrow> (string \<times> json) list \<Rightarrow> string list" where
  "pk_columns keys bindings =
     (let cols = uniq (concat (map key_columns (filter_keys ''sql:'' keys)))
      in if cols \<noteq> [] then cols else uniq (filter id_column (map fst bindings)))"

definition sql_tables :: "receipt \<Rightarrow> string list \<Rightarrow> string list" where
  "sql_tables rc keys =
     filter (\<lambda>t. t \<noteq> []) (map (\<lambda>k. to_lower (key_part k 3)) (filter_keys ''sql:'' keys))
     @ (case table_from_name (ac_name (rc_action rc)) of Some t \<Rightarrow> [to_lower t] | None \<Rightarrow> [])"

definition assert_sql_scope :: "json \<Rightarrow> (string \<times> json) list \<Rightarrow> receipt \<Rightarrow> string list \<Rightarrow> rejection option" where
  "assert_sql_scope step rec rc keys =
     (let table = to_lower (stringify (map_of rec ''table''));
          allowed = sql_tables rc keys;
          stmt = orelse (str_of (field step ''statement'')) [];
          wh = as_record (map_of rec ''where'');
          missing = List.find (\<lambda>c. map_of wh c = None) (pk_columns keys (rc_bindings rc));
          observed = observed_row_count rc;
          mx = obj_get (orelse (field step ''expect_rowcount'') JNull) ''max''
      in if allowed \<noteq> [] \<and> table \<notin> set allowed then scope_reject (''table '' @ table @ '' not in receipt'')
         else if (stmt = ''UPDATE'' \<or> stmt = ''DELETE'') \<and> missing \<noteq> None
         then scope_reject (''WHERE missing pk '' @ the missing)
         else case observed of
           Some n \<Rightarrow> if greater_than mx n then scope_reject (''expect_rowcount.max '' @ js_string_opt mx @ '' > observed '' @ show_int n)
                      else None
         | None \<Rightarrow> None)"

definition lexical_normalize :: "string \<Rightarrow> string" where
  "lexical_normalize p = (if starts_with p ''/'' then ''/'' else []) @ js_join ''/'' (resolve_segments (js_split CHR ''/'' p))"

definition resolve_fs_path :: "platform \<Rightarrow> string \<Rightarrow> string" where
  "resolve_fs_path pf p =
     (let lexical = lexical_normalize p;
          try_real = (\<lambda>q. if pf_exists pf q then pf_realpath pf q else None)
      in orelse (orelse_opt (try_real p) (try_real lexical)) lexical)"

definition fs_key_paths :: "string list \<Rightarrow> string list" where
  "fs_key_paths keys = map (drop 3) (filter_keys ''fs:'' keys)"

definition preimage_meta :: "receipt \<Rightarrow> (string \<times> json) list option" where
  "preimage_meta rc = (case rc_preimage rc of Some p \<Rightarrow> pi_meta p | None \<Rightarrow> None)"

definition identity_mismatch :: "platform \<Rightarrow> string \<Rightarrow> (string \<times> json) list \<Rightarrow> bool" where
  "identity_mismatch pf path meta \<longleftrightarrow>
     pf_exists pf path \<and>
     (case pf_lstat pf path of
        None \<Rightarrow> False
      | Some (dev, ino) \<Rightarrow>
          (case map_of meta ''dev'' of Some v \<Rightarrow> is_number v \<and> v \<noteq> JInt dev | None \<Rightarrow> False)
          \<or> (case map_of meta ''ino'' of Some v \<Rightarrow> is_number v \<and> v \<noteq> JInt ino | None \<Rightarrow> False))"

definition fs_allowed :: "receipt \<Rightarrow> string list \<Rightarrow> string list" where
  "fs_allowed rc keys =
     (let captured = str_of (map_of (orelse (preimage_meta rc) []) ''realpath'')
      in fs_key_paths keys @ (if nonempty captured then [the captured] else []))"

definition assert_fs_scope :: "platform \<Rightarrow> string \<Rightarrow> receipt \<Rightarrow> string list \<Rightarrow> rejection option" where
  "assert_fs_scope pf path rc keys =
     (let resolved = resolve_fs_path pf path; lexical = lexical_normalize path;
          meta = preimage_meta rc; allowed = fs_allowed rc keys
      in if allowed \<noteq> [] \<and> resolved \<notin> set allowed \<and> path \<notin> set allowed \<and> lexical \<notin> set allowed
         then scope_reject (''fs path '' @ resolved @ '' not in resource_keys'')
         else if meta \<noteq> None \<and> identity_mismatch pf resolved (the meta) then scope_reject ''fs (dev,ino) mismatch''
         else None)"

definition assert_fs_rename_scope :: "platform \<Rightarrow> string \<Rightarrow> string \<Rightarrow> receipt \<Rightarrow> string list \<Rightarrow> rejection option" where
  "assert_fs_rename_scope pf src dst rc keys =
     (case assert_fs_scope pf src rc keys of
        Some e \<Rightarrow> Some e
      | None \<Rightarrow>
          (let paths = fs_key_paths keys; resolved = resolve_fs_path pf dst
           in if paths \<noteq> [] \<and> resolved \<notin> set paths \<and> dst \<notin> set paths \<and> lexical_normalize dst \<notin> set paths
              then scope_reject (''fs rename to '' @ resolved @ '' not in resource_keys'') else None))"

definition is_id_path :: "string \<Rightarrow> bool" where
  "is_id_path path \<longleftrightarrow> to_lower (last (js_split CHR ''.'' path)) \<in> set [''id'', ''uuid'', ''ulid'', ''guid'', ''ts'',
     ''message_id'', ''channel'', ''channel_id'', ''chat_id'', ''user_id'', ''pk'']"

fun assert_id_refs :: "string \<Rightarrow> json \<Rightarrow> rejection option" where
  "assert_id_refs path (JArr vs) = first_err (\<lambda>i v. assert_id_refs (path @ ''['' @ show_nat i @ '']'') v) 0 vs"
| "assert_id_refs path (JObj kvs) =
     (case ref_of (JObj kvs) of
        Some s \<Rightarrow> if is_id_path path \<and> \<not> starts_with s ''receipt.''
                  then scope_reject (path @ '' id-shaped arg must be a receipt.* ref'') else None
      | None \<Rightarrow> first_err (\<lambda>_ (k, v). assert_id_refs (path @ ''.'' @ k) v) 0 kvs)"
| "assert_id_refs path v = None"

definition assert_mcp_scope :: "json \<Rightarrow> (string \<times> json) list \<Rightarrow> signature \<Rightarrow> rejection option" where
  "assert_mcp_scope step rec sg =
     (let tool = stringify (map_of rec ''tool'')
      in if tool \<notin> set (orelse (sg_permits sg) []) then scope_reject (''mcp tool '' @ tool @ '' not in permits'')
         else (case field step ''args'' of Some v \<Rightarrow> assert_id_refs ''args'' v | None \<Rightarrow> None))"

definition assert_step_scope :: "platform \<Rightarrow> json \<Rightarrow> json \<Rightarrow> receipt \<Rightarrow> signature \<Rightarrow> source \<Rightarrow> string list \<Rightarrow> rejection option" where
  "assert_step_scope pf step resolved rc sg origin keys =
     (let rec = as_record (Some resolved); kind = step_kind step; text = (\<lambda>k. stringify (map_of rec k))
      in if kind = ''http_request'' then assert_http_scope pf (text ''url'') rc sg origin keys
         else if kind = ''sql_statement'' then assert_sql_scope step rec rc keys
         else if kind = ''fs_restore'' then assert_fs_scope pf (text ''path'') rc keys
         else if kind = ''fs_rename'' then assert_fs_rename_scope pf (text ''from'') (text ''to'') rc keys
         else if kind = ''mcp_tool_call'' then assert_mcp_scope step rec sg
         else None)"

definition assert_scope :: "platform \<Rightarrow> json list \<Rightarrow> json list \<Rightarrow> receipt \<Rightarrow> signature \<Rightarrow> source \<Rightarrow> rejection option" where
  "assert_scope pf steps resolved rc sg origin =
     first_err (\<lambda>i step. case nth_opt resolved i of
        None \<Rightarrow> Some (reject VR3006 SScope (step_label i @ '' unresolved''))
      | Some v \<Rightarrow> assert_step_scope pf step v rc sg origin (rc_resource_keys rc)) 0 steps"

section \<open>Distinct resources\<close>

definition step_resource :: "platform \<Rightarrow> receipt \<Rightarrow> signature \<Rightarrow> json \<times> json \<Rightarrow> string list" where
  "step_resource pf rc sg sr =
     (case sr of (step, resolved) \<Rightarrow>
        (let rec = as_record (Some resolved); kind = step_kind step; text = (\<lambda>k. stringify (map_of rec k))
         in if kind = ''http_request'' then
              [case normalize_http_url pf (text ''url'') of
                 Some n \<Rightarrow> ''http:'' @ nu_host n @ '':'' @ nu_path n | None \<Rightarrow> ''http:unknown:'' @ text ''url'']
            else if kind = ''sql_statement'' then
              [''sql:'' @ js_string_opt (field step ''dialect'') @ '':'' @ orelse (ac_target (rc_action rc)) ''app'' @ '':'' @ text ''table'']
            else if kind = ''fs_restore'' then [''fs:'' @ resolve_fs_path pf (text ''path'')]
            else if kind = ''fs_rename'' then [''fs:'' @ resolve_fs_path pf (text ''from'')]
            else if kind = ''mcp_tool_call'' then [''mcp:'' @ sg_id sg @ '':'' @ text ''tool'']
            else []))"

definition mutating_resource_keys :: "platform \<Rightarrow> json list \<Rightarrow> json list \<Rightarrow> receipt \<Rightarrow> signature \<Rightarrow> string list" where
  "mutating_resource_keys pf steps resolved rc sg = concat (map (step_resource pf rc sg) (zip steps resolved))"

text \<open>The first key seen before.\<close>

fun repeated :: "string list \<Rightarrow> string list \<Rightarrow> string option" where
  "repeated seen [] = None"
| "repeated seen (k # ks) = (if k \<in> set seen then Some k else repeated (k # seen) ks)"

section \<open>Header templates and summaries\<close>

text \<open>\<^verbatim>\<open>{ $ref: "..." }\<close> with blanks, to the end of the text; \<open>ci\<close> ignores the case of \<^verbatim>\<open>$ref\<close>.\<close>

definition braced_ref :: "bool \<Rightarrow> string \<Rightarrow> string option" where
  "braced_ref ci s =
     (let t = dropWhile is_space (drop 1 s);
          word = (if ci then to_lower (take 5 t) else take 5 t);
          u = dropWhile is_space (drop 5 t);
          body = takeWhile (\<lambda>c. c \<noteq> CHR 0x22) (drop 1 u);
          r = dropWhile is_space (drop 1 (dropWhile (\<lambda>c. c \<noteq> CHR 0x22) (drop 1 u)))
      in if starts_with s ''{'' \<and> word = ''$ref:'' \<and> starts_with u [CHR 0x22] \<and> body \<noteq> []
            \<and> CHR 0x22 \<in> set (drop 1 u) \<and> r = ''}''
         then Some body else None)"

definition auth_words :: "string list" where
  "auth_words = [''bearer'', ''basic'', ''token'']"

definition scheme_ref :: "string \<Rightarrow> (string \<times> string) option" where
  "scheme_ref s =
     (case List.find (\<lambda>w. starts_with (to_lower s) w) auth_words of
        None \<Rightarrow> None
      | Some w \<Rightarrow>
          (let r = drop (length w) s
           in if r \<noteq> [] \<and> is_space (hd r)
              then map_option (Pair (take (length w) s)) (braced_ref True (dropWhile is_space r)) else None))"

definition ref_obj :: "string \<Rightarrow> json" where
  "ref_obj s = JObj [(''$ref'', JStr s)]"

fun expand_one :: "json \<Rightarrow> json" where
  "expand_one (JStr s) =
     (case scheme_ref s of
        Some (w, r) \<Rightarrow> JObj [(w, ref_obj r)]
      | None \<Rightarrow> (case braced_ref False s of Some r \<Rightarrow> ref_obj r | None \<Rightarrow> JStr s))"
| "expand_one (JArr vs) = JArr (map expand_one vs)"
| "expand_one (JObj kvs) = JObj (map (\<lambda>(k, v). (k, expand_one v)) kvs)"
| "expand_one v = v"

definition expand_step :: "json \<Rightarrow> json" where
  "expand_step step =
     (case step of
        JObj kvs \<Rightarrow>
          if step_kind step = ''http_request'' \<and> truthy (map_of kvs ''headers'')
          then JObj (AList.update ''headers''
                 (JObj (map (\<lambda>(k, v). (k, expand_one v)) (entries (the (map_of kvs ''headers''))))) kvs)
          else step
      | _ \<Rightarrow> step)"

function ref_label :: "json \<Rightarrow> string" where
  "ref_label v =
     (case ref_of v of
        Some s \<Rightarrow> s
      | None \<Rightarrow>
          (case v of
             JObj ((k, x) # _) \<Rightarrow> if truthy (Some x) then ref_label x else ''?''
           | _ \<Rightarrow> ''?''))"
  by pat_completeness auto
termination by (relation "measure size") auto

declare ref_label.simps [simp del]

definition label_of :: "json \<Rightarrow> string \<Rightarrow> string" where
  "label_of step k = (case field step k of Some v \<Rightarrow> ref_label v | None \<Rightarrow> ''?'')"

definition summarize_step :: "json \<Rightarrow> string" where
  "summarize_step step =
     (let kind = step_kind step; text = (\<lambda>k. js_string_opt (field step k))
      in if kind = ''http_request'' then text ''method'' @ '' '' @ label_of step ''url''
         else if kind = ''sql_statement'' then text ''statement'' @ '' '' @ label_of step ''table''
         else if kind = ''fs_restore'' then ''fs_restore '' @ label_of step ''path''
         else if kind = ''fs_rename'' then ''fs_rename '' @ label_of step ''from'' @ '' -> '' @ label_of step ''to''
         else if kind = ''mcp_tool_call'' then ''mcp '' @ label_of step ''tool''
         else if kind = ''noop'' then ''noop '' @ text ''reason''
         else ''manual'')"

definition summarize :: "json list \<Rightarrow> string" where
  "summarize steps = js_join ''; '' (map summarize_step steps)"

section \<open>Compilation\<close>

record compile_opts =
  co_origin :: "source option"
  co_now :: int
  co_plan_id :: "string option"
  co_steps :: "json list option"

datatype compile_result = Compiled plan | Rejected rejection | Threw

definition plan_hash :: "platform \<Rightarrow> string \<Rightarrow> string \<Rightarrow> source \<Rightarrow> json list \<Rightarrow> string option" where
  "plan_hash pf effect_id compensator_id origin steps =
     derive_plan_hash pf effect_id compensator_id (source_str origin) (JArr steps)"

definition window_expired :: "platform \<Rightarrow> receipt \<Rightarrow> int \<Rightarrow> bool" where
  "window_expired pf rc now \<longleftrightarrow>
     (case rc_compensable_until rc of
        Some s \<Rightarrow> s \<noteq> [] \<and> (case pf_date_parse pf s of Some t \<Rightarrow> t < now | None \<Rightarrow> False)
      | None \<Rightarrow> False)"

definition raw_steps :: "signature \<Rightarrow> compile_opts \<Rightarrow> json list option" where
  "raw_steps sg opts =
     orelse_opt (co_steps opts) (case sg_compensator sg of Declarative steps _ \<Rightarrow> Some steps | Programmatic _ _ \<Rightarrow> None)"

definition signature_postconditions :: "signature \<Rightarrow> postcondition list" where
  "signature_postconditions sg =
     (case sg_compensator sg of Declarative _ ps \<Rightarrow> orelse ps [] | Programmatic _ _ \<Rightarrow> [])"

text \<open>The checks on the expanded steps in their order, with the resolved values when all pass.\<close>

definition check_steps :: "platform \<Rightarrow> receipt \<Rightarrow> signature \<Rightarrow> source \<Rightarrow> json list \<Rightarrow> rejection + json list" where
  "check_steps pf rc sg origin steps =
     (case validate_closed_step_set steps of
        Some e \<Rightarrow> Inl (reject VR3005 SSchema e)
      | None \<Rightarrow>
     (case assert_provenance steps of
        Some e \<Rightarrow> Inl e
      | None \<Rightarrow>
      if origin = Drafted \<and> has_const_ref steps then Inl (reject VR3010 SCompile ''drafted plans may not use const.* refs'')
      else
     (case resolve_steps steps rc sg origin of
        Inl e \<Rightarrow> Inl e
      | Inr values \<Rightarrow>
     (case assert_credential_positions steps of
        Some e \<Rightarrow> Inl e
      | None \<Rightarrow>
     (case assert_unsafe_statements steps values rc of
        Some e \<Rightarrow> Inl e
      | None \<Rightarrow>
     (case assert_scope pf steps values rc sg origin of
        Some e \<Rightarrow> Inl e
      | None \<Rightarrow>
      if length steps > max_plan_steps then
        Inl (reject VR3011 SCompile (''plan has '' @ show_nat (length steps) @ '' steps; max is '' @ show_nat max_plan_steps))
      else
     (case repeated [] (mutating_resource_keys pf steps values rc sg) of
        Some k \<Rightarrow> Inl (reject VR3011 SCompile (''more than one mutating step for resource_key '' @ k))
      | None \<Rightarrow> Inr values)))))))"

definition compile_plan :: "platform \<Rightarrow> receipt \<Rightarrow> signature \<Rightarrow> compile_opts \<Rightarrow> compile_result" where
  "compile_plan pf rc sg opts =
     (let origin = orelse (co_origin opts) (sg_source sg); now = co_now opts
      in if window_expired pf rc now then Rejected (reject VR5007 SCompile ''window_expired'')
         else case raw_steps sg opts of
           None \<Rightarrow> Rejected (reject VR3005 SSchema
             ''programmatic compensator must be lowered to declarative steps before compilePlan'')
         | Some raw \<Rightarrow>
             if JNull \<in> set raw then Threw
             else
               (let steps = map expand_step raw
                in case check_steps pf rc sg origin steps of
                     Inl e \<Rightarrow> Rejected e
                   | Inr _ \<Rightarrow>
                       (case plan_hash pf (rc_effect_id rc) (sg_id sg) origin steps of
                          None \<Rightarrow> Threw
                        | Some h \<Rightarrow> Compiled
                            \<lparr>pl_plan_id = orelse (co_plan_id opts) ''cpl_pending'', pl_effect_id = rc_effect_id rc,
                             pl_saga_id = rc_saga_id rc, pl_compensator_id = sg_id sg, pl_origin = origin,
                             pl_steps = steps, pl_hash = h, pl_postconditions = signature_postconditions sg,
                             pl_completeness = sg_completeness sg, pl_leak = sg_leak sg,
                             pl_cascade_risk = sg_cascade_risk sg, pl_summary = summarize steps,
                             pl_created_at = pf_iso pf now\<rparr>)))"

section \<open>What the checks establish\<close>

text \<open>A value built from references of the closed set only: no literal, no malformed reference.\<close>

inductive provenanced :: "json \<Rightarrow> bool" where
  prov_ref: "is_ref_source s \<Longrightarrow> provenanced (ref_obj s)"
| prov_arr: "(\<And>v. v \<in> set vs \<Longrightarrow> provenanced v) \<Longrightarrow> provenanced (JArr vs)"
| prov_obj: "''$ref'' \<notin> fst ` set kvs \<Longrightarrow> (\<And>k v. (k, v) \<in> set kvs \<Longrightarrow> provenanced v) \<Longrightarrow> provenanced (JObj kvs)"

inductive_cases provenanced_arrE: "provenanced (JArr vs)"

inductive_cases provenanced_objE: "provenanced (JObj kvs)"

lemma provenanced_arr [simp]: "provenanced (JArr vs) \<longleftrightarrow> (\<forall>v \<in> set vs. provenanced v)"
  by (auto simp: ref_obj_def elim!: provenanced_arrE intro: prov_arr)

lemma ref_of_Some_iff: "ref_of v = Some s \<longleftrightarrow> v = ref_obj s"
  by (auto simp: ref_of_def ref_obj_def split: json.splits list.splits if_splits)

lemma ref_of_ref_obj [simp]: "ref_of (ref_obj s) = Some s"
  by (simp add: ref_of_Some_iff)

lemma provenanced_obj:
  "provenanced (JObj kvs) \<longleftrightarrow>
     (case ref_of (JObj kvs) of Some s \<Rightarrow> is_ref_source s
      | None \<Rightarrow> ''$ref'' \<notin> fst ` set kvs \<and> (\<forall>(k, v) \<in> set kvs. provenanced v))"
proof (cases "ref_of (JObj kvs)")
  case None
  then have "JObj kvs \<noteq> ref_obj s" for s using ref_of_Some_iff [of "JObj kvs" s] by auto
  with None show ?thesis by (auto elim!: provenanced_objE intro: prov_obj)
next
  case (Some s)
  then have "JObj kvs = ref_obj s" by (simp add: ref_of_Some_iff)
  with Some show ?thesis by (auto simp: ref_obj_def elim!: provenanced_objE intro: prov_ref [unfolded ref_obj_def])
qed

lemma provenanced_prim [simp]:
  "\<not> provenanced JNull" "\<not> provenanced (JBool b)" "\<not> provenanced (JInt i)" "\<not> provenanced (JFrac s)"
  "\<not> provenanced (JNonFinite s)" "\<not> provenanced (JStr s)"
  by (auto elim: provenanced.cases simp: ref_obj_def)

lemma first_err_None_set:
  "(\<And>i x. x \<in> set xs \<Longrightarrow> f i x = None \<longleftrightarrow> P x) \<Longrightarrow> first_err f n xs = None \<longleftrightarrow> (\<forall>x \<in> set xs. P x)"
  by (auto simp: first_err_None_iff all_set_conv_all_nth)

lemma assert_arg_value_iff: "assert_arg_value path v = None \<longleftrightarrow> provenanced v"
proof (induction v arbitrary: path)
  case (JArr vs)
  then show ?case by (auto simp: first_err_None_set)
next
  case (JObj kvs)
  have "first_err (\<lambda>i (k, v). assert_arg_value (path @ ''.'' @ k) v) 0 kvs = None \<longleftrightarrow> (\<forall>(k, v) \<in> set kvs. provenanced v)"
    using JObj by (intro first_err_None_set) (auto split: prod.splits)
  moreover have "map_of kvs ''$ref'' = None \<longleftrightarrow> ''$ref'' \<notin> fst ` set kvs" by (rule map_of_eq_None_iff)
  moreover have "ref_of (JObj kvs) = Some s \<Longrightarrow> map_of kvs ''$ref'' \<noteq> None" for s
    by (auto simp: ref_of_Some_iff ref_obj_def)
  ultimately show ?case by (auto simp: provenanced_obj split: option.splits)
qed simp_all

definition args_provenanced :: "json \<Rightarrow> bool" where
  "args_provenanced step \<longleftrightarrow> (\<forall>(p, v) \<in> set (arg_positions step). \<exists>w. v = Some w \<and> provenanced w)"

lemma assert_provenance_iff: "assert_provenance steps = None \<longleftrightarrow> (\<forall>s \<in> set steps. args_provenanced s)"
  unfolding assert_provenance_def args_provenanced_def
  by (intro first_err_None_set)
    (auto simp: assert_position_def Let_def assert_arg_value_iff split: option.splits)

text \<open>A reference to a credential anywhere inside a value.\<close>

fun has_credential :: "json \<Rightarrow> bool" where
  "has_credential (JArr vs) = list_ex has_credential vs"
| "has_credential (JObj kvs) =
     (case ref_of (JObj kvs) of Some s \<Rightarrow> starts_with s ''credential.'' | None \<Rightarrow> list_ex (\<lambda>(k, v). has_credential v) kvs)"
| "has_credential _ = False"

lemma check_credentials_iff: "check_credentials i True path v = None \<longleftrightarrow> \<not> has_credential v"
proof (induction v arbitrary: path)
  case (JArr vs)
  then show ?case by (auto simp: first_err_None_set list_ex_iff)
next
  case (JObj kvs)
  have "first_err (\<lambda>_ (k, v). check_credentials i True (path @ ''.'' @ k) v) 0 kvs = None
      \<longleftrightarrow> (\<forall>kv \<in> set kvs. \<not> has_credential (snd kv))"
    using JObj by (intro first_err_None_set) (auto split: prod.splits)
  then show ?case by (auto simp: list_ex_iff split: option.splits prod.splits)
qed simp_all

definition credential_free :: "json \<Rightarrow> string list \<Rightarrow> bool" where
  "credential_free step ks \<longleftrightarrow> (\<forall>k \<in> set ks. \<forall>v. field step k = Some v \<longrightarrow> \<not> has_credential v)"

text \<open>Where a credential may not stand: everywhere but headers and tool arguments.\<close>

definition guarded_fields :: "string \<Rightarrow> string list" where
  "guarded_fields kind =
     (if kind = ''http_request'' then [''url'', ''body'']
      else if kind = ''sql_statement'' then [''table'', ''where'', ''set'', ''values'']
      else if kind = ''fs_restore'' then [''path'', ''source'']
      else if kind = ''fs_rename'' then [''from'', ''to'']
      else if kind = ''mcp_tool_call'' then [''tool''] else [])"

lemma orelse_opt_None [simp]: "orelse_opt a b = None \<longleftrightarrow> a = None \<and> b = None"
  by (cases a) simp_all

lemma check_field_iff: "check_field i step True k = None \<longleftrightarrow> (\<forall>v. field step k = Some v \<longrightarrow> \<not> has_credential v)"
  by (auto simp: check_field_def check_credentials_iff split: option.splits)

lemma walk_credentials_None: "walk_credentials i step = None \<Longrightarrow> credential_free step (guarded_fields (step_kind step))"
  by (auto simp: walk_credentials_def credential_free_def guarded_fields_def Let_def check_field_iff split: if_splits)

lemma all_ok_map_Inr [simp]: "all_ok (map Inr vs) = Inr vs"
  by (induction vs) simp_all

lemma all_ok_InrD: "all_ok rs = Inr vs \<Longrightarrow> rs = map Inr vs"
  by (induction rs arbitrary: vs) (auto split: sum.splits)

lemma all_ok_Inr: "all_ok rs = Inr vs \<longleftrightarrow> rs = map Inr vs"
  using all_ok_InrD by auto

lemma repeated_None: "repeated seen ks = None \<longleftrightarrow> distinct ks \<and> set ks \<inter> set seen = {}"
  by (induction seen ks rule: repeated.induct) auto

text \<open>The conditions under which the checks pass.\<close>

lemma check_steps_Inr:
  assumes "check_steps pf rc sg origin steps = Inr vals"
  shows "validate_closed_step_set steps = None"
    and "\<forall>s \<in> set steps. args_provenanced s"
    and "origin = Drafted \<Longrightarrow> \<not> has_const_ref steps"
    and "map (resolve_deep rc sg origin) steps = map Inr vals"
    and "assert_credential_positions steps = None"
    and "assert_unsafe_statements steps vals rc = None"
    and "assert_scope pf steps vals rc sg origin = None"
    and "length steps \<le> max_plan_steps"
    and "distinct (mutating_resource_keys pf steps vals rc sg)"
  using assms
  by (auto simp: check_steps_def assert_provenance_iff [symmetric] resolve_steps_def all_ok_Inr repeated_None
      split: option.splits sum.splits if_splits)

lemma compile_plan_Compiled:
  assumes "compile_plan pf rc sg opts = Compiled p"
  obtains raw vals where "raw_steps sg opts = Some raw" "pl_steps p = map expand_step raw"
    "pl_origin p = orelse (co_origin opts) (sg_source sg)" "\<not> window_expired pf rc (co_now opts)"
    "check_steps pf rc sg (pl_origin p) (pl_steps p) = Inr vals" "length vals = length (pl_steps p)"
    "pl_effect_id p = rc_effect_id rc" "pl_saga_id p = rc_saga_id rc" "pl_compensator_id p = sg_id sg"
    "plan_hash pf (pl_effect_id p) (pl_compensator_id p) (pl_origin p) (pl_steps p) = Some (pl_hash p)"
proof -
  from assms obtain raw vals where c: "raw_steps sg opts = Some raw" "pl_steps p = map expand_step raw"
    "pl_origin p = orelse (co_origin opts) (sg_source sg)" "\<not> window_expired pf rc (co_now opts)"
    "check_steps pf rc sg (pl_origin p) (pl_steps p) = Inr vals"
    "pl_effect_id p = rc_effect_id rc" "pl_saga_id p = rc_saga_id rc" "pl_compensator_id p = sg_id sg"
    "plan_hash pf (pl_effect_id p) (pl_compensator_id p) (pl_origin p) (pl_steps p) = Some (pl_hash p)"
    by (auto simp: compile_plan_def Let_def split: option.splits sum.splits if_splits)
  from check_steps_Inr(4) [OF c(5)] have "length vals = length (pl_steps p)" by (metis length_map)
  with that c show thesis by blast
qed

lemma step_at:
  assumes "check_steps pf rc sg origin steps = Inr vals" "i < length steps"
  shows "resolve_deep rc sg origin (steps ! i) = Inr (vals ! i)"
    and "walk_credentials i (steps ! i) = None"
    and "unsafe_step rc i (steps ! i, vals ! i) = None"
    and "assert_step_scope pf (steps ! i) (vals ! i) rc sg origin (rc_resource_keys rc) = None"
proof -
  note c = check_steps_Inr [OF assms(1)]
  have len: "length vals = length steps" using c(4) by (metis length_map)
  with c(4) assms(2) show "resolve_deep rc sg origin (steps ! i) = Inr (vals ! i)" by (metis nth_map)
  show "walk_credentials i (steps ! i) = None"
    using c(5) assms(2) by (auto simp: assert_credential_positions_def first_err_None_iff)
  show "unsafe_step rc i (steps ! i, vals ! i) = None"
    using c(6) assms(2) len by (auto simp: assert_unsafe_statements_def first_err_None_iff)
  show "assert_step_scope pf (steps ! i) (vals ! i) rc sg origin (rc_resource_keys rc) = None"
    using c(7) assms(2) len
    by (auto simp: assert_scope_def first_err_None_iff nth_opt_Some_iff nth_opt_None_iff split: option.splits)
qed

definition closed_step :: "json \<Rightarrow> bool" where
  "closed_step step \<longleftrightarrow> (\<exists>rec. step = JObj rec \<and> step_kind step \<in> set step_kinds
     \<and> fst ` set rec \<subseteq> set (allowed_keys (step_kind step)))"

lemma validate_step_closed:
  assumes "validate_step i step = None"
  shows "closed_step step"
proof (cases step)
  case (JObj rec)
  obtain knd where k: "map_of rec ''kind'' = Some (JStr knd)"
  proof (cases "map_of rec ''kind''")
    case None
    with assms JObj show ?thesis by (simp add: validate_step_def Let_def)
  next
    case (Some v)
    with assms JObj that show ?thesis by (cases v) (simp_all add: validate_step_def Let_def)
  qed
  have "knd \<in> set step_kinds"
    by (rule ccontr) (use assms k JObj in \<open>simp add: validate_step_def\<close>)
  moreover have "filter (\<lambda>k. k \<notin> set (allowed_keys knd)) (map fst rec) = []"
    by (rule ccontr) (use assms k JObj calculation in \<open>simp add: validate_step_def Let_def\<close>)
  ultimately show ?thesis
    using k JObj by (auto simp: closed_step_def step_kind_def field_def str_of_def filter_empty_conv)
qed (use assms in \<open>simp_all add: validate_step_def\<close>)

lemma validate_closed: "validate_closed_step_set steps = None \<Longrightarrow> steps \<noteq> [] \<and> (\<forall>s \<in> set steps. closed_step s)"
  using validate_step_closed
  by (auto simp: validate_closed_step_set_def first_err_None_iff in_set_conv_nth split: if_splits) blast+

section \<open>A sample plan\<close>

text \<open>One step of every mutating kind, for the instances of the theorems below.\<close>

definition sample_steps :: "json list" where
  "sample_steps =
     [JObj [(''kind'', JStr ''http_request''), (''method'', JStr ''DELETE''),
            (''url'', ref_obj ''receipt.bindings.resource_url''),
            (''expect'', JObj [(''status_in'', JArr [JInt 204])])],
      JObj [(''kind'', JStr ''sql_statement''), (''dialect'', JStr ''sqlite''), (''statement'', JStr ''DELETE''),
            (''table'', ref_obj ''receipt.args.table''),
            (''where'', JObj [(''id'', ref_obj ''receipt.bindings.id'')]),
            (''expect_rowcount'', JObj [(''min'', JInt 0), (''max'', JInt 1)])],
      JObj [(''kind'', JStr ''fs_restore''), (''path'', ref_obj ''receipt.args.path''),
            (''source'', ref_obj ''receipt.preimage.blob'')],
      JObj [(''kind'', JStr ''mcp_tool_call''), (''tool'', ref_obj ''receipt.args.tool''),
            (''args'', JObj [(''id'', ref_obj ''receipt.bindings.id'')])]]"

definition sample_receipt :: receipt where
  "sample_receipt = \<lparr>rc_effect_id = ''e'', rc_saga_id = ''s'', rc_seq = 1,
     rc_action = \<lparr>ac_kind = AHttp, ac_name = ''http.POST.h/p'', ac_version = None, ac_target = None, ac_locality = External\<rparr>,
     rc_tier = T3,
     rc_args = JObj [(''table'', JStr ''t''), (''path'', JStr ''/w/x''), (''tool'', JStr ''undo'')],
     rc_result = Some (JObj [(''rowcount'', JInt 1)]),
     rc_bindings = [(''resource_url'', JStr ''https://h/p/1''), (''id'', JInt 7)],
     rc_resource_keys = [''http:h:/p'', ''sql:sqlite:app:t:id=7'', ''fs:/w/x''],
     rc_preimage = Some \<lparr>pi_kind = FsBytes, pi_blob_id = Some ''b'', pi_bytes = None, pi_rows = None,
       pi_truncated = False, pi_meta = None\<rparr>,
     rc_status = Landed, rc_comp_state = Available, rc_compensator_id = None, rc_leak = NoLeak,
     rc_cascade_risk = NoRisk, rc_compensable_until = None\<rparr>"

definition sample_plan_signature :: signature where
  "sample_plan_signature = (sample_signature ''c'' Drafted MStar)
     \<lparr>sg_compensator := Declarative sample_steps None, sg_permits := Some [''undo'']\<rparr>"

definition sample_opts :: compile_opts where
  "sample_opts = \<lparr>co_origin = None, co_now = 0, co_plan_id = None, co_steps = None\<rparr>"

lemma sample_expand: "map expand_step sample_steps = sample_steps"
  by code_simp

lemma sample_check: "\<exists>vs. check_steps sample_platform sample_receipt sample_plan_signature Drafted sample_steps = Inr vs"
proof -
  have "(case check_steps sample_platform sample_receipt sample_plan_signature Drafted sample_steps of Inr _ \<Rightarrow> True | _ \<Rightarrow> False)"
    by code_simp
  then show ?thesis by (auto split: sum.splits)
qed

lemma sample_plan_hash: "plan_hash sample_platform ''e'' ''c'' Drafted sample_steps \<noteq> None"
proof -
  have "canonicalize (plan_hash_body ''e'' ''c'' (source_str Drafted) (JArr sample_steps)) \<noteq> None" by code_simp
  then show ?thesis by (auto simp: plan_hash_def derive_plan_hash_def hash_jcs_def)
qed

definition sample_plan :: plan where
  "sample_plan = (case compile_plan sample_platform sample_receipt sample_plan_signature sample_opts of Compiled p \<Rightarrow> p)"

lemma sample_compiled:
  "compile_plan sample_platform sample_receipt sample_plan_signature sample_opts = Compiled sample_plan"
  "pl_steps sample_plan = sample_steps" "pl_origin sample_plan = Drafted"
proof -
  have facts: "raw_steps sample_plan_signature sample_opts = Some sample_steps" "JNull \<notin> set sample_steps"
    "\<not> window_expired sample_platform sample_receipt (co_now sample_opts)"
    "orelse (co_origin sample_opts) (sg_source sample_plan_signature) = Drafted"
    "rc_effect_id sample_receipt = ''e''" "sg_id sample_plan_signature = ''c''"
    by code_simp+
  obtain vs h where vh: "check_steps sample_platform sample_receipt sample_plan_signature Drafted sample_steps = Inr vs"
      "plan_hash sample_platform ''e'' ''c'' Drafted sample_steps = Some h"
    using sample_check sample_plan_hash by blast
  have ex: "\<exists>p. compile_plan sample_platform sample_receipt sample_plan_signature sample_opts = Compiled p
      \<and> pl_steps p = sample_steps \<and> pl_origin p = Drafted"
    by (simp add: compile_plan_def facts vh sample_expand)
  then show "compile_plan sample_platform sample_receipt sample_plan_signature sample_opts = Compiled sample_plan"
    "pl_steps sample_plan = sample_steps" "pl_origin sample_plan = Drafted"
    by (auto simp: sample_plan_def)
qed

section \<open>Properties of compiled plans\<close>

text \<open>
  C12: a compiled plan is well formed: it has between one and eight steps of the closed set with only
  the fields of their kind, no two steps that change the same resource, an unexpired compensation
  window, and a hash that commits to effect, compensator, origin and steps.
\<close>

theorem compile_plan_well_formed:
  assumes "compile_plan pf rc sg opts = Compiled p"
  shows "pl_steps p \<noteq> [] \<and> length (pl_steps p) \<le> 8 \<and> (\<forall>s \<in> set (pl_steps p). closed_step s)
    \<and> \<not> window_expired pf rc (co_now opts)
    \<and> pl_effect_id p = rc_effect_id rc \<and> pl_saga_id p = rc_saga_id rc \<and> pl_compensator_id p = sg_id sg
    \<and> plan_hash pf (rc_effect_id rc) (sg_id sg) (pl_origin p) (pl_steps p) = Some (pl_hash p)
    \<and> (\<exists>vs. map (resolve_deep rc sg (pl_origin p)) (pl_steps p) = map Inr vs
         \<and> distinct (mutating_resource_keys pf (pl_steps p) vs rc sg))"
proof (rule compile_plan_Compiled [OF assms])
  fix raw vs
  assume c: "\<not> window_expired pf rc (co_now opts)" "check_steps pf rc sg (pl_origin p) (pl_steps p) = Inr vs"
    "pl_effect_id p = rc_effect_id rc" "pl_saga_id p = rc_saga_id rc" "pl_compensator_id p = sg_id sg"
    "plan_hash pf (pl_effect_id p) (pl_compensator_id p) (pl_origin p) (pl_steps p) = Some (pl_hash p)"
  note k = check_steps_Inr [OF c(2)]
  from k(8) have "length (pl_steps p) \<le> 8" by (simp add: max_plan_steps_def)
  with validate_closed [OF k(1)] k(4,9) c show ?thesis by auto
qed

theorem compile_plan_well_formed_witness: "length (pl_steps sample_plan) \<le> 8 \<and> pl_effect_id sample_plan = ''e''"
  using compile_plan_well_formed [OF sample_compiled(1)] by (simp add: sample_receipt_def)




definition sample_sql_step :: json where
  "sample_sql_step = sample_steps ! 1"


text \<open>
  C15: HTTP steps stay on the resource they undo: the URL of a compiled HTTP step carries no user
  information, its host is one the receipt observed, and its path equals or extends the path of
  a resource key on that host; only a plan that is not drafted may reach another address, and
  then one fixed by a constant of its signature.
\<close>

theorem compile_plan_http_scope:
  assumes "compile_plan pf rc sg opts = Compiled p" "s \<in> set (pl_steps p)" "step_kind s = ''http_request''"
  shows "\<exists>v n u. resolve_deep rc sg (pl_origin p) s = Inr v
    \<and> (let addr = stringify (map_of (as_record (Some v)) ''url'')
       in normalize_http_url pf addr = Some n \<and> pf_url pf addr None = Some u
          \<and> \<not> fst (inspect_raw_http_host addr) \<and> u_username u = [] \<and> u_password u = []
          \<and> nu_host n \<in> set (http_hosts pf rc (rc_resource_keys rc))
          \<and> \<not> (http_scheme pf rc = ''https'' \<and> u_protocol u = ''http:'')
          \<and> ((\<exists>k \<in> set (rc_resource_keys rc). starts_with k ''http:'' \<and> key_covers n k)
             \<or> (pl_origin p \<noteq> Drafted \<and> (\<exists>c \<in> set (orelse (sg_constants sg) []). const_covers pf addr n (snd c)))))"
proof (rule compile_plan_Compiled [OF assms(1)])
  fix raw vs
  assume c: "check_steps pf rc sg (pl_origin p) (pl_steps p) = Inr vs"
  from assms(2) obtain i where i: "i < length (pl_steps p)" "s = pl_steps p ! i" by (auto simp: in_set_conv_nth)
  note at = step_at [OF c i(1), folded i(2)]
  let ?addr = "stringify (map_of (as_record (Some (vs ! i))) ''url'')"
  have sc: "assert_http_scope pf ?addr rc sg (pl_origin p) (rc_resource_keys rc) = None"
    using at(4) assms(3) by (simp add: assert_step_scope_def)
  obtain ui host where raw: "inspect_raw_http_host ?addr = (ui, host)" by force
  from sc raw obtain u n where un: "pf_url pf ?addr None = Some u" "normalize_http_url pf ?addr = Some n"
    by (auto simp: assert_http_scope_def scope_reject_def split: if_splits option.splits)
  have rest: "\<not> ui" "u_username u = []" "u_password u = []"
      "nu_host n \<in> set (http_hosts pf rc (rc_resource_keys rc))"
      "\<not> (http_scheme pf rc = ''https'' \<and> u_protocol u = ''http:'')"
      "list_ex (key_covers n) (filter_keys ''http:'' (rc_resource_keys rc))
       \<or> (list_ex (const_covers pf ?addr n) (map snd (orelse (sg_constants sg) []))
          \<and> (pl_origin p = Registered \<or> pl_origin p = Builtin))"
    using sc raw un by (auto simp: assert_http_scope_def scope_reject_def split: if_splits)
  then have cov: "(\<exists>k \<in> set (rc_resource_keys rc). starts_with k ''http:'' \<and> key_covers n k)
      \<or> (pl_origin p \<noteq> Drafted \<and> (\<exists>c \<in> set (orelse (sg_constants sg) []). const_covers pf ?addr n (snd c)))"
    by (auto simp: list_ex_iff filter_keys_def simp del: starts_with_Cons)
  show ?thesis
    unfolding Let_def
    by (intro exI [of _ "vs ! i"] exI [of _ n] exI [of _ u]) (use at(1) un rest raw cov in \<open>simp del: starts_with_Cons\<close>)
qed

theorem compile_plan_http_scope_witness:
  "\<exists>n. normalize_http_url sample_platform ''https://h/p/1'' = Some n
     \<and> nu_host n \<in> set (http_hosts sample_platform sample_receipt (rc_resource_keys sample_receipt))"
proof -
  have facts: "sample_steps ! 0 \<in> set (pl_steps sample_plan)" "step_kind (sample_steps ! 0) = ''http_request''"
    unfolding sample_compiled(2) by code_simp+
  from compile_plan_http_scope [OF sample_compiled(1) facts] obtain v n where
    v: "resolve_deep sample_receipt sample_plan_signature Drafted (sample_steps ! 0) = Inr v"
    and n: "normalize_http_url sample_platform (stringify (map_of (as_record (Some v)) ''url'')) = Some n"
      "nu_host n \<in> set (http_hosts sample_platform sample_receipt (rc_resource_keys sample_receipt))"
    by (auto simp: Let_def sample_compiled(3))
  have "(case resolve_deep sample_receipt sample_plan_signature Drafted (sample_steps ! 0) of
      Inr w \<Rightarrow> stringify (map_of (as_record (Some w)) ''url'') = ''https://h/p/1'' | _ \<Rightarrow> False)"
    by code_simp
  with v n show ?thesis by auto
qed

text \<open>
  File and tool steps stay within the receipt: a compiled restore addresses a file among the
  receipt's file keys or its captured path (when the receipt has any), and a compiled tool call
  names a tool its signature permits, with every id-shaped argument taken from the receipt.
\<close>

theorem compile_plan_fs_mcp_scope:
  assumes "compile_plan pf rc sg opts = Compiled p" "s \<in> set (pl_steps p)"
  shows "\<exists>v. resolve_deep rc sg (pl_origin p) s = Inr v
    \<and> (let rec = as_record (Some v); path = stringify (map_of rec ''path'');
            allowed = set (fs_allowed rc (rc_resource_keys rc))
        in (step_kind s = ''fs_restore'' \<and> allowed \<noteq> {} \<longrightarrow>
              path \<in> allowed \<or> lexical_normalize path \<in> allowed \<or> resolve_fs_path pf path \<in> allowed)
           \<and> (step_kind s = ''mcp_tool_call'' \<longrightarrow>
              stringify (map_of rec ''tool'') \<in> set (orelse (sg_permits sg) [])
              \<and> (\<forall>a. field s ''args'' = Some a \<longrightarrow> assert_id_refs ''args'' a = None)))"
proof (rule compile_plan_Compiled [OF assms(1)])
  fix raw vs
  assume c: "check_steps pf rc sg (pl_origin p) (pl_steps p) = Inr vs"
  from assms(2) obtain i where i: "i < length (pl_steps p)" "s = pl_steps p ! i" by (auto simp: in_set_conv_nth)
  note at = step_at [OF c i(1), folded i(2)]
  let ?rec = "as_record (Some (vs ! i))"
  have fs: "assert_fs_scope pf (stringify (map_of ?rec ''path'')) rc (rc_resource_keys rc) = None"
    if "step_kind s = ''fs_restore''"
    using at(4) that by (simp add: assert_step_scope_def)
  have mcp: "assert_mcp_scope s ?rec sg = None" if "step_kind s = ''mcp_tool_call''"
    using at(4) that by (simp add: assert_step_scope_def)
  have 1: "stringify (map_of ?rec ''path'') \<in> set (fs_allowed rc (rc_resource_keys rc))
      \<or> lexical_normalize (stringify (map_of ?rec ''path'')) \<in> set (fs_allowed rc (rc_resource_keys rc))
      \<or> resolve_fs_path pf (stringify (map_of ?rec ''path'')) \<in> set (fs_allowed rc (rc_resource_keys rc))"
    if "step_kind s = ''fs_restore''" "set (fs_allowed rc (rc_resource_keys rc)) \<noteq> {}"
    using fs [OF that(1)] that(2) by (auto simp: assert_fs_scope_def Let_def scope_reject_def split: if_splits)
  have 2: "stringify (map_of ?rec ''tool'') \<in> set (orelse (sg_permits sg) [])
      \<and> (\<forall>a. field s ''args'' = Some a \<longrightarrow> assert_id_refs ''args'' a = None)"
    if "step_kind s = ''mcp_tool_call''"
    using mcp [OF that] by (auto simp: assert_mcp_scope_def Let_def scope_reject_def split: if_splits)
  show ?thesis
    unfolding Let_def by (intro exI [of _ "vs ! i"]) (use at(1) 1 2 in blast)
qed

theorem compile_plan_fs_mcp_scope_witness:
  "\<exists>v. resolve_deep sample_receipt sample_plan_signature Drafted (sample_steps ! 3) = Inr v
     \<and> stringify (map_of (as_record (Some v)) ''tool'') \<in> set (orelse (sg_permits sample_plan_signature) [])"
proof -
  have facts: "sample_steps ! 3 \<in> set (pl_steps sample_plan)" "step_kind (sample_steps ! 3) = ''mcp_tool_call''"
    unfolding sample_compiled(2) by code_simp+
  from compile_plan_fs_mcp_scope [OF sample_compiled(1) facts(1)] facts(2) show ?thesis
    by (auto simp: Let_def sample_compiled(3))
qed

end
