(* ===== verification/Leases.thy ===== *)
theory Leases
  imports Plan
begin

text \<open>
  Leases with fences: the coordinator store (\<^verbatim>\<open>sdk-ts/src/coordinate/store.ts\<close>), the lease operations of
  the in-memory and the SQL ledger (\<^verbatim>\<open>sdk-ts/src/ledger/types.ts\<close>) and the client that takes the leases
  of a plan (\<^verbatim>\<open>sdk-ts/src/engine/lease.ts\<close>).

  Times are milliseconds; ISO texts of times compare as the times do.  Each store operation is one
  transaction.  The client works against the lease part of the \<^verbatim>\<open>Ledger\<close> interface, the record
  \<open>lease_api\<close>; the locale \<open>lease_store\<close> states what the client relies on, \<open>fenced_store\<close> adds fences
  that never repeat, and the three stores are its interpretations.
\<close>

section \<open>The interface\<close>

record lease =
  ls_holder :: string
  ls_acquired :: int
  ls_expires :: int
  ls_fence :: int

text \<open>Acquire yields the fence and the expiry, or nothing for VR5005; release and renew report VR5010
  as \<open>False\<close> and \<open>None\<close>.\<close>

record ('s, 't) lease_api =
  la_acquire :: "'s \<Rightarrow> string \<Rightarrow> string \<Rightarrow> 't \<Rightarrow> int \<Rightarrow> 's \<times> (int \<times> int) option"
  la_release :: "'s \<Rightarrow> string \<Rightarrow> string \<Rightarrow> int \<Rightarrow> 's \<times> bool"
  la_renew :: "'s \<Rightarrow> string \<Rightarrow> string \<Rightarrow> int \<Rightarrow> 't \<Rightarrow> int \<Rightarrow> 's \<times> int option"
  la_get :: "'s \<Rightarrow> string \<Rightarrow> lease option"

definition matches :: "lease option \<Rightarrow> string \<Rightarrow> int \<Rightarrow> bool" where
  "matches l holder fence \<longleftrightarrow> (case l of Some x \<Rightarrow> ls_holder x = holder \<and> ls_fence x = fence | None \<Rightarrow> False)"

text \<open>A lease of another holder that has not expired.\<close>

definition blocks :: "lease option \<Rightarrow> string \<Rightarrow> int \<Rightarrow> bool" where
  "blocks l holder now \<longleftrightarrow> (case l of Some x \<Rightarrow> ls_holder x \<noteq> holder \<and> ls_expires x > now | None \<Rightarrow> False)"

section \<open>The coordinator store\<close>

datatype claim_state = Claimed | Committed

record claim =
  cm_holder :: string
  cm_fence :: int
  cm_saga_id :: string
  cm_plan_hash :: string
  cm_state :: claim_state
  cm_updated :: int

record coord =
  co_leases :: "string \<rightharpoonup> lease"
  co_high :: "string \<rightharpoonup> int"
  co_claims :: "string \<rightharpoonup> claim"

definition coord_empty :: coord where
  "coord_empty = \<lparr>co_leases = (\<lambda>_. None), co_high = (\<lambda>_. None), co_claims = (\<lambda>_. None)\<rparr>"

definition ttl_min :: int where "ttl_min = 1"
definition ttl_max :: int where "ttl_max = 300000"
definition ttl_default :: int where "ttl_default = 30000"

definition clamp_ttl :: "json option \<Rightarrow> int" where
  "clamp_ttl ttl =
     (case ttl of
        Some (JInt i) \<Rightarrow> min ttl_max (max ttl_min i)
      | Some (JFrac s) \<Rightarrow> min ttl_max (max ttl_min (frac_floor s))
      | _ \<Rightarrow> ttl_default)"

definition high_water :: "coord \<Rightarrow> string \<Rightarrow> int" where
  "high_water s key = orelse (co_high s key) 0"

definition set_high_water :: "coord \<Rightarrow> string \<Rightarrow> int \<Rightarrow> coord" where
  [simp]: "set_high_water s key fence = s\<lparr>co_high := (co_high s)(key \<mapsto> fence)\<rparr>"

definition get_claim :: "coord \<Rightarrow> string \<Rightarrow> claim option" where
  [simp]: "get_claim s key = co_claims s key"

definition coord_get :: "coord \<Rightarrow> string \<Rightarrow> lease option" where
  "coord_get s key = co_leases s key"

definition coord_acquire :: "coord \<Rightarrow> string \<Rightarrow> string \<Rightarrow> json option \<Rightarrow> int \<Rightarrow> coord \<times> (int \<times> int) option" where
  "coord_acquire s key holder ttl now =
     (if blocks (coord_get s key) holder now then (s, None)
      else
        let fence = high_water s key + 1; expires = now + clamp_ttl ttl
        in (set_high_water
              (s\<lparr>co_leases := (co_leases s)(key \<mapsto> \<lparr>ls_holder = holder, ls_acquired = now, ls_expires = expires, ls_fence = fence\<rparr>)\<rparr>)
              key fence,
            Some (fence, expires)))"

definition coord_renew :: "coord \<Rightarrow> string \<Rightarrow> string \<Rightarrow> int \<Rightarrow> json option \<Rightarrow> int \<Rightarrow> coord \<times> int option" where
  "coord_renew s key holder fence ttl now =
     (if matches (coord_get s key) holder fence then
        let expires = now + clamp_ttl ttl
        in (s\<lparr>co_leases := (co_leases s)(key \<mapsto> (the (coord_get s key))\<lparr>ls_expires := expires\<rparr>)\<rparr>, Some expires)
      else (s, None))"

definition coord_release :: "coord \<Rightarrow> string \<Rightarrow> string \<Rightarrow> int \<Rightarrow> coord \<times> bool" where
  "coord_release s key holder fence =
     (if coord_get s key = None then (s, True)
      else if \<not> matches (coord_get s key) holder fence then (s, False)
      else (s\<lparr>co_leases := (co_leases s)(key := None)\<rparr>, True))"

record conflict_input =
  ci_key :: string
  ci_holder :: string
  ci_fence :: int
  ci_saga_id :: string
  ci_plan_hash :: string
  ci_error_code :: "string option"
  ci_commit :: bool

record verdict_winner =
  vw_holder :: string
  vw_fence :: int
  vw_saga_id :: string
  vw_plan_hash :: string
  vw_state :: claim_state

datatype conflict_verdict = Winner verdict_winner | Loser verdict_winner | VerdictInDoubt

definition as_winner :: "claim \<Rightarrow> verdict_winner" where
  "as_winner c = \<lparr>vw_holder = cm_holder c, vw_fence = cm_fence c, vw_saga_id = cm_saga_id c,
     vw_plan_hash = cm_plan_hash c, vw_state = cm_state c\<rparr>"

definition foreign :: "conflict_input \<Rightarrow> claim \<Rightarrow> bool" where
  "foreign x c \<longleftrightarrow> cm_holder c \<noteq> ci_holder x \<or> cm_fence c \<noteq> ci_fence x"

text \<open>\<^verbatim>\<open>conflict\<close>; the wall clock it reads is the argument \<open>now\<close>.\<close>

definition coord_conflict :: "coord \<Rightarrow> conflict_input \<Rightarrow> int \<Rightarrow> coord \<times> conflict_verdict" where
  "coord_conflict s x now =
     (let key = ci_key x; lease = coord_get s key; claim = get_claim s key
      in if ci_error_code x = Some ''VR5006'' then
           (case claim of
              Some c \<Rightarrow> if foreign x c then (s, Loser (as_winner c)) else (s, VerdictInDoubt)
            | None \<Rightarrow> (s, VerdictInDoubt))
         else if lease \<noteq> None \<and> \<not> matches lease (ci_holder x) (ci_fence x) \<and> ls_expires (the lease) > now then
           (s, Loser (case claim of
              Some c \<Rightarrow> as_winner c
            | None \<Rightarrow> \<lparr>vw_holder = ls_holder (the lease), vw_fence = ls_fence (the lease), vw_saga_id = [],
                       vw_plan_hash = [], vw_state = Claimed\<rparr>))
         else if claim \<noteq> None \<and> cm_state (the claim) = Committed \<and> foreign x (the claim) then
           (s, Loser (as_winner (the claim)))
         else
           (let state = (if ci_commit x \<or> (claim \<noteq> None \<and> cm_state (the claim) = Committed) then Committed else Claimed);
                saved = \<lparr>cm_holder = ci_holder x, cm_fence = ci_fence x, cm_saga_id = ci_saga_id x,
                         cm_plan_hash = ci_plan_hash x, cm_state = state, cm_updated = now\<rparr>
            in (s\<lparr>co_claims := (co_claims s)(key \<mapsto> saved)\<rparr>, Winner (as_winner saved))))"

definition coord_api :: "(coord, json option) lease_api" where
  "coord_api = \<lparr>la_acquire = coord_acquire, la_release = coord_release, la_renew = coord_renew, la_get = coord_get\<rparr>"

section \<open>The leases of the ledgers\<close>

type_synonym lease_map = "string \<rightharpoonup> lease"

definition lease_ttl :: "int option \<Rightarrow> int" where
  "lease_ttl ttl = orelse ttl 30000"

definition mem_get :: "lease_map \<Rightarrow> string \<Rightarrow> lease option" where
  "mem_get s key = s key"

definition next_fence :: "lease option \<Rightarrow> int" where
  "next_fence l = (case l of Some x \<Rightarrow> ls_fence x + 1 | None \<Rightarrow> 1)"

definition mem_acquire :: "lease_map \<Rightarrow> string \<Rightarrow> string \<Rightarrow> int option \<Rightarrow> int \<Rightarrow> lease_map \<times> (int \<times> int) option" where
  "mem_acquire s key holder ttl now =
     (if blocks (s key) holder now then (s, None)
      else
        let fence = next_fence (s key); expires = now + lease_ttl ttl
        in (s(key \<mapsto> \<lparr>ls_holder = holder, ls_acquired = now, ls_expires = expires, ls_fence = fence\<rparr>), Some (fence, expires)))"

definition mem_release :: "lease_map \<Rightarrow> string \<Rightarrow> string \<Rightarrow> int \<Rightarrow> lease_map \<times> bool" where
  "mem_release s key holder fence =
     (if s key = None then (s, True)
      else if \<not> matches (s key) holder fence then (s, False)
      else (s(key := None), True))"

definition mem_renew :: "lease_map \<Rightarrow> string \<Rightarrow> string \<Rightarrow> int \<Rightarrow> int option \<Rightarrow> int \<Rightarrow> lease_map \<times> int option" where
  "mem_renew s key holder fence ttl now =
     (if matches (s key) holder fence then
        let expires = now + lease_ttl ttl in (s(key \<mapsto> (the (s key))\<lparr>ls_expires := expires\<rparr>), Some expires)
      else (s, None))"

definition mem_api :: "(lease_map, int option) lease_api" where
  "mem_api = \<lparr>la_acquire = mem_acquire, la_release = mem_release, la_renew = mem_renew, la_get = mem_get\<rparr>"

text \<open>
  The SQL ledger deletes every expired row first; a failed transaction is rolled back.  On PostgreSQL
  the \<^verbatim>\<open>FOR UPDATE SKIP LOCKED\<close> select has no effect on the result of one transaction.
\<close>

definition purge_expired :: "lease_map \<Rightarrow> int \<Rightarrow> lease_map" where
  "purge_expired s now = (\<lambda>k. case s k of Some x \<Rightarrow> if ls_expires x < now then None else Some x | None \<Rightarrow> None)"

definition sql_acquire :: "lease_map \<Rightarrow> string \<Rightarrow> string \<Rightarrow> int option \<Rightarrow> int \<Rightarrow> lease_map \<times> (int \<times> int) option" where
  "sql_acquire s key holder ttl now =
     (let s1 = purge_expired s now
      in if blocks (s1 key) holder now then (s, None)
         else
           let fence = next_fence (s1 key); expires = now + lease_ttl ttl
           in (s1(key \<mapsto> \<lparr>ls_holder = holder, ls_acquired = now, ls_expires = expires, ls_fence = fence\<rparr>), Some (fence, expires)))"

text \<open>The guarded \<^verbatim>\<open>DELETE\<close> and \<^verbatim>\<open>UPDATE\<close> statements of the SQL ledger repeat the test on holder and fence.\<close>

definition sql_release :: "lease_map \<Rightarrow> string \<Rightarrow> string \<Rightarrow> int \<Rightarrow> lease_map \<times> bool" where
  "sql_release s key holder fence =
     (if s key = None then (s, True)
      else if \<not> matches (s key) holder fence then (s, False)
      else ((\<lambda>k. if k = key \<and> matches (s k) holder fence then None else s k), True))"

definition sql_renew :: "lease_map \<Rightarrow> string \<Rightarrow> string \<Rightarrow> int \<Rightarrow> int option \<Rightarrow> int \<Rightarrow> lease_map \<times> int option" where
  "sql_renew s key holder fence ttl now =
     (let expires = now + lease_ttl ttl
      in if \<not> matches (s key) holder fence then (s, None)
         else ((\<lambda>k. if k = key \<and> matches (s k) holder fence then map_option (ls_expires_update (\<lambda>_. expires)) (s k) else s k),
               Some expires))"

definition sql_get :: "lease_map \<Rightarrow> string \<Rightarrow> lease option" where
  "sql_get s key = s key"

definition sql_api :: "(lease_map, int option) lease_api" where
  "sql_api = \<lparr>la_acquire = sql_acquire, la_release = sql_release, la_renew = sql_renew, la_get = sql_get\<rparr>"

section \<open>The client\<close>

record held =
  hd_holder :: string
  hd_fences :: "string \<rightharpoonup> int"
  hd_expires :: "string \<rightharpoonup> int"

definition no_leases :: "string \<Rightarrow> held" where
  "no_leases holder = \<lparr>hd_holder = holder, hd_fences = (\<lambda>_. None), hd_expires = (\<lambda>_. None)\<rparr>"

definition is_shared_lease_ledger :: "string option \<Rightarrow> bool" where
  "is_shared_lease_ledger kind \<longleftrightarrow> kind = Some ''postgres'' \<or> kind = Some ''http''"

definition lease_holder :: "string \<Rightarrow> string \<Rightarrow> string \<Rightarrow> string" where
  "lease_holder process_id saga_id attempt_id = process_id @ '':'' @ saga_id @ '':'' @ attempt_id"

definition sorted_resource_keys :: "string list \<Rightarrow> string list" where
  "sorted_resource_keys keys = sort (uniq keys)"

text \<open>One pass over the keys: all leases, or the ones taken before the first refusal.\<close>

fun acquire_pass :: "('s, 't) lease_api \<Rightarrow> 't \<Rightarrow> int \<Rightarrow> string list \<Rightarrow> 's \<Rightarrow> held \<Rightarrow> 's \<times> held \<times> bool" where
  "acquire_pass api ttl now [] s h = (s, h, True)"
| "acquire_pass api ttl now (k # ks) s h =
     (case la_acquire api s k (hd_holder h) ttl now of
        (s', None) \<Rightarrow> (s', h, False)
      | (s', Some (f, e)) \<Rightarrow>
          acquire_pass api ttl now ks s' (h\<lparr>hd_fences := (hd_fences h)(k \<mapsto> f), hd_expires := (hd_expires h)(k \<mapsto> e)\<rparr>))"

text \<open>\<^verbatim>\<open>releaseAll\<close>: in the order given by the caller's reversed keys; \<open>False\<close> is the VR5010 it throws.\<close>

fun release_loop :: "('s, 't) lease_api \<Rightarrow> held \<Rightarrow> string list \<Rightarrow> 's \<Rightarrow> 's \<times> bool" where
  "release_loop api h [] s = (s, True)"
| "release_loop api h (k # ks) s =
     (case hd_fences h k of
        None \<Rightarrow> release_loop api h ks s
      | Some f \<Rightarrow>
          (case la_release api s k (hd_holder h) f of
             (s', ok) \<Rightarrow> if ok then release_loop api h ks s' else (s', False)))"

definition release_all :: "('s, 't) lease_api \<Rightarrow> string list \<Rightarrow> held \<Rightarrow> 's \<Rightarrow> 's \<times> bool" where
  "release_all api keys h s = release_loop api h (rev keys) s"

text \<open>
  \<^verbatim>\<open>acquireAll\<close>: \<open>start\<close> is the time at which it is called, \<open>clock n\<close> the time of the \<open>n\<close>-th pass and
  \<open>env n\<close> what other processes do to the store while the client sleeps after it.  The fuel bounds the
  number of passes; \<open>None\<close> is a run that is still polling.  The length of the sleep only shows in
  \<open>clock\<close>; it is at least one millisecond.
\<close>

datatype acquired = AllHeld held | LeaseUnavailable

fun acquire_loop :: "nat \<Rightarrow> ('s, 't) lease_api \<Rightarrow> 't \<Rightarrow> int \<Rightarrow> (nat \<Rightarrow> int) \<Rightarrow> (nat \<Rightarrow> 's \<Rightarrow> 's) \<Rightarrow> string
    \<Rightarrow> string list \<Rightarrow> nat \<Rightarrow> 's \<Rightarrow> ('s \<times> acquired) option" where
  "acquire_loop 0 api ttl deadline clock env holder keys n s = None"
| "acquire_loop (Suc fuel) api ttl deadline clock env holder keys n s =
     (case acquire_pass api ttl (clock n) keys s (no_leases holder) of
        (s1, h, True) \<Rightarrow> Some (s1, AllHeld h)
      | (s1, h, False) \<Rightarrow>
          (let s2 = fst (release_all api keys h s1)
           in if clock n < deadline
              then acquire_loop fuel api ttl deadline clock env holder keys (Suc n) (env n s2)
              else Some (s2, LeaseUnavailable)))"

definition acquire_all :: "nat \<Rightarrow> ('s, 't) lease_api \<Rightarrow> 't \<Rightarrow> int \<Rightarrow> int \<Rightarrow> (nat \<Rightarrow> int) \<Rightarrow> (nat \<Rightarrow> 's \<Rightarrow> 's) \<Rightarrow> string
    \<Rightarrow> string list \<Rightarrow> 's \<Rightarrow> ('s \<times> acquired) option" where
  "acquire_all fuel api ttl wait start clock env holder keys s =
     (let ks = sorted_resource_keys keys
      in if ks = [] then Some (s, AllHeld (no_leases holder))
         else acquire_loop fuel api ttl (start + wait) clock env holder ks 0 s)"

fun heartbeat_all :: "('s, 't) lease_api \<Rightarrow> 't \<Rightarrow> int \<Rightarrow> string list \<Rightarrow> 's \<Rightarrow> held \<Rightarrow> 's \<times> held \<times> bool" where
  "heartbeat_all api ttl now [] s h = (s, h, True)"
| "heartbeat_all api ttl now (k # ks) s h =
     (case hd_fences h k of
        None \<Rightarrow> heartbeat_all api ttl now ks s h
      | Some f \<Rightarrow>
          (case la_renew api s k (hd_holder h) f ttl now of
             (s', None) \<Rightarrow> (s', h, False)
           | (s', Some e) \<Rightarrow> heartbeat_all api ttl now ks s' (h\<lparr>hd_expires := (hd_expires h)(k \<mapsto> e)\<rparr>)))"

datatype fence_status = FenceOk | Fenced | FenceExpired | HeldElsewhere | FenceMissing

definition inspect_fence :: "('s, 't) lease_api \<Rightarrow> 's \<Rightarrow> string \<Rightarrow> held \<Rightarrow> int \<Rightarrow> fence_status" where
  "inspect_fence api s key h now =
     (case la_get api s key of
        None \<Rightarrow> FenceMissing
      | Some l \<Rightarrow>
          if hd_fences h key \<noteq> None \<and> hd_fences h key \<noteq> Some (ls_fence l) then Fenced
          else if ls_holder l \<noteq> hd_holder h then (if ls_expires l > now then HeldElsewhere else Fenced)
          else if ls_expires l \<le> now then FenceExpired
          else FenceOk)"

definition assert_fences :: "('s, 't) lease_api \<Rightarrow> 's \<Rightarrow> string list \<Rightarrow> held \<Rightarrow> int \<Rightarrow> bool" where
  "assert_fences api s keys h now \<longleftrightarrow> list_all (\<lambda>k. inspect_fence api s k h now = FenceOk) keys"

definition lacks :: "('s, 't) lease_api \<Rightarrow> 's \<Rightarrow> string \<Rightarrow> bool" where
  "lacks api s holder \<longleftrightarrow> (\<forall>k l. la_get api s k = Some l \<longrightarrow> ls_holder l \<noteq> holder)"

section \<open>What a client relies on\<close>

locale lease_store =
  fixes api :: "('s, 't) lease_api" and good_ttl :: "'t \<Rightarrow> bool"
  assumes grant_alive: "good_ttl ttl \<Longrightarrow> la_acquire api s k h ttl now = (s', Some (f, e)) \<Longrightarrow> now < e"
    and acquire_blocked: "blocks (la_get api s k) h now \<Longrightarrow> la_acquire api s k h ttl now = (s, None)"
    and acquire_free: "\<not> blocks (la_get api s k) h now \<Longrightarrow> snd (la_acquire api s k h ttl now) \<noteq> None"
    and acquire_grant: "la_acquire api s k h ttl now = (s', Some (f, e)) \<Longrightarrow>
      \<exists>l. la_get api s' k = Some l \<and> ls_holder l = h \<and> ls_fence l = f \<and> ls_expires l = e"
    and acquire_other: "la_acquire api s k h ttl now = (s', r) \<Longrightarrow> k' \<noteq> k \<Longrightarrow>
      la_get api s' k' = la_get api s k'
      \<or> (la_get api s' k' = None \<and> (\<exists>l. la_get api s k' = Some l \<and> ls_expires l < now))"
    and release_match: "matches (la_get api s k) h f \<Longrightarrow> la_release api s k h f = (s', ok) \<Longrightarrow>
      ok \<and> la_get api s' k = None \<and> (\<forall>k'. k' \<noteq> k \<longrightarrow> la_get api s' k' = la_get api s k')"
    and release_none: "la_get api s k = None \<Longrightarrow> la_release api s k h f = (s, True)"
    and release_fenced: "la_get api s k = Some l \<Longrightarrow> \<not> matches (la_get api s k) h f \<Longrightarrow> la_release api s k h f = (s, False)"
    and renew_match: "matches (la_get api s k) h f \<Longrightarrow> la_renew api s k h f ttl now = (s', expiry) \<Longrightarrow>
      \<exists>e. expiry = Some e \<and> la_get api s' k = Some ((the (la_get api s k))\<lparr>ls_expires := e\<rparr>)
        \<and> (\<forall>k'. k' \<noteq> k \<longrightarrow> la_get api s' k' = la_get api s k')"
    and renew_fenced: "\<not> matches (la_get api s k) h f \<Longrightarrow> la_renew api s k h f ttl now = (s, None)"
begin

lemma acquire_None_same:
  assumes "la_acquire api s k h ttl now = (s', None)"
  shows "s' = s"
  using assms acquire_free [of s k h now ttl] acquire_blocked [of s k h now ttl] by fastforce

text \<open>Everything the client has recorded is in the store, and every lease of the client is recorded.\<close>

definition recorded :: "int \<Rightarrow> 's \<Rightarrow> held \<Rightarrow> bool" where
  "recorded now s h \<longleftrightarrow> (\<forall>k f. hd_fences h k = Some f \<longrightarrow>
     (\<exists>l. la_get api s k = Some l \<and> ls_holder l = hd_holder h \<and> ls_fence l = f \<and> now < ls_expires l))"

definition nothing_else :: "'s \<Rightarrow> held \<Rightarrow> bool" where
  "nothing_else s h \<longleftrightarrow> (\<forall>k l. la_get api s k = Some l \<longrightarrow> ls_holder l = hd_holder h \<longrightarrow> hd_fences h k = Some (ls_fence l))"

lemma recorded_no_leases: "recorded now s (no_leases holder)"
  by (simp add: recorded_def no_leases_def)

lemma recorded_fence_ok:
  assumes "recorded now s h" "hd_fences h k = Some f"
  shows "inspect_fence api s k h now = FenceOk"
  using assms by (fastforce simp: recorded_def inspect_fence_def)

lemma acquire_recorded:
  assumes acq: "la_acquire api s k (hd_holder h) ttl now = (s', Some (f, e))" and "good_ttl ttl"
    and "recorded now s h"
  shows "recorded now s' (h\<lparr>hd_fences := (hd_fences h)(k \<mapsto> f), hd_expires := (hd_expires h)(k \<mapsto> e)\<rparr>)"
proof -
  from acquire_grant [OF acq] obtain l where l: "la_get api s' k = Some l" "ls_holder l = hd_holder h"
      "ls_fence l = f" "ls_expires l = e" by blast
  have "now < e" using grant_alive [OF assms(2) acq] .
  moreover have "la_get api s' k' = la_get api s k'" if "hd_fences h k' \<noteq> None" "k' \<noteq> k" for k'
    using acquire_other [OF acq that(2)] assms(3) that(1) by (fastforce simp: recorded_def)
  ultimately show ?thesis using assms(3) l by (fastforce simp: recorded_def)
qed

lemma acquire_nothing_else:
  assumes acq: "la_acquire api s k (hd_holder h) ttl now = (s', Some (f, e))" and "nothing_else s h"
  shows "nothing_else s' (h\<lparr>hd_fences := (hd_fences h)(k \<mapsto> f), hd_expires := (hd_expires h)(k \<mapsto> e)\<rparr>)"
proof -
  from acquire_grant [OF acq] obtain l where l: "la_get api s' k = Some l" "ls_fence l = f" by blast
  have "la_get api s' k' = la_get api s k' \<or> la_get api s' k' = None" if "k' \<noteq> k" for k'
    using acquire_other [OF acq that] by (elim disjE) simp_all
  with assms(2) l show ?thesis by (fastforce simp: nothing_else_def)
qed

lemma acquire_pass_recorded:
  assumes "acquire_pass api ttl now ks s h = (s', h', ok)" "good_ttl ttl" "recorded now s h"
  shows "recorded now s' h' \<and> hd_holder h' = hd_holder h \<and> dom (hd_fences h') \<subseteq> dom (hd_fences h) \<union> set ks
    \<and> dom (hd_fences h) \<subseteq> dom (hd_fences h') \<and> (ok \<longrightarrow> set ks \<subseteq> dom (hd_fences h'))
    \<and> (nothing_else s h \<longrightarrow> nothing_else s' h')"
  using assms
proof (induction ks arbitrary: s h)
  case Nil
  then show ?case by simp
next
  case (Cons k ks)
  show ?case
  proof (cases "la_acquire api s k (hd_holder h) ttl now")
    case (Pair s1 r)
    show ?thesis
    proof (cases r)
      case None
      with Pair acquire_None_same have "s1 = s" by blast
      with Pair None Cons.prems show ?thesis by auto
    next
      case (Some fe)
      obtain f e where fe: "fe = (f, e)" by (cases fe)
      let ?h1 = "h\<lparr>hd_fences := (hd_fences h)(k \<mapsto> f), hd_expires := (hd_expires h)(k \<mapsto> e)\<rparr>"
      have acq: "la_acquire api s k (hd_holder h) ttl now = (s1, Some (f, e))" using Pair Some fe by simp
      have rest: "acquire_pass api ttl now ks s1 ?h1 = (s', h', ok)" using Cons.prems(1) acq by simp
      have "nothing_else s h \<longrightarrow> nothing_else s1 ?h1" using acquire_nothing_else [OF acq] by simp
      have d: "dom (hd_fences ?h1) = insert k (dom (hd_fences h))" by simp
      note ih = Cons.IH [OF rest Cons.prems(2) acquire_recorded [OF acq Cons.prems(2,3)], unfolded d]
      have "hd_holder h' = hd_holder h" using ih by simp
      moreover have "dom (hd_fences h') \<subseteq> dom (hd_fences h) \<union> set (k # ks)" "dom (hd_fences h) \<subseteq> dom (hd_fences h')"
          "ok \<longrightarrow> set (k # ks) \<subseteq> dom (hd_fences h')"
        using ih [THEN conjunct2, THEN conjunct2] unfolding list.set by blast+
      ultimately show ?thesis using ih \<open>nothing_else s h \<longrightarrow> nothing_else s1 ?h1\<close> by argo
    qed
  qed
qed

text \<open>Releasing distinct keys that are recorded correctly succeeds and removes exactly those leases.\<close>

definition in_store :: "'s \<Rightarrow> held \<Rightarrow> string set \<Rightarrow> bool" where
  "in_store s h A \<longleftrightarrow> (\<forall>k \<in> A. \<forall>f. hd_fences h k = Some f \<longrightarrow> matches (la_get api s k) (hd_holder h) f)"

lemma release_loop_clears:
  assumes "release_loop api h ks s = (s', ok)" "distinct ks" "in_store s h (set ks)"
  shows "ok \<and> (\<forall>k. la_get api s' k = (if k \<in> set ks \<and> hd_fences h k \<noteq> None then None else la_get api s k))"
  using assms
proof (induction ks arbitrary: s)
  case Nil
  then show ?case by simp
next
  case (Cons k ks)
  show ?case
  proof (cases "hd_fences h k")
    case None
    with Cons.prems have "release_loop api h ks s = (s', ok)" "in_store s h (set ks)" by (simp_all add: in_store_def)
    with Cons.IH [of s] Cons.prems(2) None show ?thesis by auto
  next
    case (Some f)
    obtain s1 ok1 where rel: "la_release api s k (hd_holder h) f = (s1, ok1)" by fastforce
    have "matches (la_get api s k) (hd_holder h) f" using Cons.prems(3) Some by (simp add: in_store_def)
    from release_match [OF this rel] have r: "ok1" "la_get api s1 k = None"
        "\<And>k'. k' \<noteq> k \<Longrightarrow> la_get api s1 k' = la_get api s k'" by auto
    have "in_store s1 h (set ks)" using Cons.prems(2,3) r(3) by (fastforce simp: in_store_def)
    moreover have "release_loop api h ks s1 = (s', ok)" using Cons.prems(1) Some rel r(1) by simp
    ultimately have "ok \<and> (\<forall>k. la_get api s' k = (if k \<in> set ks \<and> hd_fences h k \<noteq> None then None else la_get api s1 k))"
      using Cons.IH [of s1] Cons.prems(2) by force
    then have ok and get: "\<And>j. la_get api s' j = (if j \<in> set ks \<and> hd_fences h j \<noteq> None then None else la_get api s1 j)"
      by blast+
    have "la_get api s' j = (if j \<in> set (k # ks) \<and> hd_fences h j \<noteq> None then None else la_get api s j)" for j
      using get [of j] r(2) r(3) [of j] Some by (cases "j = k") auto
    with \<open>ok\<close> show ?thesis by blast
  qed
qed

text \<open>After a refused pass the leases it took are gone.\<close>

lemma refused_pass_releases:
  assumes "acquire_pass api ttl now ks s (no_leases holder) = (s1, h1, ok)" "good_ttl ttl" "distinct ks"
    and "lacks api s holder" "release_all api ks h1 s1 = (s2, ok2)"
  shows "lacks api s2 holder"
proof -
  have "nothing_else s (no_leases holder)" using assms(4) by (auto simp: nothing_else_def no_leases_def lacks_def)
  with acquire_pass_recorded [OF assms(1,2) recorded_no_leases]
  have p: "recorded now s1 h1" "hd_holder h1 = holder" "dom (hd_fences h1) \<subseteq> set ks" "nothing_else s1 h1"
    by (auto simp: no_leases_def)
  have "in_store s1 h1 (set (rev ks))" using p(1) by (fastforce simp: in_store_def recorded_def matches_def)
  with release_loop_clears [of h1 "rev ks" s1 s2 ok2] assms(3,5)
  have get: "la_get api s2 k = (if k \<in> set ks \<and> hd_fences h1 k \<noteq> None then None else la_get api s1 k)" for k
    by (simp add: release_all_def)
  have "ls_holder l \<noteq> holder" if "la_get api s2 k = Some l" for k l
  proof -
    from that get [of k] have "k \<notin> set ks \<or> hd_fences h1 k = None" "la_get api s1 k = Some l"
      by (auto split: if_splits)
    then show ?thesis using p(2,3,4) by (auto simp: nothing_else_def)
  qed
  then show ?thesis by (simp add: lacks_def)
qed

lemma acquire_loop_outcome:
  assumes "acquire_loop fuel api ttl deadline clock env holder ks n s = Some (s', r)" "good_ttl ttl" "distinct ks"
    and "lacks api s holder" and env: "\<And>n s. lacks api s holder \<Longrightarrow> lacks api (env n s) holder"
  shows "(\<forall>h. r = AllHeld h \<longrightarrow> hd_holder h = holder \<and> dom (hd_fences h) = set ks \<and> (\<exists>m. assert_fences api s' ks h (clock m)))
    \<and> (r = LeaseUnavailable \<longrightarrow> lacks api s' holder)"
  using assms(1,4)
proof (induction fuel arbitrary: n s)
  case 0
  then show ?case by simp
next
  case (Suc fuel)
  obtain s1 h1 ok where pass: "acquire_pass api ttl (clock n) ks s (no_leases holder) = (s1, h1, ok)"
    by (metis surj_pair)
  note rec = acquire_pass_recorded [OF pass assms(2) recorded_no_leases]
  show ?case
  proof (cases ok)
    case True
    with Suc.prems(1) pass have "s' = s1" "r = AllHeld h1" by simp_all
    moreover have d: "dom (hd_fences h1) = set ks" "hd_holder h1 = holder" "recorded (clock n) s1 h1"
      using rec True by (auto simp: no_leases_def)
    moreover have "inspect_fence api s1 k h1 (clock n) = FenceOk" if "k \<in> set ks" for k
      using that d(1) recorded_fence_ok [OF d(3), of k] by blast
    then have "assert_fences api s1 ks h1 (clock n)" by (simp add: assert_fences_def list_all_iff)
    ultimately show ?thesis by blast
  next
    case False
    obtain s2 ok2 where rel: "release_all api ks h1 s1 = (s2, ok2)" by fastforce
    note clean = refused_pass_releases [OF pass assms(2,3) Suc.prems(2) rel]
    show ?thesis
    proof (cases "clock n < deadline")
      case True
      with Suc.prems(1) pass False rel
      have "acquire_loop fuel api ttl deadline clock env holder ks (Suc n) (env n s2) = Some (s', r)" by simp
      from Suc.IH [OF this env [OF clean]] show ?thesis .
    next
      case late: False
      with Suc.prems(1) pass False rel have "s' = s2" "r = LeaseUnavailable" by simp_all
      with clean show ?thesis by simp
    qed
  qed
qed

end

text \<open>
  A store whose fences never repeat: \<open>high\<close> is the greatest fence granted for a key, every grant is
  above it, and a lease in the store carries exactly it.
\<close>

locale fenced_store = lease_store api good_ttl
  for api :: "('s, 't) lease_api" and good_ttl :: "'t \<Rightarrow> bool" +
  fixes inv :: "'s \<Rightarrow> bool" and high :: "'s \<Rightarrow> string \<Rightarrow> int"
  assumes lease_high: "inv s \<Longrightarrow> la_get api s k = Some l \<Longrightarrow> ls_fence l = high s k"
    and acquire_inv: "inv s \<Longrightarrow> la_acquire api s k h ttl now = (s', r) \<Longrightarrow> inv s'"
    and release_inv: "inv s \<Longrightarrow> la_release api s k h f = (s', ok) \<Longrightarrow> inv s'"
    and renew_inv: "inv s \<Longrightarrow> la_renew api s k h f ttl now = (s', x) \<Longrightarrow> inv s'"
    and grant_high: "inv s \<Longrightarrow> la_acquire api s k h ttl now = (s', Some (f, e)) \<Longrightarrow>
      high s k < f \<and> high s' = (high s)(k := f)"
    and release_high: "la_release api s k h f = (s', ok) \<Longrightarrow> high s' = high s"
    and renew_high: "la_renew api s k h f ttl now = (s', x) \<Longrightarrow> high s' = high s"
begin

lemma acquire_high_mono:
  assumes "inv s" "la_acquire api s k h ttl now = (s', r)"
  shows "high s k' \<le> high s' k'"
proof (cases r)
  case None
  with assms(2) acquire_None_same show ?thesis by blast
next
  case (Some fe)
  with assms grant_high [of s k h ttl now s' "fst fe" "snd fe"] show ?thesis by simp
qed

text \<open>A client whose fence is below the greatest one never passes the fence check.\<close>

lemma stale_not_ok:
  assumes "inv s" "hd_fences h k = Some f" "f < high s k"
  shows "inspect_fence api s k h now \<noteq> FenceOk"
  using assms lease_high [of s k] by (auto simp: inspect_fence_def split: option.splits)

text \<open>Two clients that both pass the fence check of a key are the same holder with the same fence.\<close>

lemma ok_unique:
  assumes "inspect_fence api s k h now = FenceOk" "inspect_fence api s k h' now' = FenceOk"
    and "hd_fences h k \<noteq> None" "hd_fences h' k \<noteq> None"
  shows "hd_holder h = hd_holder h' \<and> hd_fences h k = hd_fences h' k"
  using assms by (auto simp: inspect_fence_def split: option.splits if_splits)

end

section \<open>The stores implement the interfaces\<close>

lemma clamp_ttl_range: "1 \<le> clamp_ttl ttl \<and> clamp_ttl ttl \<le> 300000"
  by (simp add: clamp_ttl_def ttl_min_def ttl_max_def ttl_default_def split: option.split json.split)

lemma blocks_None [simp]: "\<not> blocks None h now"
  by (simp add: blocks_def)

lemma matches_Some [simp]: "matches (Some l) h f \<longleftrightarrow> ls_holder l = h \<and> ls_fence l = f"
  by (simp add: matches_def)

lemma matches_None [simp]: "\<not> matches None h f"
  by (simp add: matches_def)

lemma coord_api_simps [simp]:
  "la_acquire coord_api = coord_acquire" "la_release coord_api = coord_release"
  "la_renew coord_api = coord_renew" "la_get coord_api = coord_get"
  by (simp_all add: coord_api_def)

lemma mem_api_simps [simp]:
  "la_acquire mem_api = mem_acquire" "la_release mem_api = mem_release"
  "la_renew mem_api = mem_renew" "la_get mem_api = mem_get"
  by (simp_all add: mem_api_def)

lemma sql_api_simps [simp]:
  "la_acquire sql_api = sql_acquire" "la_release sql_api = sql_release"
  "la_renew sql_api = sql_renew" "la_get sql_api = sql_get"
  by (simp_all add: sql_api_def)

lemmas coord_ops = coord_acquire_def coord_release_def coord_renew_def coord_get_def Let_def

lemma coord_acquire_Some:
  assumes "coord_acquire s k h ttl now = (s', Some (f, e))"
  shows "\<not> blocks (coord_get s k) h now \<and> f = high_water s k + 1 \<and> e = now + clamp_ttl ttl
    \<and> s' = s\<lparr>co_leases := (co_leases s)(k \<mapsto> \<lparr>ls_holder = h, ls_acquired = now, ls_expires = e, ls_fence = f\<rparr>),
             co_high := (co_high s)(k \<mapsto> f)\<rparr>"
  using assms by (auto simp: coord_acquire_def Let_def split: if_splits)

definition fences_current :: "coord \<Rightarrow> bool" where
  "fences_current s \<longleftrightarrow> (\<forall>k l. co_leases s k = Some l \<longrightarrow> ls_fence l = high_water s k)"

lemma coord_lease_store: "lease_store coord_api (\<lambda>_. True)"
proof (unfold_locales, goal_cases)
  case (1 ttl s k h now s' f e)
  then show ?case using coord_acquire_Some [of s k h ttl now s' f e] clamp_ttl_range [of ttl] by simp
next
  case (4 s k h ttl now s' f e)
  then show ?case using coord_acquire_Some [of s k h ttl now s' f e] by (simp add: coord_get_def)
qed (auto simp: coord_ops split: if_splits)

interpretation coord: fenced_store coord_api "\<lambda>_. True" fences_current high_water
proof (intro fenced_store.intro coord_lease_store fenced_store_axioms.intro, goal_cases)
  case (2 s k h ttl now s' r)
  then show ?case
    by (auto simp: fences_current_def coord_acquire_def high_water_def Let_def split: if_splits)
next
  case (4 s k h f ttl now s' x)
  then show ?case
    by (cases "co_leases s k") (auto simp: coord_ops fences_current_def high_water_def split: if_splits)
next
  case (5 s k h ttl now s' f e)
  then show ?case using coord_acquire_Some [of s k h ttl now s' f e] by (auto simp: high_water_def)
qed (auto simp: coord_ops fences_current_def high_water_def split: if_splits)

interpretation mem: lease_store mem_api "\<lambda>ttl. 0 < lease_ttl ttl"
  by unfold_locales
    (auto simp: mem_acquire_def mem_release_def mem_renew_def mem_get_def Let_def split: if_splits)

lemma purge_blocks: "blocks (purge_expired s now k) h now \<longleftrightarrow> blocks (s k) h now"
  by (auto simp: purge_expired_def blocks_def split: option.splits)

lemma purge_other: "purge_expired s now k = s k \<or> (purge_expired s now k = None \<and> (\<exists>l. s k = Some l \<and> ls_expires l < now))"
  by (auto simp: purge_expired_def split: option.splits)

lemma sql_acquire_cases:
  "sql_acquire s k h ttl now = (s', r) \<Longrightarrow> k' \<noteq> k \<Longrightarrow> s' k' = s k' \<or> s' k' = purge_expired s now k'"
  by (auto simp: sql_acquire_def Let_def split: if_splits)

interpretation sql: lease_store sql_api "\<lambda>ttl. 0 < lease_ttl ttl"
proof (unfold_locales, goal_cases)
  case (5 s k h ttl now s' r k')
  then show ?case using sql_acquire_cases [of s k h ttl now s' r k'] purge_other [of s now k'] by (auto simp: sql_get_def)
next
  case (9 s k h f ttl now s' expiry)
  then show ?case by (cases "s k") (auto simp: sql_renew_def sql_get_def Let_def)
qed (auto simp: sql_acquire_def purge_blocks sql_release_def sql_renew_def sql_get_def Let_def split: if_splits)

text \<open>The guarded statements of the SQL ledger do what the memory ledger does.\<close>

lemma sql_release_eq: "sql_release s k h f = mem_release s k h f"
  by (auto simp: sql_release_def mem_release_def)

lemma sql_renew_eq: "sql_renew s k h f ttl now = mem_renew s k h f ttl now"
  by (cases "s k") (auto simp: sql_renew_def mem_renew_def Let_def)

section \<open>Runs of the coordinator\<close>

datatype coord_event =
    Granted string string int
  | Refused string string
  | Renewed string string int bool
  | Released string string int bool
  | Judged conflict_input conflict_verdict

inductive coord_step :: "coord \<Rightarrow> coord_event \<Rightarrow> coord \<Rightarrow> bool" where
  grant: "coord_acquire s k h ttl now = (s', Some (f, e)) \<Longrightarrow> coord_step s (Granted k h f) s'"
| refuse: "coord_acquire s k h ttl now = (s', None) \<Longrightarrow> coord_step s (Refused k h) s'"
| renew: "coord_renew s k h f ttl now = (s', r) \<Longrightarrow> coord_step s (Renewed k h f (r \<noteq> None)) s'"
| release: "coord_release s k h f = (s', ok) \<Longrightarrow> coord_step s (Released k h f ok) s'"
| judge: "coord_conflict s x now = (s', v) \<Longrightarrow> coord_step s (Judged x v) s'"

inductive_cases coord_grantE: "coord_step s (Granted k h f) s'"
inductive_cases coord_judgeE: "coord_step s (Judged x v) s'"

inductive coord_run :: "coord \<Rightarrow> coord_event list \<Rightarrow> coord \<Rightarrow> bool" where
  start: "coord_run s [] s"
| step: "coord_run s evs s1 \<Longrightarrow> coord_step s1 ev s' \<Longrightarrow> coord_run s (evs @ [ev]) s'"

inductive_cases coord_run_NilE: "coord_run s [] s'"

fun granted_fences :: "string \<Rightarrow> coord_event list \<Rightarrow> int list" where
  "granted_fences k [] = []"
| "granted_fences k (Granted k' h f # evs) = (if k' = k then f # granted_fences k evs else granted_fences k evs)"
| "granted_fences k (ev # evs) = granted_fences k evs"

lemma granted_fences_append: "granted_fences k (evs @ evs') = granted_fences k evs @ granted_fences k evs'"
  by (induction evs rule: granted_fences.induct) simp_all

lemma granted_fences_single:
  "granted_fences k [ev] = (case ev of Granted k' h f \<Rightarrow> if k' = k then [f] else [] | _ \<Rightarrow> [])"
  by (cases ev) simp_all

lemma coord_conflict_frame:
  assumes "coord_conflict s x now = (s', v)"
  shows "co_leases s' = co_leases s \<and> co_high s' = co_high s \<and> (k \<noteq> ci_key x \<longrightarrow> co_claims s' k = co_claims s k)"
  using assms by (auto simp: coord_conflict_def Let_def split: if_splits option.splits)

lemma coord_acquire_claims: "co_claims (fst (coord_acquire s k h ttl now)) = co_claims s"
  by (simp add: coord_acquire_def Let_def)

lemma coord_renew_claims: "co_claims (fst (coord_renew s k h f ttl now)) = co_claims s"
  by (simp add: coord_renew_def Let_def)

lemma coord_release_claims: "co_claims (fst (coord_release s k h f)) = co_claims s"
  by (simp add: coord_release_def)

lemma coord_step_inv:
  assumes "coord_step s ev s'" "fences_current s"
  shows "fences_current s'"
  using assms(1)
proof (cases rule: coord_step.cases)
  case (judge x now v)
  from coord_conflict_frame [OF judge(2)] assms(2) show ?thesis by (simp add: fences_current_def high_water_def)
next
  case (grant k h ttl now f e)
  with coord.acquire_inv [OF assms(2), unfolded coord_api_simps] show ?thesis by blast
next
  case (refuse k h ttl now)
  with coord.acquire_inv [OF assms(2), unfolded coord_api_simps] show ?thesis by blast
next
  case (renew k h f ttl now r)
  with coord.renew_inv [OF assms(2), unfolded coord_api_simps] show ?thesis by blast
next
  case (release k h f ok)
  with coord.release_inv [OF assms(2), unfolded coord_api_simps] show ?thesis by blast
qed

lemma coord_step_high:
  assumes "coord_step s ev s'" "fences_current s"
  shows "high_water s k \<le> high_water s' k"
  using assms(1)
proof (cases rule: coord_step.cases)
  case (judge x now v)
  from coord_conflict_frame [OF judge(2)] show ?thesis by (simp add: high_water_def)
next
  case (grant k h ttl now f e)
  with assms(2) coord.acquire_high_mono show ?thesis by simp
next
  case (refuse k h ttl now)
  with assms(2) coord.acquire_high_mono show ?thesis by simp
next
  case (renew k h f ttl now r)
  with coord.renew_high [of s k h f ttl now s' r] show ?thesis by simp
next
  case (release k h f ok)
  with coord.release_high [of s k h f s' ok] show ?thesis by simp
qed

lemma coord_run_high:
  assumes "coord_run s evs s'" "fences_current s"
  shows "fences_current s' \<and> high_water s k \<le> high_water s' k"
  using assms
proof (induction rule: coord_run.induct)
  case (step s evs s1 ev s')
  then show ?case using coord_step_inv [OF step(2)] coord_step_high [OF step(2), of k] by auto
qed simp

lemma coord_run_fences:
  assumes "coord_run s evs s'" "fences_current s"
  shows "sorted_wrt (<) (granted_fences k evs) \<and> (\<forall>f \<in> set (granted_fences k evs). high_water s k < f \<and> f \<le> high_water s' k)"
  using assms
proof (induction rule: coord_run.induct)
  case (step s evs s1 ev s')
  have inv: "fences_current s1" "high_water s k \<le> high_water s1 k" using coord_run_high [OF step(1)] step.prems by auto
  have mono: "high_water s1 k \<le> high_water s' k" using coord_step_high [OF step(2) inv(1)] .
  have new: "granted_fences k [ev] = [] \<or> (\<exists>f. granted_fences k [ev] = [f] \<and> high_water s1 k < f \<and> f \<le> high_water s' k)"
    using step(2)
  proof (cases rule: coord_step.cases)
    case (grant k0 h ttl now f e)
    then show ?thesis using coord.grant_high [of s1 k0 h ttl now s' f e] inv(1) by auto
  qed simp_all
  with step.IH [OF step.prems] inv mono show ?case
    by (fastforce simp: granted_fences_append sorted_wrt_append)
qed simp

text \<open>A committed claim on a key stays with its holder and fence.\<close>

lemma conflict_committed:
  assumes "coord_conflict s x now = (s', v)" "co_claims s k = Some c" "cm_state c = Committed"
  shows "\<exists>c'. co_claims s' k = Some c' \<and> cm_state c' = Committed \<and> cm_holder c' = cm_holder c \<and> cm_fence c' = cm_fence c"
  using assms by (auto simp: coord_conflict_def Let_def foreign_def split: if_splits option.splits)

lemma step_committed:
  assumes "coord_step s ev s'" "co_claims s k = Some c" "cm_state c = Committed"
  shows "\<exists>c'. co_claims s' k = Some c' \<and> cm_state c' = Committed \<and> cm_holder c' = cm_holder c \<and> cm_fence c' = cm_fence c"
  using assms(1)
proof (cases rule: coord_step.cases)
  case (judge x now v)
  from conflict_committed [OF judge(2) assms(2,3)] show ?thesis .
next
  case (grant k0 h ttl now f e)
  with assms(2,3) coord_acquire_claims [of s k0 h ttl now] show ?thesis by simp
next
  case (refuse k0 h ttl now)
  with assms(2,3) coord_acquire_claims [of s k0 h ttl now] show ?thesis by simp
next
  case (renew k0 h f ttl now r)
  with assms(2,3) coord_renew_claims [of s k0 h f ttl now] show ?thesis by simp
next
  case (release k0 h f ok)
  with assms(2,3) coord_release_claims [of s k0 h f] show ?thesis by simp
qed

lemma run_committed:
  assumes "coord_run s evs s'" "co_claims s k = Some c" "cm_state c = Committed"
  shows "\<exists>c'. co_claims s' k = Some c' \<and> cm_state c' = Committed \<and> cm_holder c' = cm_holder c \<and> cm_fence c' = cm_fence c"
  using assms
proof (induction rule: coord_run.induct)
  case (step s evs s1 ev s')
  then obtain c1 where "co_claims s1 k = Some c1" "cm_state c1 = Committed" "cm_holder c1 = cm_holder c" "cm_fence c1 = cm_fence c"
    by blast
  with step_committed [OF step(2), of k c1] show ?case by simp
qed simp

section \<open>What the stores and the client guarantee\<close>

lemma fences_current_empty: "fences_current coord_empty"
  by (simp add: fences_current_def coord_empty_def)

lemma sorted_wrt_mid:
  fixes f g :: int
  shows "sorted_wrt (<) (fs @ f # g # gs) \<Longrightarrow> f < g"
  by (simp add: sorted_wrt_append)

text \<open>
  C34: Over every run of a coordinator that starts empty, with any interleaving of acquire, renew,
  release and conflict calls by any holders, the fences granted for a key strictly increase, and a
  client that still works with the fence of a grant after another grant of the key never passes the
  fence check again, whatever happened to the lease since.
\<close>

theorem coord_fences_monotone:
  assumes "coord_run coord_empty evs s"
  shows "sorted_wrt (<) (granted_fences k evs)
    \<and> (granted_fences k evs = fs @ f # g # gs \<and> hd_fences h k = Some f \<longrightarrow> inspect_fence coord_api s k h now \<noteq> FenceOk)"
proof -
  note run = coord_run_fences [OF assms fences_current_empty, of k]
  have "inspect_fence coord_api s k h now \<noteq> FenceOk"
    if gr: "granted_fences k evs = fs @ f # g # gs" and h: "hd_fences h k = Some f"
  proof -
    have "f < g" using run gr sorted_wrt_mid [of fs f g gs] by simp
    moreover have "g \<le> high_water s k" using run gr by simp
    ultimately have "f < high_water s k" by simp
    then show ?thesis
      using coord.stale_not_ok [OF _ h] coord_run_high [OF assms fences_current_empty] by blast
  qed
  with run show ?thesis by blast
qed

definition sample_coord_run :: "coord \<times> coord_event list" where
  "sample_coord_run =
     (let s1 = fst (coord_acquire coord_empty ''k'' ''a'' None 0);
          s2 = fst (coord_release s1 ''k'' ''a'' 1);
          s3 = fst (coord_acquire s2 ''k'' ''b'' None 5)
      in (s3, [Granted ''k'' ''a'' 1, Released ''k'' ''a'' 1 True, Granted ''k'' ''b'' 2]))"

lemma sample_coord_run: "coord_run coord_empty (snd sample_coord_run) (fst sample_coord_run)"
proof -
  define s1 where "s1 = fst (coord_acquire coord_empty ''k'' ''a'' None 0)"
  define s2 where "s2 = fst (coord_release s1 ''k'' ''a'' 1)"
  define s3 where "s3 = fst (coord_acquire s2 ''k'' ''b'' None 5)"
  have s1: "coord_acquire coord_empty ''k'' ''a'' None 0 = (s1, Some (1, 30000))"
    by (simp add: s1_def coord_acquire_def coord_get_def coord_empty_def high_water_def Let_def clamp_ttl_def ttl_default_def)
  then have c1: "coord_get s1 ''k'' = Some \<lparr>ls_holder = ''a'', ls_acquired = 0, ls_expires = 30000, ls_fence = 1\<rparr>"
      "high_water s1 ''k'' = 1"
    using coord_acquire_Some [OF s1] by (simp_all add: coord_get_def high_water_def)
  have s2: "coord_release s1 ''k'' ''a'' 1 = (s2, True)" by (simp add: s2_def coord_release_def c1)
  then have c2: "coord_get s2 ''k'' = None" "high_water s2 ''k'' = 1"
    using c1 by (auto simp: coord_release_def coord_get_def high_water_def)
  have s3: "coord_acquire s2 ''k'' ''b'' None 5 = (s3, Some (2, 30005))"
    by (simp add: s3_def coord_acquire_def c2 Let_def clamp_ttl_def ttl_default_def)
  note coord_run.step [OF coord_run.step [OF coord_run.step [OF coord_run.start
    coord_step.grant [OF s1]] coord_step.release [OF s2]] coord_step.grant [OF s3]]
  then show ?thesis by (simp add: sample_coord_run_def s1_def s2_def s3_def)
qed

lemma coord_fences_monotone_witness:
  "granted_fences ''k'' (snd sample_coord_run) = [1, 2]
   \<and> inspect_fence coord_api (fst sample_coord_run) ''k'' \<lparr>hd_holder = ''a'', hd_fences = [''k'' \<mapsto> 1], hd_expires = Map.empty\<rparr> 6 \<noteq> FenceOk"
  using coord_fences_monotone [OF sample_coord_run, where k = "''k''" and fs = "[]" and f = 1 and g = 2 and gs = "[]" and
      h = "\<lparr>hd_holder = ''a'', hd_fences = [''k'' \<mapsto> 1], hd_expires = Map.empty\<rparr>" and now = 6]
  by (simp add: sample_coord_run_def)

text \<open>
  A committed claim is final: after any further run the claim of its key is still committed by
  the same holder and fence, and a call of \<^verbatim>\<open>conflict\<close> by anybody else never wins the key.
\<close>

theorem committed_claim_final:
  assumes "coord_run s evs s'" "co_claims s k = Some c" "cm_state c = Committed"
  shows "\<exists>c'. co_claims s' k = Some c' \<and> cm_state c' = Committed \<and> cm_holder c' = cm_holder c \<and> cm_fence c' = cm_fence c
    \<and> (ci_key x = k \<and> foreign x c' \<longrightarrow> (\<forall>w. snd (coord_conflict s' x now) \<noteq> Winner w) \<and> fst (coord_conflict s' x now) = s')"
proof -
  from run_committed [OF assms] obtain c' where c': "co_claims s' k = Some c'" "cm_state c' = Committed"
      "cm_holder c' = cm_holder c" "cm_fence c' = cm_fence c" by blast
  have "(\<forall>w. snd (coord_conflict s' x now) \<noteq> Winner w) \<and> fst (coord_conflict s' x now) = s'" if "ci_key x = k" "foreign x c'"
    using that c' by (simp add: coord_conflict_def Let_def)
  with c' show ?thesis by blast
qed

definition sample_claim :: claim where
  "sample_claim = \<lparr>cm_holder = ''a'', cm_fence = 1, cm_saga_id = ''s'', cm_plan_hash = ''h'', cm_state = Committed, cm_updated = 0\<rparr>"

lemma committed_claim_final_witness:
  "\<exists>c'. co_claims (coord_empty\<lparr>co_claims := [''k'' \<mapsto> sample_claim]\<rparr>) ''k'' = Some c' \<and> cm_state c' = Committed"
  using committed_claim_final [OF coord_run.start, where s = "coord_empty\<lparr>co_claims := [''k'' \<mapsto> sample_claim]\<rparr>" and k = "''k''" and c = sample_claim]
  by (auto simp: sample_claim_def)



lemma acquire_loop_returns:
  assumes "\<And>n. clock n + 1 \<le> clock (Suc n)" "deadline \<le> clock n + int fuel"
  shows "\<exists>r. acquire_loop (Suc fuel) api ttl deadline clock env holder ks n s = Some r"
  using assms(2)
proof (induction fuel arbitrary: n s)
  case 0
  then show ?case by (auto split: prod.split bool.split)
next
  case (Suc fuel)
  from Suc.prems assms(1) [of n] have "deadline \<le> clock (Suc n) + int fuel" by simp
  note ih = Suc.IH [OF this]
  show ?case
    by (subst acquire_loop.simps) (use ih in \<open>auto simp: Let_def simp del: acquire_loop.simps split: prod.split bool.split\<close>)
qed

text \<open>
  \<^verbatim>\<open>acquireAll\<close> returns: it polls at most one pass more than the wait has milliseconds, since every
  sleep takes at least a millisecond, whatever the store and the other processes do.
\<close>

theorem acquire_all_returns:
  assumes "\<And>n. clock n + 1 \<le> clock (Suc n)" "start \<le> clock 0"
  shows "\<exists>r. acquire_all (Suc (nat wait)) api ttl wait start clock env holder keys s = Some r"
proof -
  have "start + wait \<le> clock 0 + int (nat wait)" using assms(2) by simp
  note ret = acquire_loop_returns [where clock = clock, OF assms(1) this]
  show ?thesis unfolding acquire_all_def Let_def using ret by (cases "sorted_resource_keys keys = []") (simp_all del: acquire_loop.simps)
qed

lemma acquire_all_returns_witness:
  "\<exists>r. acquire_all (Suc (nat 50)) mem_api (Some 10) 50 0 (\<lambda>n. int n) (\<lambda>_ s. s) ''h'' [''k''] Map.empty = Some r"
  by (rule acquire_all_returns) simp_all

text \<open>
  C39: A lease of the coordinator lasts between one millisecond and five minutes from the grant or the
  renewal, whatever the caller asks for; a renewal keeps holder, fence and grant time.
\<close>

theorem coord_lease_bounds:
  shows "(\<forall>f e. coord_acquire s k h ttl now = (s', Some (f, e)) \<longrightarrow>
      now + 1 \<le> e \<and> e \<le> now + 300000 \<and> coord_get s' k = Some \<lparr>ls_holder = h, ls_acquired = now, ls_expires = e, ls_fence = f\<rparr>)
    \<and> (\<forall>e. coord_renew s k h f ttl now = (s', Some e) \<longrightarrow>
      now + 1 \<le> e \<and> e \<le> now + 300000 \<and>
      (\<exists>l. coord_get s k = Some l \<and> ls_holder l = h \<and> ls_fence l = f \<and> coord_get s' k = Some (l\<lparr>ls_expires := e\<rparr>)))"
proof (intro conjI allI impI, goal_cases)
  case (1 f e)
  from coord_acquire_Some [OF 1] clamp_ttl_range [of ttl] show ?case by simp
next
  case (2 f e)
  from coord_acquire_Some [OF 2] clamp_ttl_range [of ttl] show ?case by simp
next
  case (3 f e)
  from coord_acquire_Some [OF 3] show ?case by (simp add: coord_get_def)
next
  case (4 e)
  then show ?case using clamp_ttl_range [of ttl] by (auto simp: coord_renew_def Let_def split: if_splits)
next
  case (5 e)
  then show ?case using clamp_ttl_range [of ttl] by (auto simp: coord_renew_def Let_def split: if_splits)
next
  case (6 e)
  then show ?case
    by (cases "coord_get s k") (auto simp: coord_renew_def coord_get_def Let_def split: if_splits)
qed

lemma coord_lease_bounds_witness:
  "snd (coord_acquire coord_empty ''k'' ''h'' (Some (JInt 999999)) 7) = Some (1, 300007) \<and> (300007::int) \<le> 7 + 300000"
proof -
  have g: "snd (coord_acquire coord_empty ''k'' ''h'' (Some (JInt 999999)) 7) = Some (1, 300007)" by code_simp
  then obtain s' where s': "coord_acquire coord_empty ''k'' ''h'' (Some (JInt 999999)) 7 = (s', Some (1, 300007))"
    by (metis prod.collapse)
  have "(300007::int) \<le> 7 + 300000"
    using coord_lease_bounds [where s = coord_empty and k = "''k''" and h = "''h''" and ttl = "Some (JInt 999999)"
        and now = 7 and s' = s' and f = 1, THEN conjunct1, rule_format, OF s'] by simp
  with g show ?thesis by simp
qed

section \<open>Where the ledgers differ from the coordinator\<close>

text \<open>
  The memory ledger forgets the fence with the lease: after a release the next holder gets the fence
  of the first grant again, so a client that still has that fence is only told apart by its name.
\<close>

lemma mem_fence_restarts:
  "\<exists>s1 s2 s3. mem_acquire Map.empty ''k'' ''a'' None 0 = (s1, Some (1, 30000))
     \<and> mem_release s1 ''k'' ''a'' 1 = (s2, True) \<and> mem_acquire s2 ''k'' ''b'' None 1 = (s3, Some (1, 30001))"
  by (simp add: mem_acquire_def mem_release_def next_fence_def lease_ttl_def)

text \<open>The SQL ledger forgets it as well once the lease has expired and any lease is acquired.\<close>

lemma sql_fence_restarts:
  "\<exists>s1 s2. sql_acquire Map.empty ''k'' ''a'' (Some 10) 0 = (s1, Some (1, 10))
     \<and> sql_acquire s1 ''k'' ''b'' (Some 10) 11 = (s2, Some (1, 21))"
  by (simp add: sql_acquire_def purge_expired_def next_fence_def lease_ttl_def)

text \<open>
  \<^verbatim>\<open>conflict\<close> does not ask for a lease: a holder without one, with a fence below that of the standing
  claim, takes the claim over while it is not committed and no lease of another is live.
\<close>

lemma stale_claim_takeover:
  "\<exists>s'. coord_conflict (coord_empty\<lparr>co_claims := [''k'' \<mapsto> sample_claim\<lparr>cm_state := Claimed, cm_fence := 7\<rparr>]\<rparr>)
      \<lparr>ci_key = ''k'', ci_holder = ''b'', ci_fence = 3, ci_saga_id = ''s2'', ci_plan_hash = ''h2'', ci_error_code = None, ci_commit = True\<rparr> 9
    = (s', Winner \<lparr>vw_holder = ''b'', vw_fence = 3, vw_saga_id = ''s2'', vw_plan_hash = ''h2'', vw_state = Committed\<rparr>)"
  by (simp add: coord_conflict_def coord_get_def coord_empty_def sample_claim_def as_winner_def Let_def)

end
