(* ===== verification/Ledger.thy ===== *)
theory Ledger
  imports Projections Leases
begin

text \<open>
  The in-memory ledger, \<^verbatim>\<open>createMemoryLedger\<close> of \<^verbatim>\<open>sdk-ts/src/ledger/types.ts\<close>, which the JSONL ledger runs
  behind its file hooks: events with their projections, attempts, plans, blobs, anchors, compensators
  and the rebuild of the projections; its leases are in theory \<open>Leases\<close>.

  An operation is a function of the state; the clock reading of the call is the argument \<open>now\<close> and the
  id \<^verbatim>\<open>newEventId\<close> draws the argument \<open>ident\<close>.  The hooks only write files.
\<close>

section \<open>Options\<close>

datatype ledger_kind = MemoryLedger | JsonlLedger | SqliteLedger | PostgresLedger

datatype fsync_mode = FsyncAlways | FsyncInterval | FsyncNever

record ledger_config =
  lc_kind :: ledger_kind
  lc_fsync :: fsync_mode
  lc_fsync_interval :: int
  lc_anchor_every :: int
  lc_anchor_interval :: int

record ledger_options =
  lo_fsync :: "fsync_mode option"
  lo_fsync_interval :: "int option"
  lo_anchor_every :: "int option"
  lo_anchor_interval :: "int option"

datatype ledger_error = ClosedLedger | FsyncNeverRejected | DuplicateAttempt string | ConstraintFailed string

definition reject_fsync_never :: "ledger_kind \<Rightarrow> fsync_mode option \<Rightarrow> bool" where
  "reject_fsync_never kind fsync \<longleftrightarrow> fsync = Some FsyncNever \<and> kind \<noteq> MemoryLedger"

definition default_fsync_interval :: int where "default_fsync_interval = 200"
definition default_anchor_every :: int where "default_anchor_every = 256"
definition default_anchor_interval :: int where "default_anchor_interval = 60000"

definition memory_config :: "ledger_kind \<Rightarrow> ledger_options \<Rightarrow> ledger_error + ledger_config" where
  "memory_config kind opts =
     (let mode = orelse (lo_fsync opts) (if kind = MemoryLedger then FsyncNever else FsyncInterval)
      in if reject_fsync_never kind (lo_fsync opts) then Inl FsyncNeverRejected
         else if reject_fsync_never kind (Some mode) then Inl FsyncNeverRejected
         else Inr \<lparr>lc_kind = kind, lc_fsync = mode, lc_fsync_interval = orelse (lo_fsync_interval opts) default_fsync_interval,
                   lc_anchor_every = orelse (lo_anchor_every opts) default_anchor_every,
                   lc_anchor_interval = orelse (lo_anchor_interval opts) default_anchor_interval\<rparr>)"

definition is_wal_event :: "string \<Rightarrow> bool" where
  "is_wal_event t \<longleftrightarrow> t = ''effect_opened''"

text \<open>\<^verbatim>\<open>wantFsync\<close> of the memory ledger.\<close>

definition want_fsync :: "ledger_config \<Rightarrow> int \<Rightarrow> bool \<Rightarrow> bool option \<Rightarrow> int \<Rightarrow> bool" where
  "want_fsync cfg last_ms mandatory requested now =
     (if lc_kind cfg = MemoryLedger \<or> lc_fsync cfg = FsyncNever then False
      else if mandatory \<or> requested = Some True then True
      else if requested = Some False \<and> \<not> mandatory then
        (if lc_fsync cfg = FsyncAlways then True else now - last_ms \<ge> lc_fsync_interval cfg)
      else if lc_fsync cfg = FsyncAlways then True
      else now - last_ms \<ge> lc_fsync_interval cfg)"

section \<open>The state\<close>

datatype attempt_state = Started | Succeeded | FailedAttempt | AttemptInDoubt

record attempt =
  at_id :: string
  at_key :: string
  at_effect_id :: string
  at_plan_id :: string
  at_step_index :: int
  at_fence :: int
  at_state :: attempt_state
  at_started :: string
  at_finished :: "string option"
  at_error :: "string option"
  at_response :: "string option"

datatype blob_storage = InlineBlob | FileBlob

record blob =
  bl_id :: string
  bl_bytes :: int
  bl_created :: string
  bl_refcount :: int
  bl_storage :: blob_storage
  bl_data :: string

record compensator_row =
  cr_id :: string
  cr_manifest :: json
  cr_source :: string
  cr_match_kind :: string
  cr_specificity :: int
  cr_signature :: "string option"
  cr_registered :: string
  cr_disabled :: int

text \<open>\<open>None\<close> for the time of the last anchor is \<^verbatim>\<open>NaN\<close>.\<close>

record mem_ledger =
  ml_events :: "event list"
  ml_pj :: projections
  ml_attempts :: "(string \<times> attempt) list"
  ml_by_key :: "(string \<times> string) list"
  ml_leases :: lease_map
  ml_plans :: "(string \<times> plan) list"
  ml_blobs :: "(string \<times> blob) list"
  ml_compensators :: "(string \<times> compensator_row) list"
  ml_last_fsync :: int
  ml_anchor_count :: int
  ml_anchor_ms :: "int option"
  ml_anchoring :: bool
  ml_closed :: bool

definition anchor_saga_id :: string where "anchor_saga_id = ''sag__anchors''"

definition blob_inline_max :: int where "blob_inline_max = 256 * 1024"

fun last_anchor_at :: "nat \<Rightarrow> (nat \<times> event) option \<Rightarrow> event list \<Rightarrow> (nat \<times> event) option" where
  "last_anchor_at n found [] = found"
| "last_anchor_at n found (ev # evs) =
     last_anchor_at (Suc n) (if ev_type ev = ''ledger_anchored'' then Some (n, ev) else found) evs"

definition create_memory :: "platform \<Rightarrow> event list \<Rightarrow> int \<Rightarrow> mem_ledger" where
  "create_memory pf initial now =
     \<lparr>ml_events = initial, ml_pj = fold_events pf initial, ml_attempts = [], ml_by_key = [], ml_leases = (\<lambda>_. None),
      ml_plans = [], ml_blobs = [], ml_compensators = [], ml_last_fsync = now,
      ml_anchor_count = (case last_anchor_at 0 None initial of Some (i, _) \<Rightarrow> int i + 1 | None \<Rightarrow> 0),
      ml_anchor_ms = (case last_anchor_at 0 None initial of Some (_, ev) \<Rightarrow> pf_date_parse pf (ev_ts ev) | None \<Rightarrow> Some now),
      ml_anchoring = False, ml_closed = False\<rparr>"

section \<open>Events and anchors\<close>

definition mark_fsync :: "bool \<Rightarrow> int \<Rightarrow> mem_ledger \<Rightarrow> mem_ledger" where
  "mark_fsync did now l = (if did then l\<lparr>ml_last_fsync := now\<rparr> else l)"

text \<open>\<^verbatim>\<open>append\<close> up to its call of \<^verbatim>\<open>maybeTickAnchor\<close>.\<close>

definition push_event :: "platform \<Rightarrow> ledger_config \<Rightarrow> event \<Rightarrow> bool option \<Rightarrow> int \<Rightarrow> mem_ledger \<Rightarrow> mem_ledger" where
  "push_event pf cfg ev requested now l =
     mark_fsync (want_fsync cfg (ml_last_fsync l) (is_wal_event (ev_type ev)) requested now) now
       (l\<lparr>ml_events := ml_events l @ [ev], ml_pj := apply_event pf (ml_pj l) ev\<rparr>)"

definition saga_head :: "saga \<Rightarrow> json" where
  "saga_head s = JObj [(''saga_id'', JStr (sa_saga_id s)), (''chain_head'', JStr (sa_chain_head s)), (''chain_len'', JInt (sa_chain_len s))]"

definition user_sagas :: "(string \<times> saga) list \<Rightarrow> saga list" where
  "user_sagas sagas = filter (\<lambda>s. sa_saga_id s \<noteq> anchor_saga_id) (map snd sagas)"

definition anchor_heads :: "(string \<times> saga) list \<Rightarrow> saga list" where
  "anchor_heads sagas = sort_key sa_saga_id (user_sagas sagas)"

definition anchor_body :: "platform \<Rightarrow> (string \<times> saga) list \<Rightarrow> anchor option \<Rightarrow> event list \<Rightarrow> string \<Rightarrow> int \<Rightarrow> event" where
  "anchor_body pf sagas prev prior ident now =
     (let heads = anchor_heads sagas;
          root = merkle_root pf (map (\<lambda>s. \<lparr>ap_saga_id = sa_saga_id s, ap_chain_head = sa_chain_head s\<rparr>) heads);
          prev_anchor_hash = (case prev of Some a \<Rightarrow> an_hash a | None \<Rightarrow> genesis_hash pf anchor_saga_id);
          anchor_seq = (case prev of Some a \<Rightarrow> an_seq a | None \<Rightarrow> 0) + 1;
          prev_hash = (if prior = [] then genesis_hash pf anchor_saga_id else hash_of (last prior))
      in \<lparr>ev_id = ident, ev_type = ''ledger_anchored'', ev_ts = pf_iso pf now, ev_saga_id = anchor_saga_id,
          ev_chain_seq = int (length prior) + 1, ev_effect_id = None, ev_actor_kind = SystemActor, ev_actor_id = ''vekrevert'',
          ev_payload = JObj [(''anchor_seq'', JInt anchor_seq), (''merkle_root'', JStr root),
            (''saga_heads'', JArr (map saga_head heads)), (''prev_anchor_hash'', JStr prev_anchor_hash),
            (''anchored_at'', JStr (pf_iso pf now))],
          ev_prev_hash = prev_hash, ev_hash = None, ev_sig = None\<rparr>)"

definition last_opt :: "'a list \<Rightarrow> 'a option" where
  "last_opt xs = (if xs = [] then None else Some (last xs))"

text \<open>The event \<^verbatim>\<open>fireAnchor\<close> builds; \<open>None\<close> would be the exception of \<^verbatim>\<open>chainEvent\<close>.\<close>

definition anchor_event :: "platform \<Rightarrow> mem_ledger \<Rightarrow> string \<Rightarrow> int \<Rightarrow> event option" where
  "anchor_event pf l ident now =
     (let body = anchor_body pf (pj_sagas (ml_pj l)) (last_opt (pj_anchors (ml_pj l)))
            (saga_events anchor_saga_id (ml_events l)) ident now
      in chain_event pf body (ev_prev_hash body))"

definition fire_anchor :: "platform \<Rightarrow> ledger_config \<Rightarrow> string \<Rightarrow> int \<Rightarrow> mem_ledger \<Rightarrow> mem_ledger \<times> ledger_error option" where
  "fire_anchor pf cfg ident now l =
     (if ml_anchoring l then (l, None)
      else case anchor_event pf l ident now of
        None \<Rightarrow> (l, None)
      | Some ev \<Rightarrow>
          if ml_closed l then (l, Some ClosedLedger)
          else
            let l1 = push_event pf cfg ev None now l
            in (l1\<lparr>ml_anchor_count := int (length (ml_events l1)), ml_anchor_ms := Some now\<rparr>, None))"

definition anchor_due :: "ledger_config \<Rightarrow> mem_ledger \<Rightarrow> int \<Rightarrow> bool" where
  "anchor_due cfg l now \<longleftrightarrow>
     (int (length (ml_events l)) - ml_anchor_count l \<ge> lc_anchor_every cfg
      \<or> (case ml_anchor_ms l of Some ms \<Rightarrow> now - ms \<ge> lc_anchor_interval cfg | None \<Rightarrow> False))
     \<and> user_sagas (pj_sagas (ml_pj l)) \<noteq> []"

definition maybe_tick_anchor :: "platform \<Rightarrow> ledger_config \<Rightarrow> string \<Rightarrow> int \<Rightarrow> mem_ledger \<Rightarrow> mem_ledger \<times> ledger_error option" where
  "maybe_tick_anchor pf cfg ident now l =
     (if ml_anchoring l then (l, None)
      else if \<not> anchor_due cfg l now then (l, None)
      else fire_anchor pf cfg ident now l)"

definition mem_append :: "platform \<Rightarrow> ledger_config \<Rightarrow> event \<Rightarrow> bool option \<Rightarrow> string \<Rightarrow> int \<Rightarrow> mem_ledger \<Rightarrow> mem_ledger \<times> ledger_error option" where
  "mem_append pf cfg ev requested ident now l =
     (if ml_closed l then (l, Some ClosedLedger)
      else maybe_tick_anchor pf cfg ident now (push_event pf cfg ev requested now l))"

definition mem_read_saga :: "mem_ledger \<Rightarrow> string \<Rightarrow> event list" where
  "mem_read_saga l s = saga_events s (ml_events l)"

definition mem_get_saga :: "mem_ledger \<Rightarrow> string \<Rightarrow> saga option" where
  "mem_get_saga l s = map_of (pj_sagas (ml_pj l)) s"

definition mem_upsert_saga :: "saga \<Rightarrow> mem_ledger \<Rightarrow> mem_ledger" where
  "mem_upsert_saga s l = l\<lparr>ml_pj := (ml_pj l)\<lparr>pj_sagas := AList.update (sa_saga_id s) s (pj_sagas (ml_pj l))\<rparr>\<rparr>"

definition mem_get_effect :: "mem_ledger \<Rightarrow> string \<Rightarrow> effect option" where
  "mem_get_effect l k = map_of (pj_effects (ml_pj l)) k"

definition mem_upsert_effect :: "effect \<Rightarrow> mem_ledger \<Rightarrow> mem_ledger" where
  "mem_upsert_effect e l = l\<lparr>ml_pj := (ml_pj l)\<lparr>pj_effects := AList.update (ef_effect_id e) e (pj_effects (ml_pj l))\<rparr>\<rparr>"

definition mem_list_effects :: "mem_ledger \<Rightarrow> string \<Rightarrow> effect list" where
  "mem_list_effects l s = sort_key ef_seq (filter (\<lambda>e. ef_saga_id e = s) (map snd (pj_effects (ml_pj l))))"

definition mem_append_anchor :: "anchor \<Rightarrow> mem_ledger \<Rightarrow> mem_ledger" where
  "mem_append_anchor a l = l\<lparr>ml_pj := (ml_pj l)\<lparr>pj_anchors := add_anchor a (pj_anchors (ml_pj l))\<rparr>\<rparr>"

definition mem_list_anchors :: "mem_ledger \<Rightarrow> anchor list" where
  "mem_list_anchors l = sort_key an_seq (pj_anchors (ml_pj l))"

definition mem_close :: "mem_ledger \<Rightarrow> mem_ledger" where
  "mem_close l = l\<lparr>ml_closed := True\<rparr>"

section \<open>Attempts, plans, blobs and compensators\<close>

definition mem_append_attempt :: "attempt \<Rightarrow> int \<Rightarrow> mem_ledger \<Rightarrow> mem_ledger \<times> ledger_error option" where
  "mem_append_attempt row now l =
     (if map_of (ml_by_key l) (at_key row) \<noteq> None then (l, Some (DuplicateAttempt (at_key row)))
      else (mark_fsync True now
              (l\<lparr>ml_by_key := AList.update (at_key row) (at_id row) (ml_by_key l),
                 ml_attempts := AList.update (at_id row) row (ml_attempts l)\<rparr>), None))"

definition mem_get_attempt :: "mem_ledger \<Rightarrow> string \<Rightarrow> attempt option" where
  "mem_get_attempt l k = map_of (ml_attempts l) k"

definition mem_attempt_by_key :: "mem_ledger \<Rightarrow> string \<Rightarrow> attempt option" where
  "mem_attempt_by_key l key =
     (case map_of (ml_by_key l) key of
        Some k \<Rightarrow> if k = [] then None else map_of (ml_attempts l) k
      | None \<Rightarrow> None)"

definition mem_update_attempt :: "attempt \<Rightarrow> int \<Rightarrow> mem_ledger \<Rightarrow> mem_ledger" where
  "mem_update_attempt row now l =
     mark_fsync True now
       (l\<lparr>ml_attempts := AList.update (at_id row) row (ml_attempts l),
          ml_by_key := AList.update (at_key row) (at_id row) (ml_by_key l)\<rparr>)"

definition mem_put_plan :: "plan \<Rightarrow> mem_ledger \<Rightarrow> mem_ledger" where
  "mem_put_plan p l = l\<lparr>ml_plans := AList.update (pl_plan_id p) p (ml_plans l)\<rparr>"

definition mem_get_plan :: "mem_ledger \<Rightarrow> string \<Rightarrow> plan option" where
  "mem_get_plan l k = map_of (ml_plans l) k"

definition blob_id_for :: "platform \<Rightarrow> string \<Rightarrow> string" where
  "blob_id_for pf bytes = ''blob_sha256:'' @ sha256_hex pf bytes"

definition mem_put_blob :: "platform \<Rightarrow> string \<Rightarrow> int \<Rightarrow> mem_ledger \<Rightarrow> mem_ledger \<times> string" where
  "mem_put_blob pf bytes now l =
     (let k = blob_id_for pf bytes
      in case map_of (ml_blobs l) k of
           Some b \<Rightarrow> (l\<lparr>ml_blobs := AList.update k (b\<lparr>bl_refcount := bl_refcount b + 1\<rparr>) (ml_blobs l)\<rparr>, k)
         | None \<Rightarrow>
             (l\<lparr>ml_blobs := AList.update k
                \<lparr>bl_id = k, bl_bytes = int (length bytes), bl_created = pf_iso pf now, bl_refcount = 1,
                 bl_storage = (if int (length bytes) > blob_inline_max then FileBlob else InlineBlob), bl_data = bytes\<rparr> (ml_blobs l)\<rparr>, k))"

definition mem_get_blob :: "mem_ledger \<Rightarrow> string \<Rightarrow> string option" where
  "mem_get_blob l k = map_option bl_data (map_of (ml_blobs l) k)"

definition mem_upsert_compensator :: "compensator_row \<Rightarrow> mem_ledger \<Rightarrow> mem_ledger" where
  "mem_upsert_compensator row l = l\<lparr>ml_compensators := AList.update (cr_id row) row (ml_compensators l)\<rparr>"

definition mem_get_compensator :: "mem_ledger \<Rightarrow> string \<Rightarrow> compensator_row option" where
  "mem_get_compensator l k = map_of (ml_compensators l) k"

section \<open>Rebuilding the projections\<close>

definition as_of :: "string option \<Rightarrow> event list \<Rightarrow> event list" where
  "as_of limit evs = (case limit of Some t \<Rightarrow> if t = [] then evs else filter (\<lambda>ev. ev_ts ev \<le> t) evs | None \<Rightarrow> evs)"

definition set_effects :: "(string \<times> effect) list \<Rightarrow> effect list \<Rightarrow> (string \<times> effect) list" where
  "set_effects base es = foldl (\<lambda>xs e. AList.update (ef_effect_id e) e xs) base es"

text \<open>The effects of the saga are deleted, and the rebuilt ones added in their order.\<close>

definition replace_effects :: "string \<Rightarrow> effect list \<Rightarrow> (string \<times> effect) list \<Rightarrow> (string \<times> effect) list" where
  "replace_effects s rebuilt effs = set_effects (filter (\<lambda>(k, e). ef_saga_id e \<noteq> s) effs) rebuilt"

definition mem_rebuild :: "platform \<Rightarrow> string \<Rightarrow> string option \<Rightarrow> mem_ledger \<Rightarrow> mem_ledger \<times> divergence list" where
  "mem_rebuild pf s limit l =
     (let folded = fold_events pf (as_of limit (saga_events s (ml_events l)));
          sagas = pj_sagas (ml_pj l); effs = pj_effects (ml_pj l);
          stored_sagas = (case map_of sagas s of Some x \<Rightarrow> [(s, x)] | None \<Rightarrow> []);
          stored_effects = set_effects [] (map snd (saga_effects s effs));
          divs = diff_projections (pj_sagas folded) (pj_effects folded) stored_sagas stored_effects s;
          sagas' = (case map_of (pj_sagas folded) s of Some x \<Rightarrow> AList.update s x sagas | None \<Rightarrow> sagas)
      in (l\<lparr>ml_pj := (ml_pj l)\<lparr>pj_sagas := sagas', pj_effects := replace_effects s (map snd (pj_effects folded)) effs\<rparr>\<rparr>, divs))"

section \<open>Lemmas on effect tables\<close>

definition well_keyed :: "(string \<times> effect) list \<Rightarrow> bool" where
  "well_keyed effs \<longleftrightarrow> distinct (map fst effs) \<and> (\<forall>(k, e) \<in> set effs. ef_effect_id e = k)"

lemma well_keyed_fold: "well_keyed (pj_effects (fold_events pf evs))"
  using fold_events_ok [of pf evs] by (auto simp: projections_ok_def well_keyed_def)

lemma well_keyed_map_of: "well_keyed effs \<Longrightarrow> (k, e) \<in> set effs \<Longrightarrow> ef_effect_id e = k \<and> map_of effs k = Some e"
  by (auto simp: well_keyed_def)

lemma well_keyed_filter: "well_keyed effs \<Longrightarrow> well_keyed (filter P effs)"
  by (auto simp: well_keyed_def distinct_map_filter)

lemma well_keyed_update: "well_keyed effs \<Longrightarrow> well_keyed (AList.update (ef_effect_id e) e effs)"
  by (auto simp: well_keyed_def distinct_update dest!: set_alist_update)

lemma well_keyed_set: "well_keyed base \<Longrightarrow> well_keyed (set_effects base es)"
  by (induction es rule: rev_induct) (simp_all add: set_effects_def well_keyed_update)

lemma set_effects_map_of:
  assumes "distinct (map ef_effect_id es)"
  shows "map_of (set_effects base es) k =
    (case map_of (map (\<lambda>e. (ef_effect_id e, e)) es) k of Some e \<Rightarrow> Some e | None \<Rightarrow> map_of base k)"
  using assms
proof (induction es rule: rev_induct)
  case (snoc e es)
  then have "map_of (map (\<lambda>e. (ef_effect_id e, e)) es) (ef_effect_id e) = None"
    by (auto simp: map_of_eq_None_iff)
  with snoc show ?case by (auto simp: set_effects_def update_conv' map_of_append map_add_def split: option.split)
qed (simp add: set_effects_def)

lemma well_keyed_snd:
  assumes "well_keyed effs"
  shows "map (\<lambda>e. (ef_effect_id e, e)) (map snd effs) = effs" "distinct (map ef_effect_id (map snd effs))"
proof -
  show eq: "map (\<lambda>e. (ef_effect_id e, e)) (map snd effs) = effs"
    using assms by (auto simp: well_keyed_def intro!: map_idI)
  have "map ef_effect_id (map snd effs) = map fst effs" using assms by (auto simp: well_keyed_def)
  then show "distinct (map ef_effect_id (map snd effs))" using assms by (simp only: well_keyed_def)
qed

lemma stored_effects_map_of:
  assumes "well_keyed effs"
  shows "map_of (set_effects [] (map snd (saga_effects s effs))) k = map_of (saga_effects s effs) k"
proof -
  have "well_keyed (saga_effects s effs)" using assms by (simp add: saga_effects_def well_keyed_filter)
  from well_keyed_snd [OF this] show ?thesis by (simp add: set_effects_map_of split: option.split)
qed

lemma set_effects_from:
  "(k, e) \<in> set (set_effects base es) \<Longrightarrow> (k, e) \<in> set base \<or> (e \<in> set es \<and> k = ef_effect_id e)"
  by (induction es arbitrary: k e rule: rev_induct) (auto simp: set_effects_def dest!: set_alist_update)

section \<open>Ledgers fed by appends\<close>

text \<open>The arguments of one call of \<^verbatim>\<open>append\<close>: the event, the fsync request, the next event id and the time.\<close>

type_synonym append_call = "event \<times> bool option \<times> string \<times> int"

fun append_all :: "platform \<Rightarrow> ledger_config \<Rightarrow> append_call list \<Rightarrow> mem_ledger \<Rightarrow> mem_ledger" where
  "append_all pf cfg [] l = l"
| "append_all pf cfg ((ev, req, ident, now) # calls) l = append_all pf cfg calls (fst (mem_append pf cfg ev req ident now l))"

definition consistent :: "platform \<Rightarrow> mem_ledger \<Rightarrow> bool" where
  "consistent pf l \<longleftrightarrow> ml_pj l = fold_events pf (ml_events l)"

lemma push_event_sel [simp]:
  "ml_events (push_event pf cfg ev req now l) = ml_events l @ [ev]"
  "ml_pj (push_event pf cfg ev req now l) = apply_event pf (ml_pj l) ev"
  "ml_closed (push_event pf cfg ev req now l) = ml_closed l"
  "ml_anchoring (push_event pf cfg ev req now l) = ml_anchoring l"
  by (simp_all add: push_event_def mark_fsync_def)

lemma anchor_event_type:
  "anchor_event pf l ident now = Some ev \<Longrightarrow> ev_type ev = ''ledger_anchored'' \<and> ev_saga_id ev = anchor_saga_id"
  by (auto simp: anchor_event_def chain_event_def anchor_body_def Let_def)

text \<open>What an append does to the events: the event, then possibly one anchor.\<close>

lemma mem_append_cases:
  assumes "mem_append pf cfg ev req ident now l = (l', err)"
  obtains "l' = l" "err = Some ClosedLedger"
  | "ml_events l' = ml_events l @ [ev]" "ml_pj l' = apply_event pf (ml_pj l) ev" "err = None"
  | a l1 where "anchor_event pf l1 ident now = Some a" "ml_events l1 = ml_events l @ [ev]" "ml_pj l1 = apply_event pf (ml_pj l) ev"
      "ml_events l' = ml_events l @ [ev, a]" "ml_pj l' = apply_event pf (apply_event pf (ml_pj l) ev) a" "err = None"
proof (cases "ml_closed l")
  case True
  with assms that(1) show ?thesis by (simp add: mem_append_def)
next
  case False
  let ?l1 = "push_event pf cfg ev req now l"
  show ?thesis
  proof (cases "ml_anchoring l \<or> \<not> anchor_due cfg ?l1 now \<or> anchor_event pf ?l1 ident now = None")
    case True
    have "(l', err) = maybe_tick_anchor pf cfg ident now ?l1" using False assms by (simp add: mem_append_def)
    also have "\<dots> = (?l1, None)" using True by (auto simp: maybe_tick_anchor_def fire_anchor_def)
    finally have "l' = ?l1" "err = None" by simp_all
    with that(2) show ?thesis by simp
  next
    case due: False
    then obtain a where a: "anchor_event pf ?l1 ident now = Some a" by auto
    from due a False assms have "l' = (push_event pf cfg a None now ?l1)
        \<lparr>ml_anchor_count := int (length (ml_events (push_event pf cfg a None now ?l1))), ml_anchor_ms := Some now\<rparr>" "err = None"
      by (auto simp: mem_append_def maybe_tick_anchor_def fire_anchor_def Let_def)
    with that(3) [OF a] show ?thesis by simp
  qed
qed

lemma consistent_create: "consistent pf (create_memory pf initial now)"
  by (simp add: consistent_def create_memory_def)

lemma consistent_append:
  assumes "consistent pf l" "mem_append pf cfg ev req ident now l = (l', err)"
  shows "consistent pf l'"
  using assms(2)
proof (cases rule: mem_append_cases)
  case 1
  with assms(1) show ?thesis by simp
next
  case 2
  with assms(1) show ?thesis by (simp add: consistent_def fold_events_snoc)
next
  case (3 a l1)
  have "fold_events pf (ml_events l @ [ev, a]) = apply_event pf (fold_events pf (ml_events l @ [ev])) a"
    using fold_events_snoc [of pf "ml_events l @ [ev]" a] by simp
  with 3 assms(1) show ?thesis by (simp add: consistent_def fold_events_snoc)
qed

lemma touched_anchor: "ev_type ev = ''ledger_anchored'' \<Longrightarrow> touched ev = None"
  by (simp add: touched_def effect_events_def Let_def)

lemma owned_append:
  assumes "owned own (ml_events l)" "owned own [ev]" "mem_append pf cfg ev req ident now l = (l', err)"
  shows "owned own (ml_events l')"
  using assms(3)
proof (cases rule: mem_append_cases)
  case (3 a l1)
  have "touched a = None" using anchor_event_type [OF 3(1)] touched_anchor by blast
  with 3 assms(1,2) show ?thesis by (simp add: owned_def)
qed (use assms(1,2) in simp_all)

lemma append_all_ok:
  assumes "consistent pf l" "owned own (ml_events l)" "owned own (map fst calls)"
  shows "consistent pf (append_all pf cfg calls l) \<and> owned own (ml_events (append_all pf cfg calls l))"
  using assms
proof (induction calls arbitrary: l)
  case Nil
  then show ?case by simp
next
  case (Cons call calls)
  obtain ev req ident now where call: "call = (ev, req, ident, now)" by (metis surj_pair)
  obtain l' err where app: "mem_append pf cfg ev req ident now l = (l', err)" by fastforce
  from Cons.prems(3) call have "owned own [ev]" "owned own (map fst calls)" by (simp_all add: owned_def)
  with consistent_append [OF Cons.prems(1) app] owned_append [OF Cons.prems(2) _ app] Cons.IH [of l']
  show ?case by (simp add: call app)
qed

section \<open>Rebuilding\<close>

lemma consistent_rebuild:
  assumes "consistent pf l" "owned own (ml_events l)"
  shows "snd (mem_rebuild pf s None l) = []"
proof -
  let ?effs = "pj_effects (ml_pj l)" and ?folded = "fold_events pf (saga_events s (ml_events l))"
  have pj: "ml_pj l = fold_events pf (ml_events l)" using assms(1) by (simp add: consistent_def)
  note wk = well_keyed_fold [of pf "ml_events l", folded pj]
  from fold_saga_local [OF assms(2), of pf s] have
    effs: "pj_effects ?folded = saga_effects s ?effs" and
    saga: "map_of (pj_sagas ?folded) s = map_of (pj_sagas (ml_pj l)) s" by (simp_all add: pj)
  have keyed: "well_keyed (saga_effects s ?effs)" using wk by (simp add: saga_effects_def well_keyed_filter)
  have "diff_projections (pj_sagas ?folded) (pj_effects ?folded)
      (case map_of (pj_sagas (ml_pj l)) s of Some x \<Rightarrow> [(s, x)] | None \<Rightarrow> [])
      (set_effects [] (map snd (saga_effects s ?effs))) s = []"
  proof (rule diff_projections_same, goal_cases)
    case 1
    show ?case using saga by (simp split: option.split)
  next
    case (2 k e)
    then have "(k, e) \<in> set (saga_effects s ?effs)" by (simp add: effs)
    from well_keyed_map_of [OF keyed this] show ?case by (auto simp: effs stored_effects_map_of [OF wk])
  next
    case (3 k e)
    then obtain k' where "(k', e) \<in> set (saga_effects s ?effs)" using set_effects_from [OF 3(1)] by auto
    from well_keyed_map_of [OF keyed this] show ?case by (auto simp: effs)
  qed
  then show ?thesis by (simp add: mem_rebuild_def as_of_def Let_def)
qed

lemma fold_one_saga:
  assumes "\<And>ev. ev \<in> set evs \<Longrightarrow> ev_saga_id ev = s" "(k, e) \<in> set (pj_effects (fold_events pf evs))"
  shows "ef_saga_id e = s"
proof -
  have "owned (\<lambda>_. s) evs" using assms(1) by (auto simp: owned_def list_all_iff split: option.split)
  moreover have "map_of (pj_effects (fold_events pf evs)) k = Some e"
    using assms(2) fold_events_ok [of pf evs] by (simp add: projections_ok_def)
  ultimately show ?thesis by (rule owned_effects)
qed

lemma saga_events_as_of: "ev \<in> set (as_of limit (saga_events s evs)) \<Longrightarrow> ev_saga_id ev = s"
  by (auto simp: as_of_def saga_events_def split: option.splits if_splits)

lemma option_pick:
  "(\<And>e. b = Some e \<Longrightarrow> \<not> P e) \<Longrightarrow> (\<And>e. a = Some e \<Longrightarrow> P e) \<Longrightarrow>
   (case (case a of Some e \<Rightarrow> Some e | None \<Rightarrow> b) of Some e \<Rightarrow> if P e then Some e else None | None \<Rightarrow> None) = a"
  by (cases a; cases b) auto

text \<open>After a rebuild of a saga with events its stored effects are exactly the rebuilt ones.\<close>

lemma replaced_effects:
  assumes "well_keyed effs" "well_keyed rebuilt" "\<And>k e. (k, e) \<in> set rebuilt \<Longrightarrow> ef_saga_id e = s"
  shows "well_keyed (replace_effects s (map snd rebuilt) effs)"
    and "map_of (saga_effects s (replace_effects s (map snd rebuilt) effs)) k = map_of rebuilt k"
proof -
  let ?base = "filter (\<lambda>(k, e). ef_saga_id e \<noteq> s) effs"
  have base: "well_keyed ?base" using assms(1) by (rule well_keyed_filter)
  then show wk: "well_keyed (replace_effects s (map snd rebuilt) effs)"
    by (simp add: replace_effects_def well_keyed_set)
  have get: "map_of (replace_effects s (map snd rebuilt) effs) k = (case map_of rebuilt k of Some e \<Rightarrow> Some e | None \<Rightarrow> map_of ?base k)"
    using well_keyed_snd [OF assms(2)] by (simp add: replace_effects_def set_effects_map_of)
  have other: "ef_saga_id e \<noteq> s" if "map_of ?base k = Some e" for e
    using map_of_SomeD [OF that] by auto
  have same: "ef_saga_id e = s" if "map_of rebuilt k = Some e" for e
    using map_of_SomeD [OF that] assms(3) by blast
  have "map_of (saga_effects s (replace_effects s (map snd rebuilt) effs)) k =
      (case map_of (replace_effects s (map snd rebuilt) effs) k of Some e \<Rightarrow> if ef_saga_id e = s then Some e else None | None \<Rightarrow> None)"
    using wk by (intro saga_effects_map_of) (simp add: well_keyed_def)
  then show "map_of (saga_effects s (replace_effects s (map snd rebuilt) effs)) k = map_of rebuilt k"
    unfolding get by (rule trans) (rule option_pick [where P = "\<lambda>e. ef_saga_id e = s", OF other same])
qed

lemma rebuild_twice:
  assumes "well_keyed (pj_effects (ml_pj l))" "as_of limit (saga_events s (ml_events l)) \<noteq> []"
  shows "snd (mem_rebuild pf s limit (fst (mem_rebuild pf s limit l))) = []"
proof -
  let ?slice = "as_of limit (saga_events s (ml_events l))"
  let ?folded = "fold_events pf ?slice" and ?effs = "pj_effects (ml_pj l)"
  let ?effs' = "replace_effects s (map snd (pj_effects ?folded)) ?effs"
  have own: "ef_saga_id e = s" if "(k, e) \<in> set (pj_effects ?folded)" for k e
    using fold_one_saga [OF _ that, of s] saga_events_as_of by blast
  note wkf = well_keyed_fold [of pf ?slice]
  note wk' = replaced_effects(1) [OF assms(1) wkf own]
  have stored: "map_of (set_effects [] (map snd (saga_effects s ?effs'))) k = map_of (pj_effects ?folded) k" for k
    using stored_effects_map_of [OF wk'] replaced_effects(2) [OF assms(1) wkf own] by simp
  have "saga_events s ?slice = ?slice"
    unfolding saga_events_def [of s ?slice] by (rule filter_True) (use saga_events_as_of in blast)
  with assms(2) fold_events_saga [of pf ?slice s] obtain sa where sa: "map_of (pj_sagas ?folded) s = Some sa"
    by (cases "map_of (pj_sagas ?folded) s") auto
  have "diff_projections (pj_sagas ?folded) (pj_effects ?folded) [(s, sa)] (set_effects [] (map snd (saga_effects s ?effs'))) s = []"
  proof (rule diff_projections_same, goal_cases)
    case 1
    show ?case using sa by simp
  next
    case (2 k e)
    from well_keyed_map_of [OF wkf 2(1)] show ?case by (auto simp: stored)
  next
    case (3 k e)
    have "well_keyed (set_effects [] (map snd (saga_effects s ?effs')))"
      by (rule well_keyed_set) (simp add: well_keyed_def)
    from well_keyed_map_of [OF this 3(1)] have "ef_effect_id e = k" "map_of (pj_effects ?folded) k = Some e"
      unfolding stored by blast+
    then show ?case by auto
  qed
  then show ?thesis by (simp add: mem_rebuild_def Let_def sa update_conv')
qed

section \<open>The chain of the anchors\<close>

lemma chain_links_last_hash: "chain_links pf pk h n xs \<Longrightarrow> last_hash h xs = (if xs = [] then h else hash_of (last xs))"
proof (induction xs arbitrary: h n)
  case (Cons x xs)
  then show ?case by (cases "ev_hash x") (auto simp: hash_of_def)
qed simp

lemma anchor_chain_push:
  assumes "verify_from pf None 0 (genesis_hash pf anchor_saga_id) 1 (saga_events anchor_saga_id (ml_events l)) = ChainOk"
    and "anchor_event pf l ident now = Some a"
  shows "verify_from pf None 0 (genesis_hash pf anchor_saga_id) 1 (saga_events anchor_saga_id (ml_events l @ [a])) = ChainOk"
proof -
  let ?g = "genesis_hash pf anchor_saga_id" and ?prior = "saga_events anchor_saga_id (ml_events l)"
  let ?body = "anchor_body pf (pj_sagas (ml_pj l)) (last_opt (pj_anchors (ml_pj l))) ?prior ident now"
  have "ev_prev_hash ?body = last_hash ?g ?prior"
    using assms(1) chain_links_last_hash by (fastforce simp: verify_from_iff anchor_body_def Let_def)
  with assms(2) have linked: "chain_event pf ?body (last_hash ?g ?prior) = Some a"
    by (simp add: anchor_event_def Let_def)
  have body: "ev_chain_seq ?body = 1 + int (length ?prior)" "ev_sig ?body = None" by (simp_all add: anchor_body_def Let_def)
  from chain_links_linked [OF linked, of None] body assms(1) have "verify_from pf None 0 ?g 1 (?prior @ [a]) = ChainOk"
    by (simp add: verify_from_iff chain_links_append)
  with anchor_event_type [OF assms(2)] show ?thesis by (simp add: saga_events_snoc)
qed

lemma anchor_chain_append:
  assumes "verify_from pf None 0 (genesis_hash pf anchor_saga_id) 1 (saga_events anchor_saga_id (ml_events l)) = ChainOk"
    and "ev_saga_id ev \<noteq> anchor_saga_id" "mem_append pf cfg ev req ident now l = (l', err)"
  shows "verify_from pf None 0 (genesis_hash pf anchor_saga_id) 1 (saga_events anchor_saga_id (ml_events l')) = ChainOk"
  using assms(3)
proof (cases rule: mem_append_cases)
  case (3 a l1)
  have "saga_events anchor_saga_id (ml_events l1) = saga_events anchor_saga_id (ml_events l)"
    using 3(2) assms(2) by (simp add: saga_events_snoc)
  then have "verify_from pf None 0 (genesis_hash pf anchor_saga_id) 1 (saga_events anchor_saga_id (ml_events l1 @ [a])) = ChainOk"
    using anchor_chain_push [OF _ 3(1)] assms(1) by simp
  with 3 show ?thesis by simp
qed (use assms in \<open>simp_all add: saga_events_snoc\<close>)

lemma anchor_chain_all:
  assumes "verify_from pf None 0 (genesis_hash pf anchor_saga_id) 1 (saga_events anchor_saga_id (ml_events l)) = ChainOk"
    and "list_all (\<lambda>c. ev_saga_id (fst c) \<noteq> anchor_saga_id) calls"
  shows "verify_from pf None 0 (genesis_hash pf anchor_saga_id) 1
    (saga_events anchor_saga_id (ml_events (append_all pf cfg calls l))) = ChainOk"
  using assms
proof (induction calls arbitrary: l)
  case (Cons call calls)
  obtain ev req ident now where call: "call = (ev, req, ident, now)" by (metis surj_pair)
  obtain l' err where app: "mem_append pf cfg ev req ident now l = (l', err)" by fastforce
  from Cons.IH [OF anchor_chain_append [OF Cons.prems(1) _ app]] Cons.prems(2) app show ?case by (simp add: call)
qed simp

section \<open>Attempts\<close>

datatype attempt_op = AppendAttempt attempt | UpdateAttempt attempt

text \<open>The keys of the attempts a sequence of calls has added; every other call is refused or an update.\<close>

fun run_attempts :: "int \<Rightarrow> attempt_op list \<Rightarrow> mem_ledger \<Rightarrow> string list \<times> mem_ledger" where
  "run_attempts now [] l = ([], l)"
| "run_attempts now (AppendAttempt row # ops) l =
     (case mem_append_attempt row now l of
        (l', None) \<Rightarrow> (case run_attempts now ops l' of (ks, l2) \<Rightarrow> (at_key row # ks, l2))
      | (l', Some e) \<Rightarrow> run_attempts now ops l')"
| "run_attempts now (UpdateAttempt row # ops) l = run_attempts now ops (mem_update_attempt row now l)"

definition known_keys :: "mem_ledger \<Rightarrow> string set" where
  "known_keys l = dom (map_of (ml_by_key l))"

lemma known_keys_append:
  assumes "mem_append_attempt row now l = (l', r)"
  shows "(if at_key row \<in> known_keys l then l' = l \<and> r = Some (DuplicateAttempt (at_key row))
          else known_keys l' = insert (at_key row) (known_keys l) \<and> r = None)"
  using assms by (auto simp: mem_append_attempt_def known_keys_def mark_fsync_def update_conv' split: if_splits)

lemma known_keys_update: "known_keys (mem_update_attempt row now l) = insert (at_key row) (known_keys l)"
  by (simp add: mem_update_attempt_def known_keys_def mark_fsync_def update_conv')

lemma run_attempts_keys:
  "run_attempts now ops l = (ks, l') \<Longrightarrow> distinct ks \<and> set ks \<inter> known_keys l = {} \<and> set ks \<union> known_keys l \<subseteq> known_keys l'"
proof (induction ops arbitrary: l l' ks)
  case Nil
  then show ?case by simp
next
  case (Cons op ops)
  show ?case
  proof (cases op)
    case (AppendAttempt row)
    obtain l1 r where app: "mem_append_attempt row now l = (l1, r)" by fastforce
    obtain ks1 l2 where rest: "run_attempts now ops l1 = (ks1, l2)" by fastforce
    note known = known_keys_append [OF app] and ih = Cons.IH [OF rest]
    show ?thesis
    proof (cases "at_key row \<in> known_keys l")
      case True
      with known have "l1 = l" "r = Some (DuplicateAttempt (at_key row))" by simp_all
      with Cons.prems AppendAttempt app rest ih show ?thesis by simp
    next
      case False
      with known have new: "known_keys l1 = insert (at_key row) (known_keys l)" "r = None" by simp_all
      with Cons.prems AppendAttempt app rest have "ks = at_key row # ks1" "l' = l2" by simp_all
      with ih new False show ?thesis by auto
    qed
  next
    case (UpdateAttempt row)
    with Cons.prems Cons.IH [of "mem_update_attempt row now l" ks] show ?thesis by (auto simp: known_keys_update)
  qed
qed

section \<open>Properties\<close>

text \<open>
  C36: Rebuilding the projections of a saga in a ledger that has been fed by appends alone, anchors
  included, reports no divergence, when no effect id is shared by two sagas: the incremental projections
  and the fold over the events of the one saga agree.
\<close>

theorem rebuild_no_divergence:
  assumes "owned own (initial @ map fst calls)"
  shows "snd (mem_rebuild pf s None (append_all pf cfg calls (create_memory pf initial now))) = []"
proof -
  have "owned own (ml_events (create_memory pf initial now))" "owned own (map fst calls)"
    using assms by (simp_all add: create_memory_def)
  from append_all_ok [OF consistent_create this] show ?thesis using consistent_rebuild by blast
qed

lemma well_keyed_upsert:
  "well_keyed (pj_effects (ml_pj l)) \<Longrightarrow> well_keyed (pj_effects (ml_pj (mem_upsert_effect e l)))"
  by (simp add: mem_upsert_effect_def well_keyed_update)

lemma verify_chain_genesis: "verify_chain pf pk (Some g) evs = verify_from pf pk 0 (genesis_hash pf g) 1 evs"
  by (cases evs) (simp_all add: verify_chain_def)

definition sample_config :: ledger_config where
  "sample_config = \<lparr>lc_kind = MemoryLedger, lc_fsync = FsyncNever, lc_fsync_interval = 200, lc_anchor_every = 1, lc_anchor_interval = 60000\<rparr>"

lemma rebuild_no_divergence_witness:
  "snd (mem_rebuild sample_platform ''s'' None
      (append_all sample_platform sample_config [(sample_opened, None, ''a'', 5)] (create_memory sample_platform [] 0))) = []"
  by (rule rebuild_no_divergence [where own = "\<lambda>_. ''s''"])
    (simp add: sample_opened_def sample_typed_def sample_event_def)

text \<open>
  A rebuild repairs whatever was written to the projections of a saga with events: after it, a second
  rebuild over the same events finds no divergence.
\<close>

theorem rebuild_repairs:
  assumes "well_keyed (pj_effects (ml_pj l))" "as_of limit (mem_read_saga l s) \<noteq> []"
  shows "snd (mem_rebuild pf s limit (fst (mem_rebuild pf s limit l))) = []"
  using rebuild_twice assms by (simp add: mem_read_saga_def)

lemma rebuild_repairs_witness:
  "snd (mem_rebuild sample_platform ''s'' None (fst (mem_rebuild sample_platform ''s'' None
      (mem_upsert_effect ((opened_effect sample_opened (payload_of sample_opened))\<lparr>ef_tier := ''T1''\<rparr>)
        (create_memory sample_platform [sample_opened] 0))))) = []"
  by (rule rebuild_repairs, rule well_keyed_upsert)
    (simp_all add: create_memory_def well_keyed_fold mem_read_saga_def mem_upsert_effect_def saga_events_def as_of_def
      sample_opened_def sample_typed_def sample_event_def)

text \<open>
  The anchors a ledger writes by itself form a hash chain that verifies from the genesis hash of the
  anchor saga, whatever other events are appended between them.
\<close>

theorem anchor_chain_verifies:
  assumes "list_all (\<lambda>c. ev_saga_id (fst c) \<noteq> anchor_saga_id) calls"
  shows "verify_chain pf None (Some anchor_saga_id)
    (mem_read_saga (append_all pf cfg calls (create_memory pf [] now)) anchor_saga_id) = ChainOk"
  unfolding verify_chain_genesis mem_read_saga_def
  by (rule anchor_chain_all [OF _ assms]) (simp add: create_memory_def saga_events_def)

lemma anchor_chain_verifies_witness:
  "verify_chain sample_platform None (Some anchor_saga_id)
     (mem_read_saga (append_all sample_platform sample_config [(sample_opened, None, ''a'', 5), (sample_opened, None, ''b'', 6)]
        (create_memory sample_platform [] 0)) anchor_saga_id) = ChainOk"
  by (rule anchor_chain_verifies) (simp add: sample_opened_def sample_typed_def sample_event_def anchor_saga_id_def)

text \<open>
  An idempotency key is used at most once: in any sequence of attempt appends and updates the keys of
  the appends that succeed are distinct and new, and every other append of a known key is refused as a
  duplicate and changes nothing.
\<close>

theorem attempt_keys_once:
  assumes "run_attempts now ops l = (ks, l')"
  shows "distinct ks \<and> set ks \<inter> known_keys l = {}
    \<and> (at_key row \<in> set ks \<longrightarrow> mem_append_attempt row later l' = (l', Some (DuplicateAttempt (at_key row))))"
  using run_attempts_keys [OF assms] known_keys_append [of row later l'] by (cases "mem_append_attempt row later l'") auto

definition sample_attempt :: attempt where
  "sample_attempt = \<lparr>at_id = ''a1'', at_key = ''k'', at_effect_id = ''e'', at_plan_id = ''p'', at_step_index = 0, at_fence = 1,
     at_state = Started, at_started = ''t'', at_finished = None, at_error = None, at_response = None\<rparr>"

lemma attempt_keys_once_witness:
  "fst (run_attempts 0 [AppendAttempt sample_attempt, AppendAttempt (sample_attempt\<lparr>at_id := ''a2''\<rparr>)]
      (create_memory sample_platform [] 0)) = [''k'']
   \<and> snd (mem_append_attempt sample_attempt 1 (snd (run_attempts 0 [AppendAttempt sample_attempt] (create_memory sample_platform [] 0))))
      = Some (DuplicateAttempt ''k'')"
proof -
  have "run_attempts 0 [AppendAttempt sample_attempt] (create_memory sample_platform [] 0)
      = ([''k''], snd (run_attempts 0 [AppendAttempt sample_attempt] (create_memory sample_platform [] 0)))"
    by (simp add: mem_append_attempt_def create_memory_def mark_fsync_def sample_attempt_def)
  from attempt_keys_once [OF this, where row = sample_attempt and later = 1] show ?thesis
    by (simp add: mem_append_attempt_def create_memory_def mark_fsync_def sample_attempt_def)
qed

definition blobs_ok :: "platform \<Rightarrow> mem_ledger \<Rightarrow> bool" where
  "blobs_ok pf l \<longleftrightarrow> (\<forall>k b. map_of (ml_blobs l) k = Some b \<longrightarrow> k = blob_id_for pf (bl_data b))"

lemma blobs_ok_put: "blobs_ok pf l \<Longrightarrow> blobs_ok pf (fst (mem_put_blob pf bytes now l))"
  by (auto simp: blobs_ok_def mem_put_blob_def Let_def update_conv' split: option.split)

text \<open>
  A stored blob reads back as the bytes that were put, or another text with the same SHA-256 digest
  was stored before; a blob put again only counts one reference more.
\<close>

theorem blob_roundtrip:
  assumes "blobs_ok pf l" "mem_put_blob pf bytes now l = (l', k)"
  shows "blobs_ok pf l' \<and> (mem_get_blob l' k = Some bytes
    \<or> (\<exists>other. mem_get_blob l k = Some other \<and> other \<noteq> bytes \<and> sha256_hex pf other = sha256_hex pf bytes))"
proof (cases "map_of (ml_blobs l) (blob_id_for pf bytes)")
  case None
  with assms blobs_ok_put [OF assms(1), of bytes now] show ?thesis
    by (auto simp: mem_put_blob_def mem_get_blob_def Let_def update_conv')
next
  case (Some b)
  with assms(1) have "blob_id_for pf bytes = blob_id_for pf (bl_data b)" by (simp add: blobs_ok_def)
  with Some assms blobs_ok_put [OF assms(1), of bytes now] show ?thesis
    by (auto simp: mem_put_blob_def mem_get_blob_def blob_id_for_def Let_def update_conv')
qed

lemma blob_roundtrip_witness:
  "mem_get_blob (fst (mem_put_blob sample_platform ''data'' 0 (create_memory sample_platform [] 0))) (blob_id_for sample_platform ''data'') = Some ''data''"
proof -
  have "blobs_ok sample_platform (create_memory sample_platform [] 0)" by (simp add: blobs_ok_def create_memory_def)
  moreover have "mem_put_blob sample_platform ''data'' 0 (create_memory sample_platform [] 0)
      = (fst (mem_put_blob sample_platform ''data'' 0 (create_memory sample_platform [] 0)), blob_id_for sample_platform ''data'')"
    by (simp add: mem_put_blob_def create_memory_def Let_def)
  ultimately show ?thesis using blob_roundtrip [of sample_platform "create_memory sample_platform [] 0" "''data''" 0]
    by (simp add: mem_get_blob_def create_memory_def)
qed

end
