(* ===== verification/SqlLedger.thy ===== *)
theory SqlLedger
  imports Ledger
begin

text \<open>
  The SQL ledger, \<^verbatim>\<open>createSqlLedger\<close> of \<^verbatim>\<open>sdk-ts/src/ledger/types.ts\<close>, over the tables and constraints of
  \<^verbatim>\<open>packages/core/migrations/001_init.sql\<close>: primary keys, the unique columns, and the foreign keys that
  SQLite enforces.  A table is a list of typed rows; theory \<open>Rows\<close> has their conversion from and to
  columns.  A violated constraint is \<open>ConstraintFailed\<close>; an operation returns the state it leaves behind
  together with the error, since an append is several statements and not one transaction.

  The result is a refinement: as long as no statement fails, storing an event in the tables and applying
  it to the maps of the memory ledger give the same events, sagas, effects and anchors.
\<close>

section \<open>The tables\<close>

record sql_blob =
  sb_bytes :: int
  sb_created :: string
  sb_refcount :: int
  sb_storage :: blob_storage
  sb_inline :: "string option"
  sb_path :: "string option"

record sql_ledger =
  sq_events :: "event list"
  sq_sagas :: "(string \<times> saga) list"
  sq_effects :: "(string \<times> effect) list"
  sq_attempts :: "(string \<times> attempt) list"
  sq_leases :: lease_map
  sq_plans :: "(string \<times> plan) list"
  sq_blobs :: "(string \<times> sql_blob) list"
  sq_anchors :: "anchor list"
  sq_compensators :: "(string \<times> compensator_row) list"
  sq_event_count :: int
  sq_anchor_count :: int
  sq_anchor_ms :: "int option"
  sq_last_fsync :: int
  sq_bootstrapped :: bool
  sq_anchoring :: bool
  sq_closed :: bool

definition sql_config :: "ledger_kind \<Rightarrow> ledger_options \<Rightarrow> ledger_error + ledger_config" where
  "sql_config kind opts =
     (let mode = orelse (lo_fsync opts) FsyncInterval
      in if reject_fsync_never kind (lo_fsync opts) then Inl FsyncNeverRejected
         else if reject_fsync_never kind (Some mode) then Inl FsyncNeverRejected
         else Inr \<lparr>lc_kind = kind, lc_fsync = mode, lc_fsync_interval = orelse (lo_fsync_interval opts) default_fsync_interval,
                   lc_anchor_every = orelse (lo_anchor_every opts) default_anchor_every,
                   lc_anchor_interval = orelse (lo_anchor_interval opts) default_anchor_interval\<rparr>)"

definition sql_want_fsync :: "ledger_config \<Rightarrow> int \<Rightarrow> bool \<Rightarrow> bool option \<Rightarrow> int \<Rightarrow> bool" where
  "sql_want_fsync cfg last_ms mandatory requested now =
     (if lc_fsync cfg = FsyncNever then False
      else if mandatory \<or> requested = Some True then True
      else if lc_fsync cfg = FsyncAlways then True
      else now - last_ms \<ge> lc_fsync_interval cfg)"

type_synonym sql_result = "sql_ledger \<times> ledger_error option"

text \<open>The next statement, unless one has failed.\<close>

fun after :: "sql_result \<Rightarrow> (sql_ledger \<Rightarrow> sql_result) \<Rightarrow> sql_result" where
  "after (l, None) f = f l"
| "after (l, Some e) f = (l, Some e)"

section \<open>Appending\<close>

definition max_anchor :: "anchor list \<Rightarrow> anchor option" where
  "max_anchor ans = last_opt (sort_key an_seq ans)"

definition bootstrap_counts :: "platform \<Rightarrow> int \<Rightarrow> sql_ledger \<Rightarrow> sql_ledger" where
  "bootstrap_counts pf now l =
     (if sq_bootstrapped l then l
      else
        let n = int (length (sq_events l))
        in l\<lparr>sq_event_count := n,
             sq_anchor_ms := (case max_anchor (sq_anchors l) of Some a \<Rightarrow> pf_date_parse pf (an_anchored_at a) | None \<Rightarrow> Some now),
             sq_anchor_count := (if sq_anchors l = [] then 0 else n),
             sq_bootstrapped := True\<rparr>)"

definition insert_event :: "event \<Rightarrow> bool \<Rightarrow> int \<Rightarrow> sql_ledger \<Rightarrow> sql_result" where
  "insert_event ev fsync now l =
     (if list_ex (\<lambda>e. ev_id e = ev_id ev \<or> (ev_saga_id e = ev_saga_id ev \<and> ev_chain_seq e = ev_chain_seq ev)) (sq_events l)
      then (l, Some (ConstraintFailed ''receipt_events''))
      else (let l1 = l\<lparr>sq_events := sq_events l @ [ev], sq_event_count := sq_event_count l + 1\<rparr>
            in if fsync then l1\<lparr>sq_last_fsync := now\<rparr> else l1, None))"

definition sql_get_saga :: "sql_ledger \<Rightarrow> string \<Rightarrow> saga option" where
  "sql_get_saga l s = map_of (sq_sagas l) s"

definition sql_upsert_saga :: "saga \<Rightarrow> sql_ledger \<Rightarrow> sql_result" where
  "sql_upsert_saga s l =
     (if sa_key s \<noteq> None \<and> list_ex (\<lambda>(k, t). k \<noteq> sa_saga_id s \<and> sa_key t = sa_key s) (sq_sagas l)
      then (l, Some (ConstraintFailed ''sagas.key''))
      else (l\<lparr>sq_sagas := AList.update (sa_saga_id s) s (sq_sagas l)\<rparr>, None))"

definition sql_get_effect :: "sql_ledger \<Rightarrow> string \<Rightarrow> effect option" where
  "sql_get_effect l k = map_of (sq_effects l) k"

definition sql_list_effects :: "sql_ledger \<Rightarrow> string \<Rightarrow> effect list" where
  "sql_list_effects l s = sort_key ef_seq (filter (\<lambda>e. ef_saga_id e = s) (map snd (sq_effects l)))"

definition sql_upsert_effect :: "effect \<Rightarrow> sql_ledger \<Rightarrow> sql_result" where
  "sql_upsert_effect e l =
     (if list_ex (\<lambda>(k, f). k \<noteq> ef_effect_id e \<and> ef_saga_id f = ef_saga_id e \<and> ef_seq f = ef_seq e) (sq_effects l)
      then (l, Some (ConstraintFailed ''effects.seq''))
      else if sql_get_saga l (ef_saga_id e) = None then (l, Some (ConstraintFailed ''effects.saga_id''))
      else (l\<lparr>sq_effects := AList.update (ef_effect_id e) e (sq_effects l)\<rparr>, None))"

definition sql_append_anchor :: "anchor \<Rightarrow> sql_ledger \<Rightarrow> sql_ledger" where
  "sql_append_anchor a l = l\<lparr>sq_anchors := add_anchor a (sq_anchors l)\<rparr>"

text \<open>The projections of one saga as \<^verbatim>\<open>append\<close> loads them, and the event applied to them.\<close>

definition local_projections :: "sql_ledger \<Rightarrow> string \<Rightarrow> projections" where
  "local_projections l s =
     \<lparr>pj_sagas = (case sql_get_saga l s of Some x \<Rightarrow> [(s, x)] | None \<Rightarrow> []),
      pj_effects = set_effects [] (sql_list_effects l s), pj_anchors = []\<rparr>"

definition store_projections :: "event \<Rightarrow> projections \<Rightarrow> sql_ledger \<Rightarrow> sql_result" where
  "store_projections ev pj l =
     after
       (after
          (case map_of (pj_sagas pj) (ev_saga_id ev) of Some s \<Rightarrow> sql_upsert_saga s l | None \<Rightarrow> (l, None))
          (\<lambda>l1. let eid = event_effect_id ev (payload_of ev)
                in if eid = [] then (l1, None)
                   else case map_of (pj_effects pj) eid of Some e \<Rightarrow> sql_upsert_effect e l1 | None \<Rightarrow> (l1, None)))
       (\<lambda>l2. (foldl (\<lambda>l a. sql_append_anchor a l) l2 (pj_anchors pj), None))"

definition store_event :: "platform \<Rightarrow> ledger_config \<Rightarrow> event \<Rightarrow> bool option \<Rightarrow> int \<Rightarrow> sql_ledger \<Rightarrow> sql_result" where
  "store_event pf cfg ev requested now l =
     (let l0 = bootstrap_counts pf now l;
          fsync = sql_want_fsync cfg (sq_last_fsync l0) (is_wal_event (ev_type ev)) requested now
      in after (insert_event ev fsync now l0)
           (\<lambda>l1. store_projections ev (apply_event pf (local_projections l1 (ev_saga_id ev)) ev) l1))"

definition sql_read_saga :: "sql_ledger \<Rightarrow> string \<Rightarrow> event list" where
  "sql_read_saga l s = sort_key ev_chain_seq (saga_events s (sq_events l))"

definition sql_fire_anchor :: "platform \<Rightarrow> ledger_config \<Rightarrow> string \<Rightarrow> int \<Rightarrow> sql_ledger \<Rightarrow> sql_result" where
  "sql_fire_anchor pf cfg ident now l =
     (if sq_anchoring l then (l, None)
      else
        let body = anchor_body pf (sq_sagas l) (max_anchor (sq_anchors l)) (sql_read_saga l anchor_saga_id) ident now
        in case chain_event pf body (ev_prev_hash body) of
             None \<Rightarrow> (l, None)
           | Some ev \<Rightarrow>
               if sq_closed l then (l, Some ClosedLedger)
               else after (store_event pf cfg ev None now l)
                 (\<lambda>l1. (l1\<lparr>sq_anchor_count := sq_event_count l1, sq_anchor_ms := Some now\<rparr>, None)))"

definition sql_anchor_due :: "ledger_config \<Rightarrow> sql_ledger \<Rightarrow> int \<Rightarrow> bool" where
  "sql_anchor_due cfg l now \<longleftrightarrow>
     (sq_event_count l - sq_anchor_count l \<ge> lc_anchor_every cfg
      \<or> (case sq_anchor_ms l of Some ms \<Rightarrow> now - ms \<ge> lc_anchor_interval cfg | None \<Rightarrow> False))
     \<and> user_sagas (sq_sagas l) \<noteq> []"

definition sql_maybe_tick_anchor :: "platform \<Rightarrow> ledger_config \<Rightarrow> string \<Rightarrow> int \<Rightarrow> sql_ledger \<Rightarrow> sql_result" where
  "sql_maybe_tick_anchor pf cfg ident now l =
     (if sq_anchoring l then (l, None)
      else let l0 = bootstrap_counts pf now l
           in if \<not> sql_anchor_due cfg l0 now then (l0, None) else sql_fire_anchor pf cfg ident now l0)"

definition sql_append :: "platform \<Rightarrow> ledger_config \<Rightarrow> event \<Rightarrow> bool option \<Rightarrow> string \<Rightarrow> int \<Rightarrow> sql_ledger \<Rightarrow> sql_result" where
  "sql_append pf cfg ev requested ident now l =
     (if sq_closed l then (l, Some ClosedLedger)
      else after (store_event pf cfg ev requested now l) (sql_maybe_tick_anchor pf cfg ident now))"

section \<open>Attempts, plans, blobs and compensators\<close>

definition sql_append_attempt :: "attempt \<Rightarrow> int \<Rightarrow> sql_ledger \<Rightarrow> sql_result" where
  "sql_append_attempt row now l =
     (if list_ex (\<lambda>(k, r). k = at_id row \<or> at_key r = at_key row) (sq_attempts l)
      then (l, Some (DuplicateAttempt (at_key row)))
      else (l\<lparr>sq_attempts := AList.update (at_id row) row (sq_attempts l), sq_last_fsync := now\<rparr>, None))"

definition sql_get_attempt :: "sql_ledger \<Rightarrow> string \<Rightarrow> attempt option" where
  "sql_get_attempt l k = map_of (sq_attempts l) k"

definition sql_attempt_by_key :: "sql_ledger \<Rightarrow> string \<Rightarrow> attempt option" where
  "sql_attempt_by_key l key = find (\<lambda>r. at_key r = key) (map snd (sq_attempts l))"

definition sql_update_attempt :: "attempt \<Rightarrow> int \<Rightarrow> sql_ledger \<Rightarrow> sql_ledger" where
  "sql_update_attempt row now l =
     (case map_of (sq_attempts l) (at_id row) of
        Some r \<Rightarrow>
          l\<lparr>sq_attempts := AList.update (at_id row)
              (r\<lparr>at_fence := at_fence row, at_state := at_state row, at_finished := at_finished row,
                at_error := at_error row, at_response := at_response row\<rparr>) (sq_attempts l),
            sq_last_fsync := now\<rparr>
      | None \<Rightarrow> l\<lparr>sq_last_fsync := now\<rparr>)"

text \<open>A plan row refers to an effect and is unique for its effect and hash.\<close>

definition sql_put_plan :: "plan \<Rightarrow> sql_ledger \<Rightarrow> sql_result" where
  "sql_put_plan p l =
     (if list_ex (\<lambda>(k, q). k \<noteq> pl_plan_id p \<and> pl_effect_id q = pl_effect_id p \<and> pl_hash q = pl_hash p) (sq_plans l)
      then (l, Some (ConstraintFailed ''plans.plan_hash''))
      else if sql_get_effect l (pl_effect_id p) = None then (l, Some (ConstraintFailed ''plans.effect_id''))
      else (l\<lparr>sq_plans := AList.update (pl_plan_id p) p (sq_plans l)\<rparr>, None))"

definition sql_get_plan :: "sql_ledger \<Rightarrow> string \<Rightarrow> plan option" where
  "sql_get_plan l k = map_of (sq_plans l) k"

definition sql_put_blob :: "platform \<Rightarrow> string \<Rightarrow> int \<Rightarrow> sql_ledger \<Rightarrow> sql_ledger \<times> string" where
  "sql_put_blob pf bytes now l =
     (let k = blob_id_for pf bytes; inline = int (length bytes) \<le> blob_inline_max
      in case map_of (sq_blobs l) k of
           Some b \<Rightarrow> (l\<lparr>sq_blobs := AList.update k (b\<lparr>sb_refcount := sb_refcount b + 1\<rparr>) (sq_blobs l)\<rparr>, k)
         | None \<Rightarrow>
             (l\<lparr>sq_blobs := AList.update k
                \<lparr>sb_bytes = int (length bytes), sb_created = pf_iso pf now, sb_refcount = 1,
                 sb_storage = (if inline then InlineBlob else FileBlob),
                 sb_inline = (if inline then Some bytes else None), sb_path = (if inline then None else Some k)\<rparr> (sq_blobs l)\<rparr>, k))"

definition sql_get_blob :: "sql_ledger \<Rightarrow> string \<Rightarrow> string option" where
  "sql_get_blob l k = (case map_of (sq_blobs l) k of Some b \<Rightarrow> sb_inline b | None \<Rightarrow> None)"

definition sql_upsert_compensator :: "compensator_row \<Rightarrow> sql_ledger \<Rightarrow> sql_ledger" where
  "sql_upsert_compensator row l = l\<lparr>sq_compensators := AList.update (cr_id row) row (sq_compensators l)\<rparr>"

definition sql_get_compensator :: "sql_ledger \<Rightarrow> string \<Rightarrow> compensator_row option" where
  "sql_get_compensator l k = map_of (sq_compensators l) k"

definition sql_list_anchors :: "sql_ledger \<Rightarrow> anchor list" where
  "sql_list_anchors l = sort_key an_seq (sq_anchors l)"

definition sql_close :: "sql_ledger \<Rightarrow> sql_ledger" where
  "sql_close l = l\<lparr>sq_closed := True\<rparr>"

section \<open>Rebuilding\<close>

text \<open>Deleting an effect that a plan refers to violates the foreign key of the plan.\<close>

definition delete_effects :: "string \<Rightarrow> sql_ledger \<Rightarrow> sql_result" where
  "delete_effects s l =
     (if list_ex (\<lambda>(k, p). list_ex (\<lambda>(i, e). i = pl_effect_id p \<and> ef_saga_id e = s) (sq_effects l)) (sq_plans l)
      then (l, Some (ConstraintFailed ''plans.effect_id''))
      else (l\<lparr>sq_effects := filter (\<lambda>(k, e). ef_saga_id e \<noteq> s) (sq_effects l)\<rparr>, None))"

definition sql_rebuild :: "platform \<Rightarrow> string \<Rightarrow> string option \<Rightarrow> sql_ledger \<Rightarrow> sql_result \<times> divergence list" where
  "sql_rebuild pf s limit l =
     (let folded = fold_events pf (as_of limit (sql_read_saga l s));
          stored = local_projections l s;
          divs = diff_projections (pj_sagas folded) (pj_effects folded) (pj_sagas stored) (pj_effects stored) s
      in (after
            (after (delete_effects s l)
               (\<lambda>l1. case map_of (pj_sagas folded) s of Some x \<Rightarrow> sql_upsert_saga x l1 | None \<Rightarrow> (l1, None)))
            (\<lambda>l2. foldl (\<lambda>r e. after r (sql_upsert_effect e)) (l2, None) (map snd (pj_effects folded))),
          divs))"

section \<open>The tables refine the maps of the memory ledger\<close>

lemma after_None: "after r f = (l', None) \<longleftrightarrow> (\<exists>l1. r = (l1, None) \<and> f l1 = (l', None))"
  by (cases "(r, f)" rule: after.cases) auto

text \<open>Same events, same maps, same anchors; the tables are keyed by the ids of their rows.\<close>

definition refines :: "mem_ledger \<Rightarrow> sql_ledger \<Rightarrow> bool" where
  "refines m l \<longleftrightarrow>
     ml_events m = sq_events l
     \<and> map_of (pj_sagas (ml_pj m)) = map_of (sq_sagas l)
     \<and> map_of (pj_effects (ml_pj m)) = map_of (sq_effects l)
     \<and> pj_anchors (ml_pj m) = sq_anchors l
     \<and> well_keyed (sq_effects l)
     \<and> (\<forall>s x. map_of (sq_sagas l) s = Some x \<longrightarrow> sa_saga_id x = s)"

text \<open>An event that names the effect it works on in one way, and the effects of one saga only.\<close>

definition well_addressed :: "event \<Rightarrow> sql_ledger \<Rightarrow> bool" where
  "well_addressed ev l \<longleftrightarrow>
     (case touched ev of
        None \<Rightarrow> True
      | Some k \<Rightarrow> k \<noteq> [] \<and> event_effect_id ev (payload_of ev) = k
          \<and> (case map_of (sq_effects l) k of Some e \<Rightarrow> ef_saga_id e = ev_saga_id ev | None \<Rightarrow> True))"

lemma well_keyed_distinct: "well_keyed effs \<Longrightarrow> distinct (map fst effs)"
  by (simp add: well_keyed_def)

lemma local_effects_map_of:
  assumes "well_keyed (sq_effects l)"
  shows "map_of (pj_effects (local_projections l s)) k = map_of (saga_effects s (sq_effects l)) k"
proof -
  let ?es = "filter (\<lambda>e. ef_saga_id e = s) (map snd (sq_effects l))"
  have es: "?es = map snd (saga_effects s (sq_effects l))"
    by (simp add: saga_effects_def filter_map o_def case_prod_beta')
  have keyed: "well_keyed (saga_effects s (sq_effects l))" using assms by (simp add: saga_effects_def well_keyed_filter)
  note snd = well_keyed_snd [OF keyed]
  have "distinct (map ef_effect_id (sort_key ef_seq ?es))"
    using snd(2) unfolding es by (metis distinct_map distinct_sort set_sort)
  moreover have "map_of (map (\<lambda>e. (ef_effect_id e, e)) (sort_key ef_seq ?es)) = map_of (map (\<lambda>e. (ef_effect_id e, e)) ?es)"
  proof (rule map_of_inject_set [THEN iffD2])
    show "distinct (map fst (map (\<lambda>e. (ef_effect_id e, e)) (sort_key ef_seq ?es)))"
      using \<open>distinct (map ef_effect_id (sort_key ef_seq ?es))\<close> by (simp add: o_def)
    show "distinct (map fst (map (\<lambda>e. (ef_effect_id e, e)) ?es))" using snd(2) unfolding es by (simp add: o_def)
  qed simp
  ultimately show ?thesis
    using snd(1) by (simp add: local_projections_def sql_list_effects_def set_effects_map_of es split: option.split)
qed

lemma local_saga: "map_of (pj_sagas (local_projections l s)) s = map_of (sq_sagas l) s"
  by (simp add: local_projections_def sql_get_saga_def split: option.split)

lemma insert_event_None:
  "insert_event ev f now l = (l', None) \<Longrightarrow>
     sq_events l' = sq_events l @ [ev] \<and> sq_sagas l' = sq_sagas l \<and> sq_effects l' = sq_effects l \<and> sq_anchors l' = sq_anchors l"
  by (auto simp: insert_event_def Let_def split: if_splits)

lemma bootstrap_sel [simp]:
  "sq_events (bootstrap_counts pf now l) = sq_events l" "sq_sagas (bootstrap_counts pf now l) = sq_sagas l"
  "sq_effects (bootstrap_counts pf now l) = sq_effects l" "sq_anchors (bootstrap_counts pf now l) = sq_anchors l"
  by (simp_all add: bootstrap_counts_def Let_def)

lemma sql_upsert_saga_None:
  "sql_upsert_saga s l = (l', None) \<Longrightarrow> l' = l\<lparr>sq_sagas := AList.update (sa_saga_id s) s (sq_sagas l)\<rparr>"
  by (auto simp: sql_upsert_saga_def split: if_splits)

lemma sql_upsert_effect_None:
  "sql_upsert_effect e l = (l', None) \<Longrightarrow> l' = l\<lparr>sq_effects := AList.update (ef_effect_id e) e (sq_effects l)\<rparr>"
  by (auto simp: sql_upsert_effect_def split: if_splits)

lemma foldl_anchors:
  "foldl (\<lambda>l a. sql_append_anchor a l) l ans = l\<lparr>sq_anchors := foldl (\<lambda>xs a. add_anchor a xs) (sq_anchors l) ans\<rparr>"
  by (induction ans arbitrary: l) (simp_all add: sql_append_anchor_def)

text \<open>What a successful \<^verbatim>\<open>store_projections\<close> leaves in the tables.\<close>

lemma store_projections_None:
  assumes "store_projections ev pj l = (l', None)" "map_of (pj_sagas pj) (ev_saga_id ev) = Some s" "sa_saga_id s = ev_saga_id ev"
  shows "sq_events l' = sq_events l
    \<and> map_of (sq_sagas l') = (map_of (sq_sagas l))(ev_saga_id ev \<mapsto> s)
    \<and> sq_anchors l' = foldl (\<lambda>xs a. add_anchor a xs) (sq_anchors l) (pj_anchors pj)
    \<and> sq_effects l' = (let eid = event_effect_id ev (payload_of ev) in
        if eid = [] then sq_effects l
        else case map_of (pj_effects pj) eid of Some e \<Rightarrow> AList.update (ef_effect_id e) e (sq_effects l) | None \<Rightarrow> sq_effects l)"
  using assms
  by (auto simp: store_projections_def after_None foldl_anchors Let_def update_conv'
      dest!: sql_upsert_saga_None sql_upsert_effect_None split: if_splits option.splits)
    (drule arg_cong [where f = sq_effects], simp)

text \<open>The event applied to the loaded part of the tables agrees with the event applied to everything.\<close>

lemma apply_local_saga:
  assumes "map_of (pj_sagas pj) (ev_saga_id ev) = map_of (pj_sagas pj') (ev_saga_id ev)"
  shows "map_of (pj_sagas (apply_event pf pj ev)) (ev_saga_id ev) = map_of (pj_sagas (apply_event pf pj' ev)) (ev_saga_id ev)"
  using saga_at_cong [OF assms, of pf] by (simp add: apply_event_sagas update_conv')

lemma apply_local_effect:
  assumes "map_of (pj_effects pj) k = map_of (pj_effects pj') k"
  shows "map_of (pj_effects (apply_event pf pj ev)) k = map_of (pj_effects (apply_event pf pj' ev)) k"
  using assms by (auto simp: apply_event_effects update_conv' on_effect_map_of split: option.split)

lemma apply_event_other_effect:
  "touched ev \<noteq> Some k \<Longrightarrow> map_of (pj_effects (apply_event pf pj ev)) k = map_of (pj_effects pj) k"
  by (auto simp: apply_event_effects update_conv' on_effect_map_of touched_opened split: option.split)

lemma apply_event_touched_id:
  assumes "touched ev = Some k" "map_of (pj_effects (apply_event pf pj ev)) k = Some e"
    and "\<And>k e. map_of (pj_effects pj) k = Some e \<Longrightarrow> ef_effect_id e = k"
  shows "ef_effect_id e = k"
  using assms by (auto simp: apply_event_effects update_conv' on_effect_map_of touched_opened split: if_splits)

lemma apply_event_anchors:
  "pj_anchors (apply_event pf pj ev) =
     (if ev_type ev = ''ledger_anchored'' then add_anchor (anchor_of ev (payload_of ev)) (pj_anchors pj) else pj_anchors pj)"
  by (simp add: apply_event_def Let_def)

lemma apply_event_saga_self:
  "\<exists>s. map_of (pj_sagas (apply_event pf pj ev)) (ev_saga_id ev) = Some s
     \<and> sa_saga_id s = sa_saga_id (orelse (map_of (pj_sagas pj) (ev_saga_id ev)) (empty_saga pf ev))"
  by (simp add: apply_event_sagas update_conv' saga_at_def Let_def)

lemma apply_event_sagas_map:
  "map_of (pj_sagas (apply_event pf pj ev)) =
     (map_of (pj_sagas pj))(ev_saga_id ev := map_of (pj_sagas (apply_event pf pj ev)) (ev_saga_id ev))"
  by (auto simp: apply_event_sagas update_conv')

lemma store_event_effects:
  fixes pf :: platform
  assumes "refines m l" "well_addressed ev l" "sq_effects l1 = sq_effects l"
  defines "loc \<equiv> apply_event pf (local_projections l1 (ev_saga_id ev)) ev" and "eid \<equiv> event_effect_id ev (payload_of ev)"
  defines "effs \<equiv> (if eid = [] then sq_effects l
      else case map_of (pj_effects loc) eid of Some e \<Rightarrow> AList.update (ef_effect_id e) e (sq_effects l) | None \<Rightarrow> sq_effects l)"
  shows "map_of (pj_effects (apply_event pf (ml_pj m) ev)) = map_of effs \<and> well_keyed effs"
proof -
  have wk: "well_keyed (sq_effects l)" and glob: "map_of (pj_effects (ml_pj m)) = map_of (sq_effects l)"
    using assms(1) by (simp_all add: refines_def)
  have keyed: "ef_effect_id e = k" if "map_of (sq_effects l) k = Some e" for k e
    using wk map_of_SomeD [OF that] by (auto simp: well_keyed_def)
  have local_get: "map_of (pj_effects (local_projections l1 (ev_saga_id ev))) k =
      (case map_of (sq_effects l) k of Some e \<Rightarrow> if ef_saga_id e = ev_saga_id ev then Some e else None | None \<Rightarrow> None)" for k
    using local_effects_map_of [of l1 "ev_saga_id ev"] saga_effects_map_of [OF well_keyed_distinct [OF wk]] wk assms(3) by simp
  have wke: "well_keyed effs" using wk by (auto simp: effs_def well_keyed_update split: option.split)
  show ?thesis
  proof (cases "touched ev")
    case None
    then have "pj_effects loc = pj_effects (local_projections l1 (ev_saga_id ev))"
      and same: "pj_effects (apply_event pf (ml_pj m) ev) = pj_effects (ml_pj m)"
      by (auto simp: loc_def apply_event_effects touched_opened)
    then have "map_of effs = map_of (sq_effects l)"
      by (auto simp: effs_def local_get update_conv' keyed split: option.split if_splits)
    with same glob wke show ?thesis by simp
  next
    case (Some k)
    with assms(2) have k: "k \<noteq> []" "eid = k"
      and own: "\<And>e. map_of (sq_effects l) k = Some e \<Longrightarrow> ef_saga_id e = ev_saga_id ev"
      by (auto simp: well_addressed_def eid_def)
    have "map_of (pj_effects (local_projections l1 (ev_saga_id ev))) k = map_of (pj_effects (ml_pj m)) k"
      using own by (auto simp: local_get glob split: option.split)
    then have at_k: "map_of (pj_effects loc) k = map_of (pj_effects (apply_event pf (ml_pj m) ev)) k"
      unfolding loc_def by (rule apply_local_effect)
    have ident: "ef_effect_id e = k" if "map_of (pj_effects (apply_event pf (ml_pj m) ev)) k = Some e" for e
      using apply_event_touched_id [OF Some that] keyed glob by simp
    have "map_of (pj_effects (apply_event pf (ml_pj m) ev)) j = map_of effs j" for j
    proof (cases "j = k")
      case True
      have "map_of (pj_effects (apply_event pf (ml_pj m) ev)) k = None \<Longrightarrow> map_of (sq_effects l) k = None"
        using Some glob by (auto simp: apply_event_effects update_conv' on_effect_map_of touched_opened split: if_splits)
      with True at_k ident k show ?thesis
        by (cases "map_of (pj_effects (apply_event pf (ml_pj m) ev)) k") (simp_all add: effs_def update_conv')
    next
      case False
      with Some have "map_of (pj_effects (apply_event pf (ml_pj m) ev)) j = map_of (sq_effects l) j"
        using apply_event_other_effect [of ev j] glob by simp
      with False at_k ident k show ?thesis
        by (cases "map_of (pj_effects (apply_event pf (ml_pj m) ev)) k") (simp_all add: effs_def update_conv')
    qed
    with wke show ?thesis by blast
  qed
qed


definition empty_tables :: sql_ledger where
  "empty_tables = \<lparr>sq_events = [], sq_sagas = [], sq_effects = [], sq_attempts = [], sq_leases = (\<lambda>_. None), sq_plans = [],
     sq_blobs = [], sq_anchors = [], sq_compensators = [], sq_event_count = 0, sq_anchor_count = 0, sq_anchor_ms = None,
     sq_last_fsync = 0, sq_bootstrapped = False, sq_anchoring = False, sq_closed = False\<rparr>"

lemma refines_empty: "refines (create_memory pf [] now) empty_tables"
  by (simp add: refines_def create_memory_def empty_tables_def empty_projections_def well_keyed_def)


section \<open>The event table\<close>

definition events_unique :: "event list \<Rightarrow> bool" where
  "events_unique evs \<longleftrightarrow> distinct (map ev_id evs) \<and> distinct (map (\<lambda>e. (ev_saga_id e, ev_chain_seq e)) evs)"

lemma insert_event_unique:
  assumes "insert_event ev f now l = (l', r)" "events_unique (sq_events l)"
  shows "events_unique (sq_events l') \<and> (sq_events l' = sq_events l \<or> sq_events l' = sq_events l @ [ev])
    \<and> (r \<noteq> None \<longrightarrow> l' = l)"
proof (cases "list_ex (\<lambda>e. ev_id e = ev_id ev \<or> (ev_saga_id e = ev_saga_id ev \<and> ev_chain_seq e = ev_chain_seq ev)) (sq_events l)")
  case True
  with assms show ?thesis by (simp add: insert_event_def)
next
  case False
  then have "ev_id ev \<notin> ev_id ` set (sq_events l)"
    and "(ev_saga_id ev, ev_chain_seq ev) \<notin> (\<lambda>e. (ev_saga_id e, ev_chain_seq e)) ` set (sq_events l)"
    by (auto simp: list_ex_iff)
  moreover from False assms(1) have "r = None" "sq_events l' = sq_events l @ [ev]"
    by (auto simp: insert_event_def Let_def split: if_splits)
  ultimately show ?thesis using assms(2) by (simp add: events_unique_def)
qed

lemma after_events:
  assumes "\<And>l l' r. f l = (l', r) \<Longrightarrow> sq_events l' = sq_events l" "after x f = (l', r)"
  shows "sq_events l' = sq_events (fst x)"
  using assms(2) assms(1) by (cases "(x, f)" rule: after.cases) auto

lemma upsert_events:
  "sql_upsert_saga s l = (l', r) \<Longrightarrow> sq_events l' = sq_events l"
  "sql_upsert_effect e l = (l', r) \<Longrightarrow> sq_events l' = sq_events l"
  by (auto simp: sql_upsert_saga_def sql_upsert_effect_def split: if_splits)

lemma store_projections_events:
  assumes "store_projections ev pj l = (l', r)"
  shows "sq_events l' = sq_events l"
proof -
  let ?x = "case map_of (pj_sagas pj) (ev_saga_id ev) of Some s \<Rightarrow> sql_upsert_saga s l | None \<Rightarrow> (l, None)"
  have x: "sq_events (fst ?x) = sq_events l"
    by (cases "map_of (pj_sagas pj) (ev_saga_id ev)") (simp_all add: sql_upsert_saga_def)
  let ?f = "\<lambda>l1. let eid = event_effect_id ev (payload_of ev)
                in if eid = [] then (l1, None)
                   else case map_of (pj_effects pj) eid of Some e \<Rightarrow> sql_upsert_effect e l1 | None \<Rightarrow> (l1, None)"
  have f: "sq_events l' = sq_events l1" if "?f l1 = (l', r)" for l1 l' r
    using that by (cases "event_effect_id ev (payload_of ev) = []"; cases "map_of (pj_effects pj) (event_effect_id ev (payload_of ev))")
      (simp_all add: Let_def upsert_events(2))
  obtain l2 r2 where mid: "after ?x ?f = (l2, r2)" by fastforce
  have "sq_events l2 = sq_events l" using after_events [OF f mid] x by simp
  moreover have "after (l2, r2) (\<lambda>l2. (foldl (\<lambda>l a. sql_append_anchor a l) l2 (pj_anchors pj), None)) = (l', r)"
    using assms mid by (simp add: store_projections_def)
  then have "sq_events l' = sq_events l2" by (cases r2) (auto simp: foldl_anchors)
  ultimately show ?thesis by simp
qed

lemma store_event_unique:
  assumes "store_event pf cfg ev req now l = (l', r)" "events_unique (sq_events l)"
  shows "events_unique (sq_events l') \<and> (sq_events l' = sq_events l \<or> sq_events l' = sq_events l @ [ev])"
proof -
  let ?l0 = "bootstrap_counts pf now l"
  obtain f where f: "after (insert_event ev f now ?l0)
      (\<lambda>l1. store_projections ev (apply_event pf (local_projections l1 (ev_saga_id ev)) ev) l1) = (l', r)"
    using assms(1) by (auto simp: store_event_def Let_def)
  obtain l1 r1 where ins: "insert_event ev f now ?l0 = (l1, r1)" by fastforce
  note uniq = insert_event_unique [OF ins, unfolded bootstrap_sel, OF assms(2)]
  show ?thesis
  proof (cases r1)
    case None
    with f ins store_projections_events have "sq_events l' = sq_events l1" by fastforce
    with uniq show ?thesis by simp
  next
    case (Some e)
    with f ins uniq show ?thesis by auto
  qed
qed

lemma sql_tick_unique:
  assumes "sql_maybe_tick_anchor pf cfg ident now l = (l', r)" "events_unique (sq_events l)"
  shows "events_unique (sq_events l') \<and> (\<exists>more. sq_events l' = sq_events l @ more)"
proof (cases "sq_anchoring l")
  case True
  with assms show ?thesis by (simp add: sql_maybe_tick_anchor_def)
next
  case False
  let ?l0 = "bootstrap_counts pf now l"
  show ?thesis
  proof (cases "sql_anchor_due cfg ?l0 now")
    case False
    with \<open>\<not> sq_anchoring l\<close> assms have "sq_events l' = sq_events l" by (auto simp: sql_maybe_tick_anchor_def Let_def)
    with assms(2) show ?thesis by simp
  next
    case True
    with \<open>\<not> sq_anchoring l\<close> assms(1) have fire: "sql_fire_anchor pf cfg ident now ?l0 = (l', r)"
      by (simp add: sql_maybe_tick_anchor_def)
    let ?body = "anchor_body pf (sq_sagas ?l0) (max_anchor (sq_anchors ?l0)) (sql_read_saga ?l0 anchor_saga_id) ident now"
    have step: ?thesis if "store_event pf cfg ev None now ?l0 = (l2, r2)" "sq_events l' = sq_events l2" for ev l2 r2
      using store_event_unique [OF that(1)] that(2) assms(2) by auto
    show ?thesis
    proof (cases "sq_anchoring ?l0 \<or> chain_event pf ?body (ev_prev_hash ?body) = None \<or> sq_closed ?l0")
      case True
      with fire have "l' = ?l0" by (auto simp: sql_fire_anchor_def Let_def split: option.splits if_splits)
      with assms(2) show ?thesis by simp
    next
      case False
      then obtain ev where ev: "chain_event pf ?body (ev_prev_hash ?body) = Some ev" "\<not> sq_anchoring ?l0" "\<not> sq_closed ?l0" by auto
      obtain l2 r2 where st: "store_event pf cfg ev None now ?l0 = (l2, r2)" by fastforce
      with fire ev have "sq_events l' = sq_events l2" by (cases r2) (auto simp: sql_fire_anchor_def Let_def)
      with step [OF st] show ?thesis .
    qed
  qed
qed

text \<open>
  The event table is append-only and keeps its keys: whatever an append does, fails or succeeds, the
  earlier events stay in place, and event ids and the positions in the chains stay distinct, the anchors
  the ledger adds by itself included.
\<close>

theorem sql_events_append_only:
  assumes "events_unique (sq_events l)" "sql_append pf cfg ev requested ident now l = (l', r)"
  shows "events_unique (sq_events l') \<and> (\<exists>more. sq_events l' = sq_events l @ more)"
proof (cases "sq_closed l")
  case True
  with assms show ?thesis by (simp add: sql_append_def)
next
  case False
  obtain l1 r1 where st: "store_event pf cfg ev requested now l = (l1, r1)" by fastforce
  note one = store_event_unique [OF st assms(1)]
  show ?thesis
  proof (cases r1)
    case None
    with False st assms(2) have "sql_maybe_tick_anchor pf cfg ident now l1 = (l', r)" by (simp add: sql_append_def)
    from sql_tick_unique [OF this] one show ?thesis by auto
  next
    case (Some e)
    with False st assms(2) one show ?thesis by (auto simp: sql_append_def)
  qed
qed

lemma sql_events_append_only_witness:
  "events_unique (sq_events (fst (sql_append sample_platform sample_config sample_opened None ''a'' 0 empty_tables)))"
  using sql_events_append_only [of empty_tables sample_platform sample_config sample_opened None "''a''" 0
      "fst (sql_append sample_platform sample_config sample_opened None ''a'' 0 empty_tables)"
      "snd (sql_append sample_platform sample_config sample_opened None ''a'' 0 empty_tables)"]
  by (simp add: events_unique_def empty_tables_def)

section \<open>Where the SQL ledger loses data or stops\<close>

text \<open>A blob above the inline limit is recorded as a file, but no file is written and the bytes are lost.\<close>

lemma sql_large_blob_lost:
  assumes "blob_inline_max < int (length bytes)" "sql_put_blob pf bytes now l = (l', k)"
    and "map_of (sq_blobs l) (blob_id_for pf bytes) = None"
  shows "sql_get_blob l' k = None"
  using assms by (auto simp: sql_put_blob_def sql_get_blob_def Let_def update_conv')

text \<open>A rebuild fails on every saga that has a plan: the plan still refers to the deleted effect.\<close>

lemma sql_rebuild_blocked_by_plan:
  assumes "sql_put_plan p l = (l', None)" "sql_get_effect l (pl_effect_id p) = Some e" "ef_saga_id e = s"
  shows "snd (fst (sql_rebuild pf s limit l')) = Some (ConstraintFailed ''plans.effect_id'')"
proof -
  from assms(1) have l': "l' = l\<lparr>sq_plans := AList.update (pl_plan_id p) p (sq_plans l)\<rparr>"
    by (auto simp: sql_put_plan_def split: if_splits)
  have "(pl_plan_id p, p) \<in> set (sq_plans l')"
    unfolding l' by (simp add: map_of_SomeD update_conv')
  moreover have "(pl_effect_id p, e) \<in> set (sq_effects l')"
    using assms(2) by (simp add: l' sql_get_effect_def map_of_SomeD)
  ultimately have "delete_effects s l' = (l', Some (ConstraintFailed ''plans.effect_id''))"
    using assms(3) by (force simp: delete_effects_def list_ex_iff)
  then show ?thesis
    by (simp add: sql_rebuild_def Let_def)
qed

text \<open>An append is not atomic: it can report an error and leave the event in the table.\<close>

lemma append_not_atomic:
  "(case sql_append sample_platform sample_config
      (sample_opened\<lparr>ev_id := ''x2'', ev_chain_seq := 2, ev_effect_id := Some ''e2'',
         ev_payload := JObj [(''effect_id'', JStr ''e2''), (''seq'', JInt 4)]\<rparr>) None ''a'' 0
      (fst (store_event sample_platform sample_config sample_opened None 0 empty_tables)) of
    (l, r) \<Rightarrow> r = Some (ConstraintFailed ''effects.seq'') \<and> length (sq_events l) = 2)"
  by code_simp

end
