(* ===== verification/Action.thy ===== *)
theory Action
  imports Main
begin

text \<open>
  Actions: the asynchronous functions of the engine as functions of a state that return a result or
  throw.  An exception keeps the state reached so far, as the effects that precede a \<^verbatim>\<open>throw\<close> stay.

  An action \<open>keeps\<close> a relation when every run, normal or not, relates the state before to the state after;
  for a preorder the relation is kept by every composition, which is proved once in the locale \<open>preserved\<close>.
\<close>

text \<open>A \<^verbatim>\<open>VekRevertError\<close> with its code and message, or any other exception.\<close>

datatype engine_error = VrError string string | HostError string

type_synonym ('s, 'a) action = "'s \<Rightarrow> 's \<times> (engine_error + 'a)"

definition give :: "'a \<Rightarrow> ('s, 'a) action" where
  "give a = (\<lambda>s. (s, Inr a))"

definition throw :: "engine_error \<Rightarrow> ('s, 'a) action" where
  "throw e = (\<lambda>s. (s, Inl e))"

definition bind :: "('s, 'a) action \<Rightarrow> ('a \<Rightarrow> ('s, 'b) action) \<Rightarrow> ('s, 'b) action" where
  "bind m f = (\<lambda>s. case m s of (s', Inl e) \<Rightarrow> (s', Inl e) | (s', Inr a) \<Rightarrow> f a s')"

definition catching :: "('s, 'a) action \<Rightarrow> (engine_error \<Rightarrow> ('s, 'a) action) \<Rightarrow> ('s, 'a) action" where
  "catching m h = (\<lambda>s. case m s of (s', Inl e) \<Rightarrow> h e s' | (s', Inr a) \<Rightarrow> (s', Inr a))"

text \<open>\<^verbatim>\<open>try ... finally\<close>, for a final action that does not throw.\<close>

definition finally_do :: "('s, 'a) action \<Rightarrow> ('s \<Rightarrow> 's) \<Rightarrow> ('s, 'a) action" where
  "finally_do m f = (\<lambda>s. case m s of (s', r) \<Rightarrow> (f s', r))"

definition reads :: "('s \<Rightarrow> 'a) \<Rightarrow> ('s, 'a) action" where
  "reads f = (\<lambda>s. (s, Inr (f s)))"

definition modifies :: "('s \<Rightarrow> 's) \<Rightarrow> ('s, unit) action" where
  "modifies f = (\<lambda>s. (f s, Inr ()))"

definition only_if :: "bool \<Rightarrow> ('s, unit) action \<Rightarrow> ('s, unit) action" where
  "only_if b m = (if b then m else give ())"

fun each :: "('b \<Rightarrow> ('s, unit) action) \<Rightarrow> 'b list \<Rightarrow> ('s, unit) action" where
  "each f [] = give ()"
| "each f (x # xs) = bind (f x) (\<lambda>_. each f xs)"

definition keeps :: "('s \<Rightarrow> 's \<Rightarrow> bool) \<Rightarrow> ('s, 'a) action \<Rightarrow> bool" where
  "keeps R m \<longleftrightarrow> (\<forall>s. R s (fst (m s)))"

lemma keepsD: "keeps R m \<Longrightarrow> m s = (s', r) \<Longrightarrow> R s s'"
  by (metis fst_conv keeps_def)

lemma action_simps:
  "give a s = (s, Inr a)" "throw e s = (s, Inl e)" "reads f s = (s, Inr (f s))" "modifies g s = (g s, Inr ())"
  by (simp_all add: give_def throw_def reads_def modifies_def)

lemma bind_Inl: "m s = (s', Inl e) \<Longrightarrow> bind m f s = (s', Inl e)"
  by (simp add: bind_def)

lemma bind_Inr: "m s = (s', Inr a) \<Longrightarrow> bind m f s = f a s'"
  by (simp add: bind_def)

lemma bind_simps [simp]:
  "bind (give a) f = f a" "bind (throw e) f = throw e" "bind (reads g) f = (\<lambda>s. f (g s) s)"
  by (simp_all add: bind_def give_def throw_def reads_def)

lemma bind_Inr_iff: "bind m f s = (s2, Inr b) \<longleftrightarrow> (\<exists>s1 a. m s = (s1, Inr a) \<and> f a s1 = (s2, Inr b))"
  by (auto simp: bind_def split: prod.splits sum.splits)

lemma bind_Inl_iff:
  "bind m f s = (s2, Inl e) \<longleftrightarrow> m s = (s2, Inl e) \<or> (\<exists>s1 a. m s = (s1, Inr a) \<and> f a s1 = (s2, Inl e))"
  by (auto simp: bind_def split: prod.splits sum.splits)

lemma catching_Inr_iff:
  "catching m h s = (s2, Inr b) \<longleftrightarrow> m s = (s2, Inr b) \<or> (\<exists>s1 e. m s = (s1, Inl e) \<and> h e s1 = (s2, Inr b))"
  by (auto simp: catching_def split: prod.splits sum.splits)

lemma catching_Inl_iff:
  "catching m h s = (s2, Inl e) \<longleftrightarrow> (\<exists>s1 e1. m s = (s1, Inl e1) \<and> h e1 s1 = (s2, Inl e))"
  by (auto simp: catching_def split: prod.splits sum.splits)

locale preserved =
  fixes R :: "'s \<Rightarrow> 's \<Rightarrow> bool"
  assumes refl: "R s s"
    and trans: "R s t \<Longrightarrow> R t u \<Longrightarrow> R s u"
begin

lemma give [intro, simp]: "keeps R (give a)"
  by (simp add: keeps_def give_def refl)

lemma throw [intro, simp]: "keeps R (throw e)"
  by (simp add: keeps_def throw_def refl)

lemma reads [intro, simp]: "keeps R (reads f)"
  by (simp add: keeps_def reads_def refl)

lemma bind [intro]:
  assumes "keeps R m" "\<And>a. keeps R (f a)"
  shows "keeps R (bind m f)"
  unfolding keeps_def
proof
  fix s
  obtain s' r where m: "m s = (s', r)" by (cases "m s")
  with assms(1) have "R s s'" by (rule keepsD)
  with m assms(2) show "R s (fst (bind m f s))"
    by (cases r) (auto simp: bind_def keeps_def intro: trans)
qed

lemma reads_bind [intro]:
  assumes "\<And>a. keeps R (f a)"
  shows "keeps R (\<lambda>s. f (g s) s)"
  using assms by (simp add: keeps_def)

lemma catching [intro]:
  assumes "keeps R m" "\<And>e. keeps R (h e)"
  shows "keeps R (catching m h)"
  unfolding keeps_def
proof
  fix s
  obtain s' r where m: "m s = (s', r)" by (cases "m s")
  with assms(1) have "R s s'" by (rule keepsD)
  with m assms(2) show "R s (fst (catching m h s))"
    by (cases r) (auto simp: catching_def keeps_def intro: trans)
qed

lemma finally_do [intro]:
  assumes "keeps R m" "\<And>s. R s (f s)"
  shows "keeps R (finally_do m f)"
  using assms by (auto simp: keeps_def finally_do_def split: prod.split intro: trans)

lemma modifies [intro]: "(\<And>s. R s (f s)) \<Longrightarrow> keeps R (modifies f)"
  by (simp add: keeps_def modifies_def)

lemma only_if [intro]: "keeps R m \<Longrightarrow> keeps R (only_if b m)"
  by (simp add: only_if_def)

lemma each [intro]: "(\<And>x. keeps R (f x)) \<Longrightarrow> keeps R (each f xs)"
  by (induction xs) auto

lemma if_action [intro]: "(b \<Longrightarrow> keeps R m) \<Longrightarrow> (\<not> b \<Longrightarrow> keeps R n) \<Longrightarrow> keeps R (if b then m else n)"
  by simp

lemma case_option_action [intro]:
  "(x = None \<Longrightarrow> keeps R m) \<Longrightarrow> (\<And>a. x = Some a \<Longrightarrow> keeps R (f a)) \<Longrightarrow> keeps R (case x of None \<Rightarrow> m | Some a \<Rightarrow> f a)"
  by (cases x) simp_all

lemma case_sum_action [intro]:
  "(\<And>e. x = Inl e \<Longrightarrow> keeps R (g e)) \<Longrightarrow> (\<And>a. x = Inr a \<Longrightarrow> keeps R (f a)) \<Longrightarrow> keeps R (case x of Inl e \<Rightarrow> g e | Inr a \<Rightarrow> f a)"
  by (cases x) simp_all

lemma case_prod_action [intro]:
  "(\<And>a b. x = (a, b) \<Longrightarrow> keeps R (f a b)) \<Longrightarrow> keeps R (case x of (a, b) \<Rightarrow> f a b)"
  by (cases x) simp

end

section \<open>Actions on a part of the state\<close>

definition zoom :: "('s \<Rightarrow> 't) \<Rightarrow> ('t \<Rightarrow> 's \<Rightarrow> 's) \<Rightarrow> ('t, 'a) action \<Rightarrow> ('s, 'a) action" where
  "zoom part put m = (\<lambda>s. case m (part s) of (t, r) \<Rightarrow> (put t s, r))"

lemma zoom_keeps:
  assumes "keeps R m" "\<And>s t. R (part s) t \<Longrightarrow> Q s (put t s)"
  shows "keeps Q (zoom part put m)"
  using assms by (simp add: keeps_def zoom_def split_beta)

end
