(* ===== verification/Steps.thy ===== *)
theory Steps
  imports Action Ledger Plan
begin

text \<open>
  The execution of one step of a plan, \<^verbatim>\<open>sdk-ts/src/engine/step.ts\<close> and \<^verbatim>\<open>engine/steps/*.ts\<close>, and the
  probe for an effect of unknown outcome, \<^verbatim>\<open>engine/probe.ts\<close>.

  What lies outside the program is the type \<open>'w\<close>, reached only through \<open>world_ops\<close>: \<^verbatim>\<open>fetch\<close>, the
  database handle, the MCP client and the file system calls, each of which may change the world and may
  throw.  The ledger is reached for the preimage blob alone.
\<close>

section \<open>Error codes\<close>

fun vr_str :: "vr_code \<Rightarrow> string" where
  "vr_str VR1001 = ''VR1001''" | "vr_str VR1004 = ''VR1004''" | "vr_str VR1007 = ''VR1007''"
| "vr_str VR1010 = ''VR1010''" | "vr_str VR1012 = ''VR1012''" | "vr_str VR2001 = ''VR2001''"
| "vr_str VR2002 = ''VR2002''" | "vr_str VR2005 = ''VR2005''" | "vr_str VR2006 = ''VR2006''"
| "vr_str VR2011 = ''VR2011''" | "vr_str VR2015 = ''VR2015''" | "vr_str VR2020 = ''VR2020''"
| "vr_str VR2022 = ''VR2022''" | "vr_str VR3001 = ''VR3001''" | "vr_str VR3005 = ''VR3005''"
| "vr_str VR3006 = ''VR3006''" | "vr_str VR3007 = ''VR3007''" | "vr_str VR3008 = ''VR3008''"
| "vr_str VR3009 = ''VR3009''" | "vr_str VR3010 = ''VR3010''" | "vr_str VR3011 = ''VR3011''"
| "vr_str VR3012 = ''VR3012''" | "vr_str VR3014 = ''VR3014''" | "vr_str VR4001 = ''VR4001''"
| "vr_str VR4002 = ''VR4002''" | "vr_str VR4003 = ''VR4003''" | "vr_str VR4004 = ''VR4004''"
| "vr_str VR4005 = ''VR4005''" | "vr_str VR5001 = ''VR5001''" | "vr_str VR5002 = ''VR5002''"
| "vr_str VR5005 = ''VR5005''" | "vr_str VR5006 = ''VR5006''" | "vr_str VR5007 = ''VR5007''"
| "vr_str VR5009 = ''VR5009''" | "vr_str VR5010 = ''VR5010''" | "vr_str VR5011 = ''VR5011''"
| "vr_str VR5012 = ''VR5012''" | "vr_str VR5014 = ''VR5014''" | "vr_str VR6001 = ''VR6001''"
| "vr_str VR6003 = ''VR6003''" | "vr_str VR6004 = ''VR6004''" | "vr_str VR6006 = ''VR6006''"

definition vr :: "vr_code \<Rightarrow> string \<Rightarrow> engine_error" where
  "vr c d = VrError (vr_str c) d"

definition type_error :: engine_error where
  "type_error = HostError ''TypeError''"

text \<open>A pure check lifted to an action.\<close>

definition lift :: "engine_error + 'a \<Rightarrow> ('s, 'a) action" where
  "lift r = (\<lambda>s. (s, r))"

section \<open>Paths\<close>

text \<open>\<^verbatim>\<open>dirname\<close>, \<^verbatim>\<open>basename\<close> and \<^verbatim>\<open>join\<close> of \<^verbatim>\<open>node:path\<close> on POSIX.\<close>

definition strip_slashes :: "string \<Rightarrow> string" where
  "strip_slashes p = rev (dropWhile (\<lambda>c. c = CHR ''/'') (rev p))"

definition posix_basename :: "string \<Rightarrow> string" where
  "posix_basename p = rev (takeWhile (\<lambda>c. c \<noteq> CHR ''/'') (rev (strip_slashes p)))"

definition posix_dirname :: "string \<Rightarrow> string" where
  "posix_dirname p =
     (let body = strip_slashes p; rooted = starts_with p ''/'';
          before = rev (dropWhile (\<lambda>c. c \<noteq> CHR ''/'') (rev body))
      in if body = [] then (if rooted then ''/'' else ''.'')
         else if before = [] then ''.''
         else if before = ''/'' then ''/''
         else if before = ''//'' then ''//''
         else butlast before)"

definition posix_push :: "bool \<Rightarrow> string list \<Rightarrow> string \<Rightarrow> string list" where
  "posix_push rooted out p =
     (if p = ''..'' then (if out \<noteq> [] \<and> last out \<noteq> ''..'' then butlast out else if rooted then out else out @ [p])
      else out @ [p])"

definition posix_normalize :: "string \<Rightarrow> string" where
  "posix_normalize p =
     (let rooted = starts_with p ''/''; trail = ends_with p ''/'';
          body = js_join ''/'' (foldl (posix_push rooted) [] (filter (\<lambda>q. q \<noteq> [] \<and> q \<noteq> ''.'') (js_split CHR ''/'' p)))
      in if body = [] then (if rooted then ''/'' else if trail then ''./'' else ''.'')
         else (if rooted then ''/'' else []) @ body @ (if trail then ''/'' else []))"

definition posix_join :: "string \<Rightarrow> string \<Rightarrow> string" where
  "posix_join a b = posix_normalize (js_join ''/'' (filter (\<lambda>q. q \<noteq> []) [a, b]))"

section \<open>The outside world\<close>

datatype file_kind = RegularFile | Directory | Symlink

record file_stat =
  fi_kind :: file_kind
  fi_dev :: int
  fi_ino :: int
  fi_mtime_ns :: int

record http_request =
  hr_url :: string
  hr_method :: "json option"
  hr_headers :: "(string \<times> string) list"
  hr_body :: "string option"

text \<open>\<open>wo_open\<close> is the error code of opening with \<^verbatim>\<open>O_RDONLY | O_NOFOLLOW\<close>; \<open>wo_create\<close> opens with \<^verbatim>\<open>O_EXCL\<close> and writes.\<close>

record 'w world_ops =
  wo_fetch :: "http_request \<Rightarrow> ('w, int) action"
  wo_db :: "(string \<Rightarrow> json list \<Rightarrow> ('w, int) action) option"
  wo_db_get :: "(string \<Rightarrow> json \<Rightarrow> ('w, bool) action) option"
  wo_mcp :: "(string \<Rightarrow> json \<Rightarrow> ('w, json) action) option"
  wo_exists :: "string \<Rightarrow> 'w \<Rightarrow> bool"
  wo_open :: "string \<Rightarrow> 'w \<Rightarrow> string option"
  wo_realpath :: "string \<Rightarrow> 'w \<Rightarrow> engine_error + string"
  wo_lstat :: "string \<Rightarrow> 'w \<Rightarrow> engine_error + file_stat"
  wo_read :: "string \<Rightarrow> 'w \<Rightarrow> engine_error + string"
  wo_mkdirs :: "string \<Rightarrow> ('w, unit) action"
  wo_create :: "string \<Rightarrow> string \<Rightarrow> ('w, unit) action"
  wo_rename :: "string \<Rightarrow> string \<Rightarrow> ('w, unit) action"
  wo_chmod :: "string \<Rightarrow> int \<Rightarrow> ('w, unit) action"
  wo_rmdir :: "string \<Rightarrow> ('w, unit) action"
  wo_unlink :: "string \<Rightarrow> ('w, unit) action"

text \<open>A query: it may throw and leaves the world as it is.\<close>

definition asks :: "('w \<Rightarrow> engine_error + 'a) \<Rightarrow> ('w, 'a) action" where
  "asks f = (\<lambda>w. (w, f w))"

record step_ctx =
  sx_receipt :: receipt
  sx_signature :: "signature option"
  sx_attempt_id :: string
  sx_blob :: "string \<Rightarrow> string option"
  sx_credentials :: "(string \<Rightarrow> string option) option"
  sx_permits :: "string list option"
  sx_now :: int

record step_result =
  sr_kind :: string
  sr_path :: "string option"
  sr_sha256 :: "string option"
  sr_absent :: bool
  sr_status :: "int option"
  sr_via_404 :: bool
  sr_sql :: "string option"
  sr_rowcount :: "int option"
  sr_tool :: "string option"
  sr_value :: "json option"

definition plain_result :: "string \<Rightarrow> step_result" where
  "plain_result kind = \<lparr>sr_kind = kind, sr_path = None, sr_sha256 = None, sr_absent = False, sr_status = None,
     sr_via_404 = False, sr_sql = None, sr_rowcount = None, sr_tool = None, sr_value = None\<rparr>"

section \<open>SQL statements\<close>

definition safe_ident :: "string \<Rightarrow> bool" where
  "safe_ident s \<longleftrightarrow> s \<noteq> [] \<and> (is_alpha (hd s) \<or> hd s = CHR ''_'') \<and> list_all is_word s"

definition quote_ident :: "string \<Rightarrow> engine_error + string" where
  "quote_ident s = (if safe_ident s then Inr (CHR 0x22 # s @ [CHR 0x22]) else Inl (vr VR3009 (''unsafe identifier '' @ s)))"

definition scalar :: "json \<Rightarrow> engine_error + json" where
  "scalar v = (case v of JArr _ \<Rightarrow> Inl (vr VR3009 ''SQL value is not a scalar'')
     | JObj _ \<Rightarrow> Inl (vr VR3009 ''SQL value is not a scalar'') | _ \<Rightarrow> Inr v)"

definition and_then :: "'e + 'a \<Rightarrow> ('a \<Rightarrow> 'e + 'b) \<Rightarrow> 'e + 'b" where
  "and_then r f = (case r of Inl e \<Rightarrow> Inl e | Inr a \<Rightarrow> f a)"

definition equations :: "string \<Rightarrow> string list \<Rightarrow> string" where
  "equations sep quoted = js_join sep (map (\<lambda>q. q @ '' = ?'') quoted)"

definition assemble_sql :: "json \<Rightarrow> json \<Rightarrow> engine_error + (string \<times> json list)" where
  "assemble_sql step resolved =
     (let rec = as_record (Some resolved); stmt = field step ''statement'';
          quoted = (\<lambda>kvs. all_ok (map (quote_ident \<circ> fst) kvs)); scalars = (\<lambda>kvs. all_ok (map (scalar \<circ> snd) kvs))
      in and_then (quote_ident (stringify (map_of rec ''table''))) (\<lambda>table.
         if stmt = Some (JStr ''DELETE'') then
           (let conds = as_record (map_of rec ''where'')
            in if conds = [] then Inl (vr VR3009 ''bare WHERE'')
               else and_then (quoted conds) (\<lambda>cols. and_then (scalars conds) (\<lambda>params.
                 Inr (''DELETE FROM '' @ table @ '' WHERE '' @ equations '' AND '' cols, params))))
         else if stmt = Some (JStr ''UPDATE'') then
           (let sets = as_record (map_of rec ''set''); conds = as_record (map_of rec ''where'')
            in if sets = [] then Inl (vr VR3009 ''UPDATE without SET'')
               else if conds = [] then Inl (vr VR3009 ''bare WHERE'')
               else and_then (quoted sets) (\<lambda>set_cols. and_then (quoted conds) (\<lambda>cols.
                 and_then (scalars sets) (\<lambda>ps. and_then (scalars conds) (\<lambda>qs.
                 Inr (''UPDATE '' @ table @ '' SET '' @ equations '', '' set_cols @ '' WHERE '' @ equations '' AND '' cols, ps @ qs))))))
         else
           (let vals = as_record (map_of rec ''values'')
            in if vals = [] then Inl (vr VR3009 ''INSERT without values'')
               else and_then (quoted vals) (\<lambda>cols. and_then (scalars vals) (\<lambda>params.
                 Inr (''INSERT INTO '' @ table @ '' ('' @ js_join '', '' cols @ '') VALUES ('' @
                      js_join '', '' (map (\<lambda>_. ''?'') vals) @ '')'', params))))))"

text \<open>\<open>changes < min\<close> and \<open>min >= 1\<close> on the bounds as the step has them; \<open>changes > max\<close> likewise.\<close>

definition less_than :: "json option \<Rightarrow> int \<Rightarrow> bool" where
  "less_than v n \<longleftrightarrow>
     (case v of
        Some (JInt i) \<Rightarrow> i < n
      | Some (JFrac s) \<Rightarrow> frac_floor s < n
      | Some (JNonFinite s) \<Rightarrow> s = ''-Infinity''
      | Some (JStr s) \<Rightarrow> (case js_index s of Some k \<Rightarrow> int k < n | None \<Rightarrow> False)
      | Some (JBool b) \<Rightarrow> (if b then 1 else 0) < n
      | Some JNull \<Rightarrow> 0 < n
      | _ \<Rightarrow> False)"

text \<open>\<^verbatim>\<open>v >= 1\<close>: not below one, and comparable at all.\<close>

definition at_least_one :: "json option \<Rightarrow> bool" where
  "at_least_one v \<longleftrightarrow> greater_than v 0 \<and> \<not> less_than v 1"

definition execute_sql :: "'w world_ops \<Rightarrow> json \<Rightarrow> json \<Rightarrow> ('w, step_result) action" where
  "execute_sql ops step resolved =
     (case wo_db ops of
        None \<Rightarrow> throw (vr VR5001 ''sql step requires ctx.db'')
      | Some db \<Rightarrow>
          bind (lift (assemble_sql step resolved)) (\<lambda>(sql, params).
          bind (db sql params) (\<lambda>changes.
            case field step ''expect_rowcount'' of
              None \<Rightarrow> throw type_error
            | Some b \<Rightarrow>
                if greater_than (obj_get b ''min'') changes \<or> less_than (obj_get b ''max'') changes then
                  (if changes = 0 \<and> at_least_one (obj_get b ''min'') then throw (vr VR5006 (''rowcount '' @ show_int changes))
                   else throw (vr VR5001 (''rowcount '' @ show_int changes @ '' outside '' @ js_string_opt (obj_get b ''min'')
                          @ ''..'' @ js_string_opt (obj_get b ''max''))))
                else give ((plain_result ''sql_statement'')\<lparr>sr_sql := Some sql, sr_rowcount := Some changes\<rparr>))))"

section \<open>HTTP requests\<close>

definition credential_name :: "json \<Rightarrow> string option" where
  "credential_name v =
     (case ref_of v of Some s \<Rightarrow> if starts_with s ''credential.'' then Some (drop 11 s) else None | None \<Rightarrow> None)"

definition header_value :: "step_ctx \<Rightarrow> json \<Rightarrow> engine_error + string" where
  "header_value ctx v =
     (case credential_name v of
        Some name \<Rightarrow>
          (case (case sx_credentials ctx of Some f \<Rightarrow> f name | None \<Rightarrow> None) of
             None \<Rightarrow> Inl (vr VR5014 name) | Some secret \<Rightarrow> Inr secret)
      | None \<Rightarrow> Inr (stringify (Some v)))"

definition header_set :: "(string \<times> string) list \<Rightarrow> string \<Rightarrow> bool" where
  "header_set hs k \<longleftrightarrow> (case map_of hs k of Some v \<Rightarrow> v \<noteq> [] | None \<Rightarrow> False)"

definition step_headers :: "step_ctx \<Rightarrow> (string \<times> json) list \<Rightarrow> engine_error + (string \<times> string) list" where
  "step_headers ctx raw =
     and_then (all_ok (map (\<lambda>(k, v). map_sum id (Pair k) (header_value ctx v)) raw)) (\<lambda>hs.
       Inr (foldl (\<lambda>acc (k, v). AList.update k v acc) [(''X-VekRevert-Compensation'', sx_attempt_id ctx)] hs))"

definition build_request :: "json \<Rightarrow> json \<Rightarrow> step_ctx \<Rightarrow> engine_error + http_request" where
  "build_request step resolved ctx =
     (let rec = as_record (Some resolved); url = stringify (map_of rec ''url''); body = map_of rec ''body''
      in if url = [] then Inl (vr VR5001 ''http url empty'')
         else and_then (step_headers ctx (as_record (map_of rec ''headers''))) (\<lambda>hs.
           if nullish body then Inr \<lparr>hr_url = url, hr_method = field step ''method'', hr_headers = hs, hr_body = None\<rparr>
           else Inr \<lparr>hr_url = url, hr_method = field step ''method'',
                  hr_headers = (if \<not> header_set hs ''content-type'' \<and> \<not> header_set hs ''Content-Type''
                                then AList.update ''Content-Type'' ''application/json'' hs else hs),
                  hr_body = Some (case the body of JStr s \<Rightarrow> s | v \<Rightarrow> json_stringify v)\<rparr>))"

definition execute_http :: "'w world_ops \<Rightarrow> json \<Rightarrow> json \<Rightarrow> step_ctx \<Rightarrow> ('w, step_result) action" where
  "execute_http ops step resolved ctx =
     bind (lift (build_request step resolved ctx)) (\<lambda>req.
     bind (wo_fetch ops req) (\<lambda>status.
       case field step ''expect'' of
         None \<Rightarrow> throw type_error
       | Some ex \<Rightarrow>
           if status = 404 \<and> truthy (obj_get ex ''treat_404_as_compensated'') then
             give ((plain_result ''http_request'')\<lparr>sr_status := Some status, sr_via_404 := True\<rparr>)
           else (case obj_get ex ''status_in'' of
               Some (JArr xs) \<Rightarrow>
                 if JInt status \<in> set xs then give ((plain_result ''http_request'')\<lparr>sr_status := Some status\<rparr>)
                 else throw (vr VR5001 (''http status '' @ show_int status))
             | _ \<Rightarrow> throw type_error)))"

section \<open>MCP calls\<close>

definition plain_text :: "json option \<Rightarrow> string" where
  "plain_text v = (case v of None \<Rightarrow> [] | Some JNull \<Rightarrow> [] | Some w \<Rightarrow> js_string w)"

definition allowed_tools :: "step_ctx \<Rightarrow> string list" where
  "allowed_tools ctx =
     orelse (orelse_opt (sx_permits ctx) (case sx_signature ctx of Some sg \<Rightarrow> sg_permits sg | None \<Rightarrow> None)) []"

definition execute_mcp :: "'w world_ops \<Rightarrow> json \<Rightarrow> step_ctx \<Rightarrow> ('w, step_result) action" where
  "execute_mcp ops resolved ctx =
     (let rec = as_record (Some resolved); tool = plain_text (map_of rec ''tool'')
      in if tool \<notin> set (allowed_tools ctx) then throw (vr VR3008 (''mcp tool '' @ tool @ '' not in permits''))
         else case wo_mcp ops of
             None \<Rightarrow> throw (vr VR5001 ''mcp step requires ctx.mcpCall'')
           | Some call \<Rightarrow>
               bind (call tool (if nullish (map_of rec ''args'') then JObj [] else the (map_of rec ''args''))) (\<lambda>v.
               give ((plain_result ''mcp_tool_call'')\<lparr>sr_tool := Some tool, sr_value := Some v\<rparr>)))"

section \<open>File restores\<close>

text \<open>\<^verbatim>\<open>num\<close>: \<open>Some None\<close> is a number that is no integer.  Numeric strings are read when they are integers.\<close>

definition meta_num :: "json option \<Rightarrow> int option option" where
  "meta_num v =
     (case v of
        Some (JInt i) \<Rightarrow> Some (Some i)
      | Some (JFrac s) \<Rightarrow> Some None
      | Some (JStr s) \<Rightarrow> if s = [] then None else map_option Some (int_text s)
      | _ \<Rightarrow> None)"

definition meta_of :: "step_ctx \<Rightarrow> string \<Rightarrow> json option" where
  "meta_of ctx k = map_of (orelse (preimage_meta (sx_receipt ctx)) []) k"

definition resolve_target :: "'w world_ops \<Rightarrow> string \<Rightarrow> ('w, string) action" where
  "resolve_target ops p =
     bind (asks (\<lambda>w. if wo_exists ops (posix_dirname p) w then wo_realpath ops (posix_dirname p) w else Inr (posix_dirname p)))
       (\<lambda>parent. give (posix_join parent (posix_basename p)))"

definition lstat_no_follow :: "'w world_ops \<Rightarrow> string \<Rightarrow> ('w, file_stat) action" where
  "lstat_no_follow ops p =
     bind (asks (wo_lstat ops p)) (\<lambda>st.
       if fi_kind st = Symlink then throw (vr VR5009 ''symlink at final component'') else give st)"

definition same_identity :: "step_ctx \<Rightarrow> file_stat \<Rightarrow> bool" where
  "same_identity ctx st \<longleftrightarrow>
     (case rc_preimage (sx_receipt ctx) of
        None \<Rightarrow> True
      | Some p \<Rightarrow>
          pi_meta p = None \<or> pi_kind p = FsAbsent \<or>
          ((case meta_num (meta_of ctx ''dev'') of None \<Rightarrow> True | Some d \<Rightarrow> d = Some (fi_dev st)) \<and>
           (case meta_num (meta_of ctx ''ino'') of None \<Rightarrow> True | Some i \<Rightarrow> i = Some (fi_ino st))))"

definition assert_identity :: "'w world_ops \<Rightarrow> string \<Rightarrow> step_ctx \<Rightarrow> ('w, unit) action" where
  "assert_identity ops p ctx =
     bind (reads (wo_exists ops p)) (\<lambda>ex.
       if \<not> ex then give ()
       else bind (reads (wo_open ops p)) (\<lambda>code.
         if code = Some ''ELOOP'' \<or> code = Some ''EPERM'' then throw (vr VR5009 ''O_NOFOLLOW'')
         else bind (lstat_no_follow ops p) (\<lambda>st.
           if same_identity ctx st then give () else throw (vr VR5009 ''identity_changed''))))"

definition load_blob :: "step_ctx \<Rightarrow> engine_error + string" where
  "load_blob ctx =
     (let k = orelse (case rc_preimage (sx_receipt ctx) of Some p \<Rightarrow> pi_blob_id p | None \<Rightarrow> None) []
      in if k = [] then Inl (vr VR3006 ''receipt.preimage.blob'')
         else case sx_blob ctx k of None \<Rightarrow> Inl (vr VR2006 k) | Some bytes \<Rightarrow> Inr bytes)"

definition write_atomic :: "'w world_ops \<Rightarrow> string \<Rightarrow> string \<Rightarrow> bool \<Rightarrow> step_ctx \<Rightarrow> ('w, unit) action" where
  "write_atomic ops target bytes restore_meta ctx =
     (let dir = posix_dirname target;
          tmp = posix_join dir (''.vr-restore-'' @ sx_attempt_id ctx @ ''-'' @ posix_basename target)
      in bind (wo_mkdirs ops dir) (\<lambda>_.
         bind (wo_create ops tmp bytes) (\<lambda>_.
         bind (wo_rename ops tmp target) (\<lambda>_.
           if restore_meta then
             (case meta_num (meta_of ctx ''mode'') of
                Some (Some m) \<Rightarrow> wo_chmod ops target (m mod 4096) | _ \<Rightarrow> give ())
           else give ()))))"

definition restore_absent :: "'w world_ops \<Rightarrow> string \<Rightarrow> ('w, step_result) action" where
  "restore_absent ops target =
     (let res = (plain_result ''fs_restore'')\<lparr>sr_path := Some target, sr_absent := True\<rparr>
      in bind (reads (wo_exists ops target)) (\<lambda>ex.
         if \<not> ex then give res
         else bind (lstat_no_follow ops target) (\<lambda>st.
           if fi_kind st = Directory then
             bind (catching (wo_rmdir ops target) (\<lambda>e. throw (vr VR5001 (case e of HostError d \<Rightarrow> d | VrError c d \<Rightarrow> d)))) (\<lambda>_. give res)
           else bind (wo_unlink ops target) (\<lambda>_. give res))))"

definition execute_fs :: "platform \<Rightarrow> 'w world_ops \<Rightarrow> json \<Rightarrow> json \<Rightarrow> step_ctx \<Rightarrow> ('w, step_result) action" where
  "execute_fs pf ops step resolved ctx =
     (let rec = as_record (Some resolved)
      in if step_kind step = ''fs_rename'' then
           bind (resolve_target ops (plain_text (map_of rec ''from''))) (\<lambda>src.
           bind (resolve_target ops (plain_text (map_of rec ''to''))) (\<lambda>dst.
           bind (assert_identity ops src ctx) (\<lambda>_.
           bind (wo_rename ops src dst) (\<lambda>_.
           give ((plain_result ''fs_rename'')\<lparr>sr_path := Some dst\<rparr>)))))
         else
           bind (resolve_target ops (plain_text (map_of rec ''path''))) (\<lambda>target.
             case field step ''source'' of
               None \<Rightarrow> throw type_error
             | Some src \<Rightarrow>
                 if obj_get src ''$ref'' = Some (JStr ''receipt.preimage.absent'') then restore_absent ops target
                 else
                   bind (assert_identity ops target ctx) (\<lambda>_.
                   bind (lift (load_blob ctx)) (\<lambda>bytes.
                   bind (write_atomic ops target bytes (field step ''restore_meta'' = Some (JBool True)) ctx) (\<lambda>_.
                   bind (asks (wo_read ops target)) (\<lambda>got.
                     case meta_of ctx ''sha256'' of
                       Some (JStr want) \<Rightarrow>
                         if want \<noteq> sha256_hex pf got then throw (vr VR5002 ''file_hash'')
                         else give ((plain_result ''fs_restore'')\<lparr>sr_path := Some target, sr_sha256 := Some (sha256_hex pf got)\<rparr>)
                     | _ \<Rightarrow> give ((plain_result ''fs_restore'')\<lparr>sr_path := Some target, sr_sha256 := Some (sha256_hex pf got)\<rparr>)))))))"

section \<open>The dispatcher\<close>

definition window_closed :: "platform \<Rightarrow> step_ctx \<Rightarrow> bool" where
  "window_closed pf ctx \<longleftrightarrow>
     (case rc_compensable_until (sx_receipt ctx) of
        None \<Rightarrow> False
      | Some t \<Rightarrow> t \<noteq> [] \<and> (case pf_date_parse pf t of Some ms \<Rightarrow> ms < sx_now ctx | None \<Rightarrow> False))"

text \<open>\<^verbatim>\<open>resolveRef\<close> without a signature reads no constants and does not know the origin.\<close>

definition no_constants :: signature where
  "no_constants = \<lparr>sg_id = [], sg_match = MStar, sg_applies_when = None, sg_tier = T4,
     sg_compensator = Declarative [] None, sg_constants = None, sg_permits = None, sg_leak = NoLeak,
     sg_cascade_risk = NoRisk, sg_completeness = Full, sg_source = Registered, sg_delete_undoes_create = None,
     sg_registered_at = None, sg_disabled = False, sg_binds = [], sg_preimage = None,
     sg_credentials = None, sg_volatile = None, sg_window = None, sg_independent = False, sg_preimage_required = False, sg_signature = None\<rparr>"

fun resolve_runtime :: "step_ctx \<Rightarrow> json \<Rightarrow> rejection + json" where
  "resolve_runtime ctx (JArr vs) = map_sum id JArr (all_ok (map (resolve_runtime ctx) vs))"
| "resolve_runtime ctx (JObj kvs) =
     (case ref_of (JObj kvs) of
        Some src \<Rightarrow>
          if starts_with src ''credential.'' then Inr (JObj kvs)
          else if src = ''runtime.idempotency_key'' then Inr (JStr (sx_attempt_id ctx))
          else (let sg = orelse (sx_signature ctx) no_constants in resolve_ref src (sx_receipt ctx) sg (sg_source sg))
      | None \<Rightarrow> map_sum id JObj (all_ok (map (\<lambda>(k, v). map_sum id (Pair k) (resolve_runtime ctx v)) kvs)))"
| "resolve_runtime ctx v = Inr v"

definition execute_step :: "platform \<Rightarrow> 'w world_ops \<Rightarrow> json \<Rightarrow> step_ctx \<Rightarrow> ('w, step_result option) action" where
  "execute_step pf ops step ctx =
     (if window_closed pf ctx then throw (vr VR5007 ''window_expired'')
      else case resolve_runtime ctx step of
        Inl rj \<Rightarrow> throw (vr (rj_code rj) (rj_detail rj))
      | Inr resolved \<Rightarrow>
          (let kind = step_kind step; some = (\<lambda>m. bind m (\<lambda>r. give (Some r)))
           in if kind = ''fs_restore'' \<or> kind = ''fs_rename'' then some (execute_fs pf ops step resolved ctx)
              else if kind = ''sql_statement'' then some (execute_sql ops step resolved)
              else if kind = ''http_request'' then some (execute_http ops step resolved ctx)
              else if kind = ''mcp_tool_call'' then some (execute_mcp ops resolved ctx)
              else if kind = ''noop'' then give (Some (plain_result ''noop''))
              else if kind = ''manual'' then throw (vr VR1010 (js_string_opt (field step ''instructions'')))
              else give None))"

section \<open>The probe\<close>

datatype probe_result = ProbeLanded | ProbeNotLanded | ProbeUnknown

fun probe_str :: "probe_result \<Rightarrow> string" where
  "probe_str ProbeLanded = ''landed''"
| "probe_str ProbeNotLanded = ''not_landed''"
| "probe_str ProbeUnknown = ''unknown''"

definition str_val :: "json option \<Rightarrow> string option" where
  "str_val v = (case v of None \<Rightarrow> None | Some JNull \<Rightarrow> None | Some w \<Rightarrow> Some (js_string w))"

definition probe_http :: "'w world_ops \<Rightarrow> receipt \<Rightarrow> ('w, probe_result) action" where
  "probe_http ops rc =
     (case orelse_opt (str_val (map_of (rc_bindings rc) ''resource_url''))
             (orelse_opt (str_val (map_of (as_record (rc_result rc)) ''url'')) (str_val (map_of (as_record (Some (rc_args rc))) ''url''))) of
        None \<Rightarrow> give ProbeUnknown
      | Some url \<Rightarrow>
          if url = [] then give ProbeUnknown
          else catching
            (bind (wo_fetch ops \<lparr>hr_url = url, hr_method = Some (JStr ''GET''), hr_headers = [], hr_body = None\<rparr>) (\<lambda>status.
               give (if status = 404 then ProbeNotLanded else if 200 \<le> status \<and> status < 400 then ProbeLanded else ProbeUnknown)))
            (\<lambda>_. give ProbeUnknown))"

definition probe_ident :: "string \<Rightarrow> string" where
  "probe_ident s = CHR 0x22 # (if safe_ident s then s else ''id'') @ [CHR 0x22]"

definition pk_column :: "string list \<Rightarrow> string" where
  "pk_column keys =
     foldl (\<lambda>col k.
       if starts_with k ''sql:'' then
         (let part = js_join '':'' (drop 4 (js_split CHR '':'' k));
              c = hd (js_split CHR ''='' (hd (js_split CHR '','' part)))
          in if c \<noteq> [] then c else col)
       else col) ''id'' keys"

definition probe_sql :: "'w world_ops \<Rightarrow> receipt \<Rightarrow> ('w, probe_result) action" where
  "probe_sql ops rc =
     (let table = orelse_opt (str_val (map_of (rc_bindings rc) ''table'')) (str_val (map_of (as_record (Some (rc_args rc))) ''table''));
          pk = orelse_opt (pget (rc_bindings rc) ''pk'') (orelse_opt (pget (rc_bindings rc) ''id'') (pget (as_record (rc_result rc)) ''id''))
      in case (table, pk, wo_db_get ops) of
           (Some t, Some v, Some get) \<Rightarrow>
             if \<not> safe_ident t then give ProbeUnknown
             else catching
               (bind (get (''SELECT 1 AS n FROM '' @ probe_ident t @ '' WHERE '' @ probe_ident (pk_column (rc_resource_keys rc)) @ '' = ?'') v)
                  (\<lambda>found. give (if found then ProbeLanded else ProbeNotLanded)))
               (\<lambda>_. give ProbeUnknown)
         | _ \<Rightarrow> give ProbeUnknown)"

definition same_mtime :: "json option \<Rightarrow> int \<Rightarrow> bool" where
  "same_mtime want mtime \<longleftrightarrow>
     (case want of
        None \<Rightarrow> True | Some JNull \<Rightarrow> True | Some (JInt m) \<Rightarrow> m = mtime
      | Some (JFrac s) \<Rightarrow> frac_floor s = mtime \<or> frac_floor s + 1 = mtime | _ \<Rightarrow> False)"

definition unchanged_since :: "platform \<Rightarrow> (string \<times> json) list \<Rightarrow> file_stat \<Rightarrow> string option \<Rightarrow> bool" where
  "unchanged_since pf meta st bytes \<longleftrightarrow>
     (case meta_num (map_of meta ''dev'') of None \<Rightarrow> True | Some d \<Rightarrow> d = Some (fi_dev st)) \<and>
     (case meta_num (map_of meta ''ino'') of None \<Rightarrow> True | Some i \<Rightarrow> i = Some (fi_ino st)) \<and>
     same_mtime (map_of meta ''mtime_ns'') (fi_mtime_ns st) \<and>
     (case map_of meta ''sha256'' of Some (JStr h) \<Rightarrow> map_option (sha256_hex pf) bytes = Some h | _ \<Rightarrow> True)"

definition probe_fs :: "platform \<Rightarrow> 'w world_ops \<Rightarrow> receipt \<Rightarrow> ('w, probe_result) action" where
  "probe_fs pf ops rc =
     (let args = as_record (Some (rc_args rc));
          path = orelse (orelse_opt (str_val (map_of (rc_bindings rc) ''path''))
                   (orelse_opt (str_val (map_of args ''path'')) (orelse_opt (str_val (map_of args ''realpath'')) (ac_target (rc_action rc))))) []
      in if path = [] then give ProbeUnknown
         else bind (reads (wo_exists ops path)) (\<lambda>ex.
           if \<not> ex then give ProbeNotLanded
           else catching
             (bind (asks (wo_lstat ops path)) (\<lambda>st.
                case preimage_meta rc of
                  None \<Rightarrow> give ProbeLanded
                | Some meta \<Rightarrow>
                    if fi_kind st = RegularFile then
                      bind (asks (wo_read ops path)) (\<lambda>bytes.
                        give (if unchanged_since pf meta st (Some bytes) then ProbeNotLanded else ProbeLanded))
                    else give (if unchanged_since pf meta st None then ProbeNotLanded else ProbeLanded)))
             (\<lambda>_. give ProbeUnknown)))"

text \<open>\<^verbatim>\<open>probeOnce\<close>; \<open>custom\<close> is the probe the caller supplies.\<close>

definition probe_once :: "platform \<Rightarrow> 'w world_ops \<Rightarrow> (receipt \<Rightarrow> ('w, probe_result) action) option \<Rightarrow> receipt \<Rightarrow> ('w, probe_result) action" where
  "probe_once pf ops custom rc =
     (case custom of
        Some p \<Rightarrow> p rc
      | None \<Rightarrow>
          if ac_kind (rc_action rc) = AHttp then probe_http ops rc
          else if ac_kind (rc_action rc) = ASql then probe_sql ops rc
          else if ac_kind (rc_action rc) = AFs then probe_fs pf ops rc
          else give ProbeUnknown)"

text \<open>The remaining attempts, after \<open>last\<close> was seen; what sleeping lets happen to the world is the argument \<open>idle\<close>.\<close>

fun probe_loop :: "('w, probe_result) action \<Rightarrow> ('w \<Rightarrow> 'w) \<Rightarrow> nat \<Rightarrow> ('w, probe_result) action" where
  "probe_loop probe idle 0 = give ProbeUnknown"
| "probe_loop probe idle (Suc n) =
     bind probe (\<lambda>r.
       if r \<noteq> ProbeUnknown then give r
       else if n > 0 then bind (modifies idle) (\<lambda>_. probe_loop probe idle n)
       else give r)"


section \<open>SQL values stay out of the statement text\<close>

lemma and_then_Inr_iff: "and_then r f = Inr b \<longleftrightarrow> (\<exists>a. r = Inr a \<and> f a = Inr b)"
  by (cases r) (simp_all add: and_then_def)

definition quoted_name :: "string \<Rightarrow> string" where
  "quoted_name k = CHR 0x22 # k @ [CHR 0x22]"

lemma quoted_Inr:
  "all_ok (map (quote_ident \<circ> fst) kvs) = Inr cols \<Longrightarrow>
     cols = map quoted_name (map fst kvs) \<and> (\<forall>k \<in> set (map fst kvs). safe_ident k)"
  by (induction kvs arbitrary: cols) (auto simp: quote_ident_def quoted_name_def split: sum.splits if_splits)

lemma scalar_Inr: "scalar v = Inr p \<Longrightarrow> p = v"
  by (cases v) (simp_all add: scalar_def)

lemma scalars_Inr:
  assumes "all_ok (map (scalar \<circ> snd) kvs) = Inr ps"
  shows "ps = map snd kvs \<and> (\<forall>v \<in> set ps. scalar v = Inr v)"
proof -
  from assms have "ps = map snd kvs"
    by (induction kvs arbitrary: ps) (auto split: sum.splits dest: scalar_Inr)
  with all_ok_InrD [OF assms] show ?thesis by simp
qed

lemma quote_ident_Inr: "quote_ident s = Inr q \<longleftrightarrow> safe_ident s \<and> q = quoted_name s"
  by (auto simp: quote_ident_def quoted_name_def)

text \<open>The names a statement is made of, and its text as a function of them alone.\<close>

definition col_names :: "json \<Rightarrow> string \<Rightarrow> string list" where
  "col_names resolved part = map fst (as_record (map_of (as_record (Some resolved)) part))"

definition table_name :: "json \<Rightarrow> string" where
  "table_name resolved = stringify (map_of (as_record (Some resolved)) ''table'')"

definition sql_template :: "json option \<Rightarrow> string \<Rightarrow> string list \<Rightarrow> string list \<Rightarrow> string list \<Rightarrow> string" where
  "sql_template stmt table conds sets vals =
     (if stmt = Some (JStr ''DELETE'') then
        ''DELETE FROM '' @ quoted_name table @ '' WHERE '' @ equations '' AND '' (map quoted_name conds)
      else if stmt = Some (JStr ''UPDATE'') then
        ''UPDATE '' @ quoted_name table @ '' SET '' @ equations '', '' (map quoted_name sets)
          @ '' WHERE '' @ equations '' AND '' (map quoted_name conds)
      else ''INSERT INTO '' @ quoted_name table @ '' ('' @ js_join '', '' (map quoted_name vals) @ '') VALUES (''
          @ js_join '', '' (map (\<lambda>_. ''?'') vals) @ '')'')"

definition marks :: "string \<Rightarrow> nat" where
  "marks s = count_list s (CHR ''?'')"

lemma marks_simps [simp]: "marks [] = 0" "marks (c # s) = (if c = CHR ''?'' then Suc (marks s) else marks s)"
  "marks (s @ t) = marks s + marks t"
  by (simp_all add: marks_def)

lemma marks_join: "marks s = 0 \<Longrightarrow> marks (js_join s xs) = sum_list (map marks xs)"
  by (induction s xs rule: js_join.induct) auto

lemma marks_quoted: "safe_ident k \<Longrightarrow> marks (quoted_name k) = 0"
  by (auto simp: marks_def quoted_name_def safe_ident_def count_list_0_iff list_all_iff is_word_def is_alpha_def
      is_digit_def less_eq_char_def)

lemma marks_names:
  assumes "\<forall>k \<in> set ks. safe_ident k" "marks s = 0"
  shows "marks (equations s (map quoted_name ks)) = length ks" "marks (js_join s (map quoted_name ks)) = 0"
  using assms by (induction ks) (auto simp: equations_def marks_join marks_quoted)

lemma marks_columns:
  assumes "\<forall>x \<in> set kvs. safe_ident (fst x)" "marks s = 0"
  shows "marks (equations s (map (quoted_name \<circ> fst) kvs)) = length kvs" "marks (js_join s (map (quoted_name \<circ> fst) kvs)) = 0"
  using marks_names [of "map fst kvs" s] assms by simp_all

lemma marks_placeholders: "marks (js_join '', '' (map (\<lambda>_. ''?'') ks)) = length ks"
  by (induction ks) (simp_all add: marks_join)


definition sample_sql_update :: json where
  "sample_sql_update = JObj [(''kind'', JStr ''sql_statement''), (''statement'', JStr ''UPDATE''), (''table'', JStr ''t''),
     (''set'', JObj [(''name'', JStr ''x?; DROP TABLE t'')]), (''where'', JObj [(''id'', JInt 7)]),
     (''expect_rowcount'', JObj [(''min'', JInt 1), (''max'', JInt 1)])]"


section \<open>Guards of a step\<close>

lemma asks_state: "asks f w = (w', r) \<Longrightarrow> w' = w"
  by (simp add: asks_def)

lemma resolve_target_state: "resolve_target ops p w = (w', r) \<Longrightarrow> w' = w"
  by (auto simp: resolve_target_def bind_def give_def asks_def split: sum.splits)

lemma assert_identity_state: "assert_identity ops p ctx w = (w', r) \<Longrightarrow> w' = w"
  by (auto simp: assert_identity_def lstat_no_follow_def bind_def give_def throw_def reads_def asks_def split: sum.splits if_splits)

lemma assert_identity_ok:
  assumes "assert_identity ops p ctx w = (w', Inr u)" "wo_exists ops p w"
  shows "\<exists>st. wo_lstat ops p w = Inr st \<and> fi_kind st \<noteq> Symlink \<and> same_identity ctx st"
  using assms
  by (auto simp: assert_identity_def lstat_no_follow_def bind_def give_def throw_def reads_def asks_def split: sum.splits if_splits)

text \<open>
  C27: a restore of file contents that reports success resolved its target, and if something was there it
  was not a symbolic link and had the device and inode the receipt recorded; what is read back at the
  target afterwards has the digest the receipt recorded.
\<close>

theorem fs_restore_verified:
  assumes run: "execute_fs pf ops step resolved ctx w = (w', Inr res)"
    and restore: "step_kind step \<noteq> ''fs_rename''" "field step ''source'' = Some src"
      "obj_get src ''$ref'' \<noteq> Some (JStr ''receipt.preimage.absent'')"
    and want: "meta_of ctx ''sha256'' = Some (JStr want)"
  shows "\<exists>target bytes blob. resolve_target ops (plain_text (map_of (as_record (Some resolved)) ''path'')) w = (w, Inr target)
    \<and> sr_path res = Some target \<and> load_blob ctx = Inr blob
    \<and> wo_read ops target w' = Inr bytes \<and> sha256_hex pf bytes = want
    \<and> (wo_exists ops target w \<longrightarrow> (\<exists>st. wo_lstat ops target w = Inr st \<and> fi_kind st \<noteq> Symlink \<and> same_identity ctx st))"
proof -
  from run restore obtain w1 target where t: "resolve_target ops (plain_text (map_of (as_record (Some resolved)) ''path'')) w = (w1, Inr target)"
    and rest: "bind (assert_identity ops target ctx) (\<lambda>_. bind (lift (load_blob ctx)) (\<lambda>bytes.
       bind (write_atomic ops target bytes (field step ''restore_meta'' = Some (JBool True)) ctx) (\<lambda>_.
       bind (asks (wo_read ops target)) (\<lambda>got. case meta_of ctx ''sha256'' of
           Some (JStr want) \<Rightarrow>
             if want \<noteq> sha256_hex pf got then throw (vr VR5002 ''file_hash'')
             else give ((plain_result ''fs_restore'')\<lparr>sr_path := Some target, sr_sha256 := Some (sha256_hex pf got)\<rparr>)
         | _ \<Rightarrow> give ((plain_result ''fs_restore'')\<lparr>sr_path := Some target, sr_sha256 := Some (sha256_hex pf got)\<rparr>))))) w1 = (w', Inr res)"
    by (auto simp: execute_fs_def Let_def bind_Inr_iff)
  from t have w1: "w1 = w" by (rule resolve_target_state)
  from rest w1 obtain w2 u where a: "assert_identity ops target ctx w = (w2, Inr u)" by (auto simp: bind_Inr_iff)
  then have w2: "w2 = w" by (rule assert_identity_state)
  from rest w1 a obtain blob bytes where "load_blob ctx = Inr blob" "wo_read ops target w' = Inr bytes"
      "sha256_hex pf bytes = want" "sr_path res = Some target"
    by (auto simp: bind_Inr_iff lift_def asks_def want give_def throw_def split: if_splits)
  with t w1 a assert_identity_ok [of ops target ctx w w2 u] show ?thesis by blast
qed

definition mutating_kinds :: "string list" where
  "mutating_kinds = [''http_request'', ''sql_statement'', ''fs_restore'', ''fs_rename'', ''mcp_tool_call'']"


text \<open>A small world, files with their contents and the log of the statements run, for the instances.\<close>

type_synonym sample_world = "(string \<times> string) list"

definition sample_ops :: "sample_world world_ops" where
  "sample_ops =
     \<lparr>wo_fetch = (\<lambda>rq w. (w @ [(hr_url rq, [])], Inr 204)),
      wo_db = Some (\<lambda>sql ps w. (w @ [(sql, [])], Inr 1)),
      wo_db_get = Some (\<lambda>sql v w. (w, Inr True)),
      wo_mcp = None,
      wo_exists = (\<lambda>p w. map_of w p \<noteq> None), wo_open = (\<lambda>p w. None), wo_realpath = (\<lambda>p w. Inr p),
      wo_lstat = (\<lambda>p w. Inr \<lparr>fi_kind = RegularFile, fi_dev = 1, fi_ino = 2, fi_mtime_ns = 3\<rparr>),
      wo_read = (\<lambda>p w. case map_of w p of Some s \<Rightarrow> Inr s | None \<Rightarrow> Inl (HostError ''ENOENT'')),
      wo_mkdirs = (\<lambda>p. give ()),
      wo_create = (\<lambda>p s w. if map_of w p = None then (AList.update p s w, Inr ()) else (w, Inl (HostError ''EEXIST''))),
      wo_rename = (\<lambda>p q w. case map_of w p of Some s \<Rightarrow> (AList.update q s (AList.delete p w), Inr ()) | None \<Rightarrow> (w, Inl (HostError ''ENOENT''))),
      wo_chmod = (\<lambda>p m. give ()), wo_rmdir = (\<lambda>p. give ()),
      wo_unlink = (\<lambda>p w. (AList.delete p w, Inr ()))\<rparr>"

definition sample_fs_receipt :: receipt where
  "sample_fs_receipt = sample_receipt\<lparr>rc_preimage := Some \<lparr>pi_kind = FsBytes, pi_blob_id = Some ''b1'', pi_bytes = Some 3,
     pi_rows = None, pi_truncated = False,
     pi_meta = Some [(''dev'', JInt 1), (''ino'', JInt 2), (''sha256'', JStr (sha256_hex sample_platform ''old''))]\<rparr>,
     rc_compensable_until := None\<rparr>"

definition sample_ctx :: step_ctx where
  "sample_ctx = \<lparr>sx_receipt = sample_fs_receipt, sx_signature = None, sx_attempt_id = ''a1'',
     sx_blob = (\<lambda>k. if k = ''b1'' then Some ''old'' else None), sx_credentials = None, sx_permits = None, sx_now = 0\<rparr>"

definition sample_restore :: json where
  "sample_restore = JObj [(''kind'', JStr ''fs_restore''), (''path'', JStr ''/d/f''),
     (''source'', JObj [(''$ref'', JStr ''receipt.preimage.blob'')])]"

lemma fs_restore_verified_witness:
  "\<exists>target. sr_path ((plain_result ''fs_restore'')\<lparr>sr_path := Some ''/d/f'', sr_sha256 := Some (sha256_hex sample_platform ''old'')\<rparr>) = Some target
    \<and> wo_read sample_ops target [(''/d/f'', ''old'')] = Inr ''old''"
proof -
  have run: "execute_fs sample_platform sample_ops sample_restore sample_restore sample_ctx [(''/d/f'', ''new'')]
      = ([(''/d/f'', ''old'')], Inr ((plain_result ''fs_restore'')\<lparr>sr_path := Some ''/d/f'', sr_sha256 := Some (sha256_hex sample_platform ''old'')\<rparr>))"
    by code_simp
  have side: "step_kind sample_restore \<noteq> ''fs_rename''"
    "field sample_restore ''source'' = Some (JObj [(''$ref'', JStr ''receipt.preimage.blob'')])"
    "obj_get (JObj [(''$ref'', JStr ''receipt.preimage.blob'')]) ''$ref'' \<noteq> Some (JStr ''receipt.preimage.absent'')"
    "meta_of sample_ctx ''sha256'' = Some (JStr (sha256_hex sample_platform ''old''))"
    by code_simp+
  from fs_restore_verified [OF run side] show ?thesis by (auto simp: sample_ops_def plain_result_def)
qed


end
