(* ===== verification/Engine.thy ===== *)
theory Engine
  imports Steps Verify
begin

text \<open>
  What the engine's functions share: the state they run in, the host, \<^verbatim>\<open>appendChained\<close> and
  \<^verbatim>\<open>projectionToReceipt\<close> of \<^verbatim>\<open>sdk-ts/src/effect.ts\<close>, the escalation sink \<^verbatim>\<open>escalate/sink.ts\<close> and
  \<^verbatim>\<open>submitConflict\<close> of \<^verbatim>\<open>coordinate/client.ts\<close>.

  The state is the memory ledger, the outside world and the number of draws from the host's sources of
  time and identifiers: the \<open>n\<close>-th draw of an identifier is \<open>eh_id n\<close>, of the clock \<open>eh_clock n\<close>.  The next
  two fields are the locals \<^verbatim>\<open>attemptIds\<close> and \<^verbatim>\<open>results\<close> of the running \<^verbatim>\<open>executePlan\<close>, which its exception
  handler reads; the last two are the verifier's cache of records and its budget of calls for each saga.
\<close>

section \<open>State and host\<close>

record 'w engine =
  en_ledger :: mem_ledger
  en_world :: 'w
  en_draws :: nat
  en_attempt_ids :: "string list"
  en_results :: "step_result list"
  en_cache :: verification_cache
  en_budget :: "string \<rightharpoonup> int"

text \<open>
  \<open>eh_meanwhile\<close> and \<open>eh_lease_meanwhile\<close> are what other tasks and processes do to the ledger, and to its
  leases, while the engine sleeps.
\<close>

record engine_host =
  eh_pf :: platform
  eh_ledger :: ledger_config
  eh_id :: "nat \<Rightarrow> string"
  eh_clock :: "nat \<Rightarrow> int"
  eh_actor :: "(actor_kind \<times> string) option"
  eh_agent_id :: "string option"
  eh_allow_drafted :: bool
  eh_mode :: verification_mode
  eh_max_retries :: "int option"
  eh_lease_ttl :: "int option"
  eh_lease_wait :: "int option"
  eh_meanwhile :: "nat \<Rightarrow> mem_ledger \<Rightarrow> mem_ledger"
  eh_lease_meanwhile :: "nat \<Rightarrow> lease_map \<Rightarrow> lease_map"

definition draw :: "(nat \<Rightarrow> 'a) \<Rightarrow> ('w engine, 'a) action" where
  "draw f = (\<lambda>s. (s\<lparr>en_draws := Suc (en_draws s)\<rparr>, Inr (f (en_draws s))))"

definition new_id :: "engine_host \<Rightarrow> ('w engine, string) action" where
  "new_id h = draw (eh_id h)"

definition clock :: "engine_host \<Rightarrow> ('w engine, int) action" where
  "clock h = draw (eh_clock h)"

definition in_world :: "('w, 'a) action \<Rightarrow> ('w engine, 'a) action" where
  "in_world m = (\<lambda>s. case m (en_world s) of (w, r) \<Rightarrow> (s\<lparr>en_world := w\<rparr>, r))"

definition on_ledger :: "(mem_ledger \<Rightarrow> mem_ledger) \<Rightarrow> ('w engine, unit) action" where
  "on_ledger f = modifies (\<lambda>s. s\<lparr>en_ledger := f (en_ledger s)\<rparr>)"

definition of_ledger :: "(mem_ledger \<Rightarrow> 'a) \<Rightarrow> ('w engine, 'a) action" where
  "of_ledger f = reads (\<lambda>s. f (en_ledger s))"

definition ledger_exception :: "ledger_error \<Rightarrow> engine_error" where
  "ledger_exception e = (case e of ClosedLedger \<Rightarrow> vr VR2002 ''ledger is closed'' | DuplicateAttempt k \<Rightarrow> HostError k
     | ConstraintFailed k \<Rightarrow> HostError k | FsyncNeverRejected \<Rightarrow> HostError ''fsync'')"

lemma bind_modifies: "bind (modifies f) g = (\<lambda>s. g () (f s))"
  by (simp add: bind_def modifies_def)

section \<open>Chained events\<close>

definition actor_of :: "engine_host \<Rightarrow> actor_kind \<times> string" where
  "actor_of h = orelse (eh_actor h) (AgentActor, orelse (eh_agent_id h) ''vekrevert'')"

definition ledger_append :: "engine_host \<Rightarrow> event \<Rightarrow> bool option \<Rightarrow> ('w engine, unit) action" where
  "ledger_append h ev fsync =
     bind (new_id h) (\<lambda>ident. bind (clock h) (\<lambda>now. (\<lambda>s.
       case mem_append (eh_pf h) (eh_ledger h) ev fsync ident now (en_ledger s) of
         (l, None) \<Rightarrow> (s\<lparr>en_ledger := l\<rparr>, Inr ())
       | (l, Some e) \<Rightarrow> (s\<lparr>en_ledger := l\<rparr>, Inl (ledger_exception e)))))"

definition append_chained ::
  "engine_host \<Rightarrow> string \<Rightarrow> string \<Rightarrow> json \<Rightarrow> string option \<Rightarrow> bool option \<Rightarrow> ('w engine, event) action" where
  "append_chained h saga_id type payload effect_id fsync =
     bind (of_ledger (\<lambda>l. mem_get_saga l saga_id)) (\<lambda>saga.
     bind (new_id h) (\<lambda>ident. bind (clock h) (\<lambda>now.
       let prev = (case saga of Some s \<Rightarrow> sa_chain_head s | None \<Rightarrow> genesis_hash (eh_pf h) saga_id);
           body = \<lparr>ev_id = ident, ev_type = type, ev_ts = pf_iso (eh_pf h) now, ev_saga_id = saga_id,
             ev_chain_seq = (case saga of Some s \<Rightarrow> sa_chain_len s | None \<Rightarrow> 0) + 1,
             ev_effect_id = (if effect_id = Some [] then None else effect_id),
             ev_actor_kind = fst (actor_of h), ev_actor_id = snd (actor_of h),
             ev_payload = payload, ev_prev_hash = prev, ev_hash = None, ev_sig = None\<rparr>
       in case chain_event (eh_pf h) body prev of
            None \<Rightarrow> throw (HostError ''canonicalize'')
          | Some ev \<Rightarrow> bind (ledger_append h ev fsync) (\<lambda>_. give ev))))"

section \<open>Escalations\<close>

definition escalation_priority :: "string \<Rightarrow> string option" where
  "escalation_priority reason =
     map_of [(''t4_irreversible'', ''critical''), (''unresolved_in_doubt'', ''critical''), (''compensation_failed'', ''high''),
       (''lease_unavailable'', ''high''), (''cascade_risk'', ''high''), (''verifier_rejected'', ''high''),
       (''compile_rejected'', ''normal''), (''window_expired'', ''normal''), (''drafted_not_allowed'', ''normal'')] reason"

definition raise_escalation :: "engine_host \<Rightarrow> string \<Rightarrow> string option \<Rightarrow> string \<Rightarrow> string option \<Rightarrow> ('w engine, string) action" where
  "raise_escalation h saga_id effect_id reason binds_to =
     bind (new_id h) (\<lambda>escalation_id.
     bind (append_chained h saga_id ''escalation_raised''
        (JObj ([(''reason_code'', JStr reason)]
           @ (if nonempty binds_to then [(''approval_binds_to'', JStr (the binds_to))] else [])
           @ [(''priority'', JStr (orelse (escalation_priority reason) ''high'')), (''escalation_id'', JStr escalation_id)]))
        effect_id None) (\<lambda>_. give escalation_id))"

section \<open>Receipts of stored effects\<close>

definition text_value :: "(string \<times> 'a) list \<Rightarrow> string \<Rightarrow> 'a option" where
  "text_value table s = map_of table s"

definition action_kinds :: "(string \<times> action_kind) list" where
  "action_kinds = map (\<lambda>k. (action_kind_str k, k)) [AHttp, ASql, AFs, AMcpTool, ASdkFn, AShell]"

definition localities :: "(string \<times> locality) list" where
  "localities = [(''internal'', Internal), (''external'', External), (''unknown'', UnknownLocality)]"

definition tiers :: "(string \<times> tier) list" where
  "tiers = [(''T1'', T1), (''T2'', T2), (''T3'', T3), (''T4'', T4)]"

definition preimage_kinds :: "(string \<times> preimage_kind) list" where
  "preimage_kinds = [(''fs_bytes'', FsBytes), (''fs_absent'', FsAbsent), (''sql_rows'', SqlRows), (''http_body'', HttpBody), (''none'', NoPreimage)]"

definition effect_statuses :: "(string \<times> effect_status) list" where
  "effect_statuses = [(''opened'', Opened), (''landed'', Landed), (''failed'', FailedEffect), (''in_doubt'', InDoubt), (''abandoned'', Abandoned)]"

definition comp_states :: "(string \<times> comp_state) list" where
  "comp_states = [(''none_required'', NoneRequired), (''unavailable'', Unavailable), (''available'', Available), (''planned'', Planned),
     (''verified'', Verified), (''executing'', Executing), (''compensated'', Compensated), (''failed'', Failed),
     (''escalated'', Escalated), (''manually_resolved'', ManuallyResolved), (''superseded'', Superseded)]"

definition leaks :: "(string \<times> leak) list" where
  "leaks = [(''none'', NoLeak), (''observers'', Observers), (''downstream_effects'', DownstreamEffects)]"

definition risks :: "(string \<times> risk) list" where
  "risks = [(''none'', NoRisk), (''low'', LowRisk), (''high'', HighRisk)]"

definition leak_str :: "leak \<Rightarrow> string" where
  "leak_str l = (case l of NoLeak \<Rightarrow> ''none'' | Observers \<Rightarrow> ''observers'' | DownstreamEffects \<Rightarrow> ''downstream_effects'')"

definition completeness_str :: "completeness \<Rightarrow> string" where
  "completeness_str c = (case c of Full \<Rightarrow> ''full'' | Partial \<Rightarrow> ''partial'' | BestEffort \<Rightarrow> ''best_effort'')"

definition int_field :: "json option \<Rightarrow> int option" where
  "int_field v = (case v of Some (JInt i) \<Rightarrow> Some i | _ \<Rightarrow> None)"

definition string_items :: "json \<Rightarrow> string list" where
  "string_items v = (case v of JArr vs \<Rightarrow> map js_string vs | _ \<Rightarrow> [])"

definition preimage_of :: "effect \<Rightarrow> preimage_ref option" where
  "preimage_of e =
     (case ef_preimage_kind e of
        None \<Rightarrow> None
      | Some k \<Rightarrow> if k = [] then None
          else map_option (\<lambda>kind. \<lparr>pi_kind = kind, pi_blob_id = ef_preimage_blob_id e, pi_bytes = int_field (ef_preimage_bytes e),
                  pi_rows = int_field (ef_preimage_rows e), pi_truncated = (ef_preimage_truncated e = 1),
                  pi_meta = map_option (\<lambda>m. as_record (Some m)) (ef_preimage_meta e)\<rparr>) (text_value preimage_kinds k))"

text \<open>
  \<^verbatim>\<open>projectionToReceipt\<close>.  The code casts the texts of the row to the string unions without a check;
  the model reads them, and has no receipt for a text outside its union.
\<close>

definition projection_to_receipt :: "effect \<Rightarrow> receipt option" where
  "projection_to_receipt e =
     (case (text_value action_kinds (ef_action_kind e), text_value localities (ef_locality e), text_value tiers (ef_tier e),
            text_value effect_statuses (ef_status e), text_value comp_states (ef_comp_state e),
            text_value leaks (ef_leak e), text_value risks (ef_cascade_risk e)) of
        (Some kind, Some loc, Some tier, Some status, Some state, Some leak, Some risk) \<Rightarrow>
          Some \<lparr>rc_effect_id = ef_effect_id e, rc_saga_id = ef_saga_id e, rc_seq = ef_seq e,
            rc_action = \<lparr>ac_kind = kind, ac_name = ef_action_name e, ac_version = None, ac_target = ef_action_target e, ac_locality = loc\<rparr>,
            rc_tier = tier, rc_args = ef_args_observed e, rc_result = ef_result_observed e,
            rc_bindings = as_record (Some (ef_bindings e)), rc_resource_keys = string_items (ef_resource_keys e),
            rc_preimage = preimage_of e, rc_status = status, rc_comp_state = state, rc_compensator_id = ef_compensator_id e,
            rc_leak = leak, rc_cascade_risk = risk, rc_compensable_until = ef_compensable_until e\<rparr>
      | _ \<Rightarrow> None)"

section \<open>The coordinator's conflict call\<close>

datatype conflict_word = WinnerWord | LoserWord | InDoubtWord

text \<open>The reply of the coordinator is its status and parsed body; a body that is no JSON is the empty object.\<close>

definition submit_conflict ::
  "(conflict_input \<Rightarrow> ('w, int \<times> json) action) \<Rightarrow> conflict_input \<Rightarrow> ('w, conflict_word) action" where
  "submit_conflict post x =
     bind (catching (post x) (\<lambda>e. throw (vr VR5005 (''coordinator unreachable: '' @ (case e of HostError d \<Rightarrow> d | VrError c d \<Rightarrow> d)))))
       (\<lambda>(status, body).
          let code = obj_get body ''error_code'' in
          if status = 409 \<or> code = Some (JStr ''VR5005'') then throw (vr VR5005 ''lease_unavailable'')
          else if status = 412 \<or> code = Some (JStr ''VR5010'') then throw (vr VR5010 ''fenced'')
          else if \<not> (200 \<le> status \<and> status < 300) then throw (vr VR5005 (''coordinator conflict refused: '' @ show_int status))
          else give (if obj_get body ''verdict'' = Some (JStr ''winner'') then WinnerWord
                     else if obj_get body ''verdict'' = Some (JStr ''loser'') then LoserWord else InDoubtWord))"

section \<open>What the shared operations leave alone\<close>

text \<open>The outside world, the attempts, plans and blobs, and the leases are not touched.\<close>

definition world_fixed :: "'w engine \<Rightarrow> 'w engine \<Rightarrow> bool" where
  "world_fixed s t \<longleftrightarrow> en_world t = en_world s"

definition events_only :: "'w engine \<Rightarrow> 'w engine \<Rightarrow> bool" where
  "events_only s t \<longleftrightarrow> en_world t = en_world s \<and> ml_attempts (en_ledger t) = ml_attempts (en_ledger s)
     \<and> ml_by_key (en_ledger t) = ml_by_key (en_ledger s) \<and> ml_leases (en_ledger t) = ml_leases (en_ledger s)
     \<and> ml_blobs (en_ledger t) = ml_blobs (en_ledger s)"

interpretation wf: preserved world_fixed
  by unfold_locales (simp_all add: world_fixed_def)

interpretation eo: preserved events_only
  by unfold_locales (simp_all add: events_only_def)

lemma events_only_world: "keeps events_only m \<Longrightarrow> keeps world_fixed m"
  by (auto simp: keeps_def events_only_def world_fixed_def)

lemma mem_append_frame:
  "mem_append pf cfg ev req ident now l = (l', err) \<Longrightarrow>
     ml_attempts l' = ml_attempts l \<and> ml_by_key l' = ml_by_key l \<and> ml_leases l' = ml_leases l \<and> ml_blobs l' = ml_blobs l"
  by (auto simp: mem_append_def maybe_tick_anchor_def fire_anchor_def push_event_def mark_fsync_def Let_def split: if_splits option.splits)

lemma draw_events_only [intro, simp]: "keeps events_only (draw f)"
  by (simp add: keeps_def draw_def events_only_def)

lemma ids_events_only [intro, simp]: "keeps events_only (new_id h)" "keeps events_only (clock h)"
  by (simp_all add: new_id_def clock_def)

lemma of_ledger_events_only [intro, simp]: "keeps events_only (of_ledger f)"
  by (simp add: of_ledger_def eo.reads)

lemma ledger_append_events_only [intro, simp]: "keeps events_only (ledger_append h ev fsync)"
proof -
  have "keeps events_only (\<lambda>s. case mem_append (eh_pf h) (eh_ledger h) ev fsync ident now (en_ledger s) of
         (l, None) \<Rightarrow> (s\<lparr>en_ledger := l\<rparr>, Inr ()) | (l, Some e) \<Rightarrow> (s\<lparr>en_ledger := l\<rparr>, Inl (ledger_exception e)))" for ident now
    using mem_append_frame by (fastforce simp: keeps_def events_only_def split: prod.split option.split)
  then show ?thesis unfolding ledger_append_def by (intro eo.bind) simp_all
qed

lemma append_chained_events_only [intro, simp]: "keeps events_only (append_chained h sid type payload eid fsync)"
  unfolding append_chained_def Let_def by (intro eo.bind eo.case_option_action) simp_all

lemma raise_events_only [intro, simp]: "keeps events_only (raise_escalation h sid eid reason binds_to)"
  unfolding raise_escalation_def by (intro eo.bind) simp_all

end
