(* ===== verification/Execute.thy ===== *)
theory Execute
  imports Engine
begin

text \<open>
  The execution of a plan: \<^verbatim>\<open>executePlan\<close> of \<^verbatim>\<open>sdk-ts/src/engine/execute.ts\<close> over the memory ledger, with its
  gates, leases, idempotent attempts, retries, postconditions and exception handler.

  The loop that waits for another process's attempt runs on fuel, one unit per reading of the clock; the
  acquisition of the leases has the fuel of \<open>acquire_all_returns\<close>.  The heartbeat timer is not modelled:
  the renewals it makes can be part of \<open>eh_meanwhile\<close>.
\<close>

section \<open>Options and results\<close>

record 'w exec_opts =
  xo_ops :: "'w world_ops"
  xo_dry_run :: bool
  xo_allow_drafted :: "bool option"
  xo_credentials :: "(string \<Rightarrow> string option) option"
  xo_permits :: "string list option"
  xo_ttl :: "int option"
  xo_wait :: "int option"
  xo_holder :: "string option"
  xo_process_id :: string
  xo_now :: "int option"
  xo_signature :: "signature option"
  xo_match :: "receipt \<Rightarrow> signature option"
  xo_probe :: "(receipt \<Rightarrow> ('w, probe_result) action) option"
  xo_probe_attempts :: "nat option"
  xo_idle :: "'w \<Rightarrow> 'w"
  xo_held :: "held option"
  xo_skip_acquire :: bool
  xo_mode :: "verification_mode option"
  xo_coordinator :: "(conflict_input \<Rightarrow> ('w, int \<times> json) action) option"

record exec_result =
  xr_plan_id :: string
  xr_plan_hash :: string
  xr_ok :: bool
  xr_postconditions_ok :: bool
  xr_attempt_ids :: "string list"
  xr_duration_ms :: int
  xr_error_code :: "string option"
  xr_completeness :: completeness
  xr_leak :: leak

definition default_max_retries :: int where "default_max_retries = 3"
definition default_lease_ttl :: int where "default_lease_ttl = 30000"
definition default_lease_wait :: int where "default_lease_wait = 5000"

definition max_retries :: "engine_host \<Rightarrow> int" where
  "max_retries h = orelse (eh_max_retries h) default_max_retries"

text \<open>\<^verbatim>\<open>nowIso(opts)\<close>.\<close>

definition now_of :: "engine_host \<Rightarrow> 'w exec_opts \<Rightarrow> ('w engine, int) action" where
  "now_of h xo = (case xo_now xo of Some n \<Rightarrow> give n | None \<Rightarrow> clock h)"

text \<open>\<^verbatim>\<open>asVr\<close> with the default code.\<close>

definition as_vr :: "engine_error \<Rightarrow> string \<times> string" where
  "as_vr e = (case e of VrError c d \<Rightarrow> (c, d) | HostError d \<Rightarrow> (''VR5001'', d))"

definition code_of :: "engine_error \<Rightarrow> string option" where
  "code_of e = (case e of VrError c d \<Rightarrow> Some c | HostError d \<Rightarrow> None)"

definition make_result :: "plan \<Rightarrow> bool \<Rightarrow> string list \<Rightarrow> int \<Rightarrow> string option \<Rightarrow> exec_result" where
  "make_result p ok ids duration code =
     \<lparr>xr_plan_id = pl_plan_id p, xr_plan_hash = pl_hash p, xr_ok = ok, xr_postconditions_ok = ok, xr_attempt_ids = ids,
      xr_duration_ms = duration, xr_error_code = code, xr_completeness = pl_completeness p, xr_leak = pl_leak p\<rparr>"

definition result_now :: "engine_host \<Rightarrow> plan \<Rightarrow> int \<Rightarrow> bool \<Rightarrow> string list \<Rightarrow> string option \<Rightarrow> ('w engine, exec_result) action" where
  "result_now h p started ok ids code = bind (clock h) (\<lambda>t. give (make_result p ok ids (t - started) code))"

definition load_receipt :: "string \<Rightarrow> ('w engine, receipt) action" where
  "load_receipt effect_id =
     bind (of_ledger (\<lambda>l. mem_get_effect l effect_id)) (\<lambda>row.
       case row of
         None \<Rightarrow> throw (vr VR3001 (''unknown effect '' @ effect_id))
       | Some e \<Rightarrow> (case projection_to_receipt e of None \<Rightarrow> throw type_error | Some rc \<Rightarrow> give rc))"

section \<open>Postconditions\<close>

definition eval_postcondition :: "postcondition \<Rightarrow> step_result \<Rightarrow> bool" where
  "eval_postcondition pc r =
     (if pc_kind pc = ''http_status'' then
        (if is_number (pc_expected pc) then map_option JInt (sr_status r) = Some (pc_expected pc)
         else case pc_expected pc of
             JArr xs \<Rightarrow> (case sr_status r of Some n \<Rightarrow> JInt n \<in> set xs | None \<Rightarrow> False)
           | _ \<Rightarrow> (case sr_status r of Some n \<Rightarrow> 200 \<le> n \<and> n < 300 | None \<Rightarrow> False))
      else if pc_kind pc = ''row_count'' then
        (let n = (if is_number (pc_expected pc) then pc_expected pc else JInt 1) in map_option JInt (sr_rowcount r) = Some n)
      else True)"

definition check_postcondition :: "step_result list \<Rightarrow> postcondition \<Rightarrow> engine_error option" where
  "check_postcondition results pc =
     (case nth_opt results (pc_step_index pc) of
        None \<Rightarrow> if pc_required pc then Some (vr VR5002 (''postcondition unevaluable at '' @ show_nat (pc_step_index pc))) else None
      | Some r \<Rightarrow> if eval_postcondition pc r then None else Some (vr VR5002 (pc_kind pc)))"

definition check_postconditions :: "plan \<Rightarrow> step_result list \<Rightarrow> engine_error option" where
  "check_postconditions p results = first_err (\<lambda>_. check_postcondition results) 0 (pl_postconditions p)"

section \<open>Attempts\<close>

definition step_idempotency_key :: "platform \<Rightarrow> plan \<Rightarrow> receipt \<Rightarrow> nat \<Rightarrow> string" where
  "step_idempotency_key pf p rc i =
     derive_idempotency_key pf \<lparr>ii_saga_id = pl_saga_id p, ii_effect_seq = rc_seq rc, ii_compensator_id = pl_compensator_id p,
       ii_plan_hash = pl_hash p, ii_step_index = int i\<rparr>"

definition lookup_attempt :: "string \<Rightarrow> ('w engine, attempt option) action" where
  "lookup_attempt key = of_ledger (\<lambda>l. mem_attempt_by_key l key)"

definition update_attempt :: "engine_host \<Rightarrow> attempt \<Rightarrow> ('w engine, unit) action" where
  "update_attempt h row = bind (clock h) (\<lambda>now. on_ledger (mem_update_attempt row now))"

datatype handled = SkipStep | RunAgain | ResolveInDoubt

text \<open>The retries so far, from the response hash; \<open>None\<close> is \<^verbatim>\<open>NaN\<close>.\<close>

definition retries_of :: "attempt \<Rightarrow> int option" where
  "retries_of a =
     (let digits = dropWhile (\<lambda>c. \<not> is_digit c) (orelse (at_response a) ''0'')
      in if digits = [] then Some 0 else int_text digits)"

definition retryable_failure :: "engine_host \<Rightarrow> attempt \<Rightarrow> bool" where
  "retryable_failure h a \<longleftrightarrow>
     at_error a = Some ''VR5001'' \<and> (case retries_of a of Some n \<Rightarrow> n < max_retries h | None \<Rightarrow> False)"

definition first_key_lease :: "string list \<Rightarrow> ('w engine, lease option) action" where
  "first_key_lease keys = (case keys of [] \<Rightarrow> give None | k # _ \<Rightarrow> of_ledger (\<lambda>l. mem_get (ml_leases l) k))"

definition attempt_error :: "attempt \<Rightarrow> engine_error" where
  "attempt_error a = VrError (orelse (at_error a) ''VR5001'') []"

definition settled :: "attempt option \<Rightarrow> (engine_error + handled) option" where
  "settled cur =
     (case cur of
        None \<Rightarrow> None
      | Some a \<Rightarrow> (case at_state a of
            Succeeded \<Rightarrow> Some (Inr SkipStep) | FailedAttempt \<Rightarrow> Some (Inl (attempt_error a))
          | AttemptInDoubt \<Rightarrow> Some (Inr ResolveInDoubt) | Started \<Rightarrow> None))"

definition sleep :: "engine_host \<Rightarrow> ('w engine, unit) action" where
  "sleep h = bind (draw (\<lambda>n. n)) (\<lambda>n. on_ledger (eh_meanwhile h n))"

text \<open>Settled attempts end the wait: in the last look, one in doubt does not, it is resolved anyway.\<close>

fun await_attempt :: "nat \<Rightarrow> engine_host \<Rightarrow> 'w exec_opts \<Rightarrow> int \<Rightarrow> string \<Rightarrow> string list \<Rightarrow> string option \<Rightarrow> ('w engine, handled) action" where
  "await_attempt 0 h xo deadline key keys holder = throw (HostError ''still waiting'')"
| "await_attempt (Suc fuel) h xo deadline key keys holder =
     bind (clock h) (\<lambda>now.
     bind (lookup_attempt key) (\<lambda>cur.
     bind (first_key_lease keys) (\<lambda>lease.
       if now < deadline then
         (case settled cur of
            Some r \<Rightarrow> lift r
          | None \<Rightarrow> bind (now_of h xo) (\<lambda>n.
              if (case lease of Some l \<Rightarrow> ls_expires l \<le> n | None \<Rightarrow> False) then give ResolveInDoubt
              else bind (sleep h) (\<lambda>_. await_attempt fuel h xo deadline key keys holder)))
       else
         (case settled cur of
            Some (Inl e) \<Rightarrow> throw e
          | Some (Inr SkipStep) \<Rightarrow> give SkipStep
          | _ \<Rightarrow> bind (now_of h xo) (\<lambda>n.
              if (case lease of Some l \<Rightarrow> ls_expires l > n \<and> Some (ls_holder l) \<noteq> holder | None \<Rightarrow> False)
              then throw (vr VR5005 ''lease still held'')
              else give ResolveInDoubt)))))"

definition wait_ms :: "'w exec_opts \<Rightarrow> int" where
  "wait_ms xo = orelse (xo_wait xo) default_lease_wait"

definition handle_existing_attempt ::
  "engine_host \<Rightarrow> 'w exec_opts \<Rightarrow> attempt \<Rightarrow> string list \<Rightarrow> held \<Rightarrow> ('w engine, handled) action" where
  "handle_existing_attempt h xo a keys held =
     (case at_state a of
        Succeeded \<Rightarrow> give SkipStep
      | FailedAttempt \<Rightarrow>
          if retryable_failure h a then give RunAgain else throw (VrError (orelse (at_error a) ''VR5001'') ''attempt already failed'')
      | AttemptInDoubt \<Rightarrow> give ResolveInDoubt
      | Started \<Rightarrow>
          bind (clock h) (\<lambda>now.
          bind (of_ledger (\<lambda>l. case keys of [] \<Rightarrow> None | k # _ \<Rightarrow> Some (inspect_fence mem_api (ml_leases l) k held now))) (\<lambda>st.
            if st = Some FenceOk then give RunAgain
            else if st = Some Fenced \<or> st = Some HeldElsewhere then throw (vr VR5010 (hd keys))
            else bind (clock h) (\<lambda>start.
              await_attempt (Suc (nat (wait_ms xo))) h xo (start + wait_ms xo) (at_key a) keys (Some (hd_holder held))))))"

section \<open>One step\<close>

text \<open>The invariable surroundings of the steps of one run.\<close>

record 'w run_env =
  re_host :: engine_host
  re_opts :: "'w exec_opts"
  re_plan :: plan
  re_receipt :: receipt
  re_signature :: "signature option"
  re_keys :: "string list"
  re_held :: held

definition push_attempt_id :: "string \<Rightarrow> ('w engine, unit) action" where
  "push_attempt_id k = modifies (\<lambda>s. s\<lparr>en_attempt_ids := en_attempt_ids s @ [k]\<rparr>)"

definition push_result :: "step_result \<Rightarrow> ('w engine, unit) action" where
  "push_result r = modifies (\<lambda>s. s\<lparr>en_results := en_results s @ [r]\<rparr>)"

definition plan_event :: "'w run_env \<Rightarrow> string \<Rightarrow> json \<Rightarrow> ('w engine, unit) action" where
  "plan_event re type payload =
     bind (append_chained (re_host re) (pl_saga_id (re_plan re)) type payload (Some (pl_effect_id (re_plan re))) None) (\<lambda>_. give ())"

definition raise_plan :: "engine_host \<Rightarrow> plan \<Rightarrow> string \<Rightarrow> ('w engine, unit) action" where
  "raise_plan h p reason =
     bind (raise_escalation h (pl_saga_id p) (Some (pl_effect_id p)) reason (Some (pl_hash p))) (\<lambda>_. give ())"

text \<open>\<^verbatim>\<open>probeEffect\<close> on the receipt of the plan.\<close>

definition probe_receipt :: "'w run_env \<Rightarrow> ('w engine, probe_result) action" where
  "probe_receipt re =
     (let xo = re_opts re
      in in_world (probe_loop (probe_once (eh_pf (re_host re)) (xo_ops xo) (xo_probe xo) (re_receipt re)) (xo_idle xo)
           (orelse (xo_probe_attempts xo) 3)))"

text \<open>An attempt in doubt: the outcome of the probe decides, and the step is not run.\<close>

definition resolve_attempt :: "'w run_env \<Rightarrow> json \<Rightarrow> attempt \<Rightarrow> ('w engine, unit) action" where
  "resolve_attempt re step a =
     (let h = re_host re; doubted = a\<lparr>at_state := AttemptInDoubt\<rparr>
      in bind (update_attempt h doubted) (\<lambda>_.
         bind (plan_event re ''effect_in_doubt'' (JObj [(''reason'', JStr ''started_expired_lease''), (''probe_scheduled'', JBool True)])) (\<lambda>_.
         bind (probe_receipt re) (\<lambda>probed.
         bind (plan_event re ''effect_probed'' (JObj [(''probe_result'', JStr (probe_str probed)), (''attempts'', JInt 3)])) (\<lambda>_.
           if probed = ProbeUnknown then
             bind (raise_plan h (re_plan re) ''unresolved_in_doubt'') (\<lambda>_. throw (vr VR2020 ''unresolved_in_doubt''))
           else bind (now_of h (re_opts re)) (\<lambda>now.
             let finished = Some (pf_iso (eh_pf h) now)
             in if probed = ProbeNotLanded then
                  bind (update_attempt h (doubted\<lparr>at_state := FailedAttempt, at_finished := finished, at_error := Some ''VR5001''\<rparr>)) (\<lambda>_.
                  push_attempt_id (at_id a))
                else
                  bind (update_attempt h (doubted\<lparr>at_state := Succeeded, at_finished := finished\<rparr>)) (\<lambda>_.
                  bind (push_attempt_id (at_id a)) (\<lambda>_.
                  push_result (plain_result (step_kind step))))))))))"

text \<open>Claiming the idempotency key of a step: the attempt to run, or \<open>None\<close> when the step is not to be run.\<close>

definition claim_step :: "'w run_env \<Rightarrow> json \<Rightarrow> attempt \<Rightarrow> ('w engine, attempt option) action" where
  "claim_step re step row =
     bind (clock (re_host re)) (\<lambda>now. (\<lambda>s.
       case mem_append_attempt row now (en_ledger s) of
         (l, None) \<Rightarrow> (s\<lparr>en_ledger := l\<rparr>, Inr (Some row))
       | (l, Some e) \<Rightarrow>
           (case mem_attempt_by_key (en_ledger s) (at_key row) of
              None \<Rightarrow> (s, Inl (VrError ''VR5001'' (at_key row)))
            | Some a \<Rightarrow>
                bind (handle_existing_attempt (re_host re) (re_opts re) a (re_keys re) (re_held re)) (\<lambda>hd.
                  case hd of
                    SkipStep \<Rightarrow> bind (push_attempt_id (at_id a)) (\<lambda>_. bind (push_result (plain_result (step_kind step))) (\<lambda>_. give None))
                  | ResolveInDoubt \<Rightarrow> bind (resolve_attempt re step a) (\<lambda>_. give None)
                  | RunAgain \<Rightarrow> give (Some (row\<lparr>at_id := at_id a\<rparr>))) s)))"

text \<open>Every fence is looked at before the step runs.\<close>

definition check_fence :: "'w run_env \<Rightarrow> attempt \<Rightarrow> string \<Rightarrow> ('w engine, unit) action" where
  "check_fence re row k =
     bind (now_of (re_host re) (re_opts re)) (\<lambda>now.
     bind (of_ledger (\<lambda>l. inspect_fence mem_api (ml_leases l) k (re_held re) now)) (\<lambda>st.
       if st = FenceOk then give ()
       else if st = Fenced \<or> st = HeldElsewhere then throw (vr VR5010 k)
       else bind (update_attempt (re_host re) (row\<lparr>at_state := AttemptInDoubt\<rparr>)) (\<lambda>_. throw (vr VR5010 k))))"

definition final_codes :: "string list" where
  "final_codes = [''VR5010'', ''VR5009'', ''VR5002'', ''VR5007'', ''VR4005'']"

definition step_action :: "'w run_env \<Rightarrow> json \<Rightarrow> string \<Rightarrow> ('w engine, step_result option) action" where
  "step_action re step attempt_id =
     bind (now_of (re_host re) (re_opts re)) (\<lambda>now.
     bind (of_ledger mem_get_blob) (\<lambda>blob.
       in_world (execute_step (eh_pf (re_host re)) (xo_ops (re_opts re)) step
         \<lparr>sx_receipt = re_receipt re, sx_signature = re_signature re, sx_attempt_id = attempt_id, sx_blob = blob,
          sx_credentials = xo_credentials (re_opts re),
          sx_permits = orelse_opt (xo_permits (re_opts re)) (case re_signature re of Some sg \<Rightarrow> sg_permits sg | None \<Rightarrow> None),
          sx_now = now\<rparr>)))"

text \<open>The retry loop with \<open>n\<close> tries left; the result is the last error, if any, and the value of the step.\<close>

fun try_step :: "('w engine, step_result option) action \<Rightarrow> nat \<Rightarrow> ('w engine, engine_error option \<times> step_result option) action" where
  "try_step m 0 = give (None, None)"
| "try_step m (Suc n) = (\<lambda>s.
     case m s of
       (s', Inr r) \<Rightarrow> (s', Inr (None, r))
     | (s', Inl e) \<Rightarrow>
         if code_of e \<in> Some ` set final_codes \<or> code_of e \<noteq> Some ''VR5001'' \<or> n = 0 then (s', Inr (Some e, None))
         else try_step m n s')"

definition run_step :: "'w run_env \<Rightarrow> json \<Rightarrow> attempt \<Rightarrow> ('w engine, unit) action" where
  "run_step re step row =
     (let h = re_host re
      in bind (each (check_fence re row) (re_keys re)) (\<lambda>_.
         bind (try_step (step_action re step (at_id row)) (nat (max_retries h))) (\<lambda>(err, r).
         bind (now_of h (re_opts re)) (\<lambda>now.
           let finished = Some (pf_iso (eh_pf h) now)
           in case err of
                Some e \<Rightarrow>
                  bind (update_attempt h (row\<lparr>at_state := FailedAttempt, at_finished := finished, at_error := Some (fst (as_vr e)),
                         at_response := Some (show_int (max_retries h))\<rparr>)) (\<lambda>_.
                  bind (push_attempt_id (at_id row)) (\<lambda>_. throw (VrError (fst (as_vr e)) (snd (as_vr e)))))
              | None \<Rightarrow>
                  bind (update_attempt h (row\<lparr>at_state := Succeeded, at_finished := finished\<rparr>)) (\<lambda>_.
                  bind (push_attempt_id (at_id row)) (\<lambda>_.
                  push_result (orelse r (plain_result (step_kind step)))))))))"

definition do_step :: "'w run_env \<Rightarrow> nat \<Rightarrow> json \<Rightarrow> ('w engine, unit) action" where
  "do_step re i step =
     (let h = re_host re; p = re_plan re; keys = re_keys re
      in bind (new_id h) (\<lambda>attempt_id.
         bind (now_of h (re_opts re)) (\<lambda>now.
         bind (claim_step re step
           \<lparr>at_id = attempt_id, at_key = step_idempotency_key (eh_pf h) p (re_receipt re) i, at_effect_id = pl_effect_id p,
            at_plan_id = pl_plan_id p, at_step_index = int i,
            at_fence = (case keys of [] \<Rightarrow> 0 | k # _ \<Rightarrow> orelse (hd_fences (re_held re) k) 0),
            at_state = Started, at_started = pf_iso (eh_pf h) now, at_finished = None, at_error = None, at_response = None\<rparr>) (\<lambda>claimed.
           case claimed of None \<Rightarrow> give () | Some row \<Rightarrow> run_step re step row))))"

fun do_steps :: "'w run_env \<Rightarrow> nat \<Rightarrow> json list \<Rightarrow> ('w engine, unit) action" where
  "do_steps re i [] = give ()"
| "do_steps re i (step # steps) = bind (do_step re i step) (\<lambda>_. do_steps re (Suc i) steps)"

section \<open>The plan\<close>

definition plan_conflict :: "'w run_env \<Rightarrow> string \<Rightarrow> string option \<Rightarrow> bool \<Rightarrow> conflict_input" where
  "plan_conflict re k code commit =
     \<lparr>ci_key = k, ci_holder = hd_holder (re_held re), ci_fence = orelse (hd_fences (re_held re) k) 0,
      ci_saga_id = pl_saga_id (re_plan re), ci_plan_hash = pl_hash (re_plan re), ci_error_code = code, ci_commit = commit\<rparr>"

definition word_str :: "conflict_word \<Rightarrow> string" where
  "word_str v = (case v of WinnerWord \<Rightarrow> ''winner'' | LoserWord \<Rightarrow> ''loser'' | InDoubtWord \<Rightarrow> ''in_doubt'')"

definition announce_key :: "'w run_env \<Rightarrow> (conflict_input \<Rightarrow> ('w, int \<times> json) action) \<Rightarrow> string \<Rightarrow> ('w engine, unit) action" where
  "announce_key re post k =
     bind (in_world (submit_conflict post (plan_conflict re k None False))) (\<lambda>v.
       if v \<noteq> WinnerWord then
         bind (raise_plan (re_host re) (re_plan re) ''compensation_failed'') (\<lambda>_. throw (vr VR5005 (''conflict_'' @ word_str v)))
       else give ())"

definition announce :: "'w run_env \<Rightarrow> ('w engine, unit) action" where
  "announce re = (case xo_coordinator (re_opts re) of None \<Rightarrow> give () | Some post \<Rightarrow> each (announce_key re post) (re_keys re))"

definition fences_json :: "held \<Rightarrow> string list \<Rightarrow> json" where
  "fences_json held keys =
     JObj [(''holder'', JStr (hd_holder held)),
       (''fences'', JObj (concat (map (\<lambda>k. case hd_fences held k of Some f \<Rightarrow> [(k, JInt f)] | None \<Rightarrow> []) keys)))]"

text \<open>After the steps: the postconditions, the event of the execution, and the commit at the coordinator.\<close>

definition executed_payload :: "'w run_env \<Rightarrow> string list \<Rightarrow> int \<Rightarrow> json" where
  "executed_payload re ids duration =
     (let p = re_plan re
      in JObj [(''plan_hash'', JStr (pl_hash p)), (''attempt_ids'', JArr (map JStr ids)), (''postconditions_ok'', JBool True),
           (''reversal_completeness'', JStr (completeness_str (pl_completeness p))), (''leak'', JStr (leak_str (pl_leak p))),
           (''duration_ms'', JInt duration), (''origin'', JStr (source_str (pl_origin p))),
           (''fencing_token'', fences_json (re_held re) (re_keys re))])"

definition commit_claim :: "'w run_env \<Rightarrow> ('w engine, unit) action" where
  "commit_claim re =
     (case (xo_coordinator (re_opts re), re_keys re) of
        (Some post, k # _) \<Rightarrow>
          catching (bind (in_world (submit_conflict post (plan_conflict re k None True))) (\<lambda>_. give ())) (\<lambda>_. give ())
      | _ \<Rightarrow> give ())"

definition finish_run :: "'w run_env \<Rightarrow> int \<Rightarrow> string list \<Rightarrow> step_result list \<Rightarrow> ('w engine, exec_result) action" where
  "finish_run re started ids results =
     (case check_postconditions (re_plan re) results of
        Some e \<Rightarrow> throw e
      | None \<Rightarrow>
          bind (clock (re_host re)) (\<lambda>now.
          bind (plan_event re ''compensation_executed'' (executed_payload re ids (now - started))) (\<lambda>_.
          bind (commit_claim re) (\<lambda>_.
          result_now (re_host re) (re_plan re) started True ids None))))"

definition run_body :: "'w run_env \<Rightarrow> int \<Rightarrow> ('w engine, exec_result) action" where
  "run_body re started =
     bind (announce re) (\<lambda>_.
     bind (do_steps re 0 (pl_steps (re_plan re))) (\<lambda>_.
     bind (reads (\<lambda>s. (en_attempt_ids s, en_results s))) (\<lambda>(ids, results). finish_run re started ids results)))"

text \<open>The exception handler: it records the failure and throws the exception again, as a VekRevert error.\<close>

definition report_loss :: "'w run_env \<Rightarrow> ('w engine, unit) action" where
  "report_loss re =
     (case (xo_coordinator (re_opts re), re_keys re) of
        (Some post, k # _) \<Rightarrow>
          bind (catching (bind (in_world (submit_conflict post (plan_conflict re k (Some ''VR5006'') False))) (\<lambda>v. give (Some v))) (\<lambda>_. give None)) (\<lambda>v.
            if v = Some LoserWord then catching (raise_plan (re_host re) (re_plan re) ''compensation_failed'') (\<lambda>_. give ())
            else give ())
      | _ \<Rightarrow> give ())"

definition run_failed :: "'w run_env \<Rightarrow> engine_error \<Rightarrow> ('w engine, exec_result) action" where
  "run_failed re e =
     (let (code, detail) = as_vr e
      in bind (only_if (code = ''VR5006'') (report_loss re)) (\<lambda>_.
         bind (only_if (code \<noteq> ''VR4005'' \<and> code \<noteq> ''VR2020'')
           (bind (reads (\<lambda>s. length (en_results s))) (\<lambda>n.
            plan_event re ''compensation_failed'' (JObj [(''error_code'', JStr code), (''step_index'', JInt (int n)),
              (''attempts'', JInt 1), (''postcondition_failed'', JBool (code = ''VR5002''))])))) (\<lambda>_.
         throw (VrError code detail))))"

definition release_held :: "string list \<Rightarrow> held \<Rightarrow> 'w engine \<Rightarrow> 'w engine" where
  "release_held keys held s =
     s\<lparr>en_ledger := (en_ledger s)\<lparr>ml_leases := fst (release_all mem_api keys held (ml_leases (en_ledger s)))\<rparr>\<rparr>"

definition run_plan :: "'w run_env \<Rightarrow> int \<Rightarrow> ('w engine, exec_result) action" where
  "run_plan re started =
     finally_do (catching (run_body re started) (run_failed re)) (release_held (re_keys re) (re_held re))"

text \<open>Taking the leases, unless the caller holds them or waives them.\<close>

definition acquire_leases :: "engine_host \<Rightarrow> plan \<Rightarrow> string \<Rightarrow> int \<Rightarrow> int \<Rightarrow> string list \<Rightarrow> int \<Rightarrow> ('w engine, held) action" where
  "acquire_leases h p holder ttl wait keys start s =
     (case acquire_all (Suc (nat wait)) mem_api (Some ttl) wait start (\<lambda>n. eh_clock h (en_draws s + n))
             (\<lambda>n. eh_lease_meanwhile h (en_draws s + n)) holder keys (ml_leases (en_ledger s)) of
        None \<Rightarrow> (s, Inl (HostError ''still waiting''))
      | Some (ls, AllHeld held) \<Rightarrow>
          (s\<lparr>en_ledger := (en_ledger s)\<lparr>ml_leases := ls\<rparr>, en_draws := en_draws s + Suc (nat wait)\<rparr>, Inr held)
      | Some (ls, LeaseUnavailable) \<Rightarrow>
          bind (raise_plan h p ''lease_unavailable'') (\<lambda>_. throw (vr VR5005 ''lease_unavailable''))
            (s\<lparr>en_ledger := (en_ledger s)\<lparr>ml_leases := ls\<rparr>, en_draws := en_draws s + Suc (nat wait)\<rparr>))"

definition take_leases :: "engine_host \<Rightarrow> 'w exec_opts \<Rightarrow> plan \<Rightarrow> string list \<Rightarrow> ('w engine, held) action" where
  "take_leases h xo p keys =
     bind (new_id h) (\<lambda>run_id.
       let holder = orelse (xo_holder xo) (lease_holder (xo_process_id xo) (pl_saga_id p) run_id);
           ttl = orelse (orelse_opt (xo_ttl xo) (eh_lease_ttl h)) default_lease_ttl;
           wait = orelse (orelse_opt (xo_wait xo) (eh_lease_wait h)) default_lease_wait
       in case xo_held xo of
            Some held \<Rightarrow> give held
          | None \<Rightarrow> if xo_skip_acquire xo then give (no_leases holder)
                    else bind (clock h) (acquire_leases h p holder ttl wait keys))"

text \<open>What may keep a plan from being run: the reason of the escalation and how the call ends.\<close>

definition is_manual_step :: "json \<Rightarrow> bool" where
  "is_manual_step step \<longleftrightarrow> step_kind step = ''manual''"

definition execute_plan ::
  "engine_host \<Rightarrow> 'w exec_opts \<Rightarrow> plan \<Rightarrow> verification option \<Rightarrow> ('w engine, exec_result) action" where
  "execute_plan h xo p v =
     bind (clock h) (\<lambda>started.
       let mode = orelse (xo_mode xo) (eh_mode h)
       in if pl_origin p = Drafted \<and> \<not> orelse (xo_allow_drafted xo) (eh_allow_drafted h) then
            bind (raise_plan h p ''drafted_not_allowed'') (\<lambda>_. throw (vr VR4005 ''drafted_not_allowed''))
          else case execute_gate_rejection (eh_pf h) p v mode started of
              Some rj \<Rightarrow>
                bind (raise_plan h p ''verifier_rejected'') (\<lambda>_.
                  if mode = ModeEnforce then throw (vr (rj_code rj) (rj_detail rj))
                  else result_now h p started False [] (Some (vr_str (rj_code rj))))
            | None \<Rightarrow>
              bind (load_receipt (pl_effect_id p)) (\<lambda>rc.
                let keys = sorted_resource_keys (rc_resource_keys rc)
                in if rc_tier rc = T4 \<or> list_ex is_manual_step (pl_steps p) then
                     bind (raise_plan h p ''t4_irreversible'') (\<lambda>_. result_now h p started False [] (Some ''VR1010''))
                   else if pl_cascade_risk p = HighRisk then
                     bind (raise_plan h p ''cascade_risk'') (\<lambda>_. result_now h p started False [] (Some ''VR1010''))
                   else
                     bind (take_leases h xo p keys) (\<lambda>held.
                     bind (now_of h xo) (\<lambda>now.
                     bind (of_ledger (\<lambda>l. xo_skip_acquire xo \<and> xo_held xo \<noteq> None \<and> \<not> assert_fences mem_api (ml_leases l) keys held now)) (\<lambda>fenced.
                       if fenced then throw (vr VR5010 [])
                       else if xo_dry_run xo then
                         bind (modifies (release_held keys held)) (\<lambda>_. result_now h p started True [] None)
                       else
                         bind (modifies (\<lambda>s. s\<lparr>en_attempt_ids := [], en_results := []\<rparr>)) (\<lambda>_.
                         run_plan \<lparr>re_host = h, re_opts = xo, re_plan = p, re_receipt = rc,
                           re_signature = orelse_opt (xo_signature xo) (xo_match xo rc), re_keys = keys, re_held = held\<rparr> started))))))"

section \<open>What the gates keep from happening\<close>

text \<open>Neither the world nor any attempt has changed.\<close>

definition idle :: "'w engine \<Rightarrow> 'w engine \<Rightarrow> bool" where
  "idle s t \<longleftrightarrow> en_world t = en_world s \<and> ml_attempts (en_ledger t) = ml_attempts (en_ledger s)
     \<and> ml_by_key (en_ledger t) = ml_by_key (en_ledger s)"

interpretation idle: preserved idle
  by unfold_locales (simp_all add: idle_def)

lemma events_only_idle: "keeps events_only m \<Longrightarrow> keeps idle m"
  by (simp add: keeps_def events_only_def idle_def)

lemma now_of_events_only [intro, simp]: "keeps events_only (now_of h xo)"
  by (simp add: now_of_def split: option.split)

lemma raise_plan_events_only [intro, simp]: "keeps events_only (raise_plan h p reason)"
  unfolding raise_plan_def by (intro eo.bind) simp_all

lemma result_now_events_only [intro, simp]: "keeps events_only (result_now h p started ok ids code)"
  unfolding result_now_def by (intro eo.bind) simp_all

lemma load_receipt_events_only [intro, simp]: "keeps events_only (load_receipt k)"
  unfolding load_receipt_def by (intro eo.bind eo.case_option_action) simp_all

lemma plan_event_events_only [intro, simp]: "keeps events_only (plan_event re type payload)"
  unfolding plan_event_def by (intro eo.bind) simp_all

lemma acquire_leases_idle [intro, simp]: "keeps idle (acquire_leases h p holder ttl wait keys start)"
  unfolding keeps_def
proof
  fix s :: "'a engine"
  let ?acq = "acquire_all (Suc (nat wait)) mem_api (Some ttl) wait start (\<lambda>n. eh_clock h (en_draws s + n))
      (\<lambda>n. eh_lease_meanwhile h (en_draws s + n)) holder keys (ml_leases (en_ledger s))"
  let ?m = "bind (raise_plan h p ''lease_unavailable'') (\<lambda>_. throw (vr VR5005 ''lease_unavailable'')) :: ('a engine, held) action"
  have "keeps events_only ?m" by (intro eo.bind) simp_all
  from events_only_idle [OF this] have raised: "idle t (fst (?m t))" for t by (simp add: keeps_def)
  show "idle s (fst (acquire_leases h p holder ttl wait keys start s))"
  proof (cases ?acq)
    case (Some lr)
    obtain ls r where lr: "lr = (ls, r)" by (cases lr)
    have "idle s (s\<lparr>en_ledger := (en_ledger s)\<lparr>ml_leases := ls\<rparr>, en_draws := en_draws s + Suc (nat wait)\<rparr>)" by (simp add: idle_def)
    with Some lr show ?thesis by (cases r) (auto simp: acquire_leases_def intro: idle.trans [OF _ raised])
  qed (simp add: idle.refl acquire_leases_def)
qed

lemma take_leases_idle [intro, simp]: "keeps idle (take_leases h xo p keys)"
  unfolding take_leases_def Let_def
  by (intro idle.bind idle.case_option_action idle.if_action) (simp_all add: events_only_idle)

lemma release_held_idle: "idle s (release_held keys held s)"
  by (simp add: idle_def release_held_def)

text \<open>The state in which, and the receipt for which, the plan is looked at: the clock is read once before.\<close>

definition receipt_of :: "mem_ledger \<Rightarrow> plan \<Rightarrow> receipt option" where
  "receipt_of l p = (case mem_get_effect l (pl_effect_id p) of Some e \<Rightarrow> projection_to_receipt e | None \<Rightarrow> None)"

definition gate_closed :: "engine_host \<Rightarrow> 'w exec_opts \<Rightarrow> plan \<Rightarrow> verification option \<Rightarrow> 'w engine \<Rightarrow> bool" where
  "gate_closed h xo p v s \<longleftrightarrow>
     (pl_origin p = Drafted \<and> \<not> orelse (xo_allow_drafted xo) (eh_allow_drafted h))
     \<or> execute_gate_rejection (eh_pf h) p v (orelse (xo_mode xo) (eh_mode h)) (eh_clock h (en_draws s)) \<noteq> None
     \<or> receipt_of (en_ledger s) p = None
     \<or> rc_tier (the (receipt_of (en_ledger s) p)) = T4
     \<or> list_ex is_manual_step (pl_steps p) \<or> pl_cascade_risk p = HighRisk"

text \<open>The run after the gates, and its part after the leases.\<close>

definition leased_run :: "engine_host \<Rightarrow> 'w exec_opts \<Rightarrow> plan \<Rightarrow> receipt \<Rightarrow> int \<Rightarrow> string list \<Rightarrow> held \<Rightarrow> ('w engine, exec_result) action" where
  "leased_run h xo p rc started keys held =
     bind (now_of h xo) (\<lambda>now.
     bind (of_ledger (\<lambda>l. xo_skip_acquire xo \<and> xo_held xo \<noteq> None \<and> \<not> assert_fences mem_api (ml_leases l) keys held now)) (\<lambda>fenced.
       if fenced then throw (vr VR5010 [])
       else if xo_dry_run xo then
         bind (modifies (release_held keys held)) (\<lambda>_. result_now h p started True [] None)
       else
         bind (modifies (\<lambda>s. s\<lparr>en_attempt_ids := [], en_results := []\<rparr>)) (\<lambda>_.
         run_plan \<lparr>re_host = h, re_opts = xo, re_plan = p, re_receipt = rc,
           re_signature = orelse_opt (xo_signature xo) (xo_match xo rc), re_keys = keys, re_held = held\<rparr> started)))"

definition open_run :: "engine_host \<Rightarrow> 'w exec_opts \<Rightarrow> plan \<Rightarrow> receipt \<Rightarrow> int \<Rightarrow> ('w engine, exec_result) action" where
  "open_run h xo p rc started =
     (let keys = sorted_resource_keys (rc_resource_keys rc)
      in bind (take_leases h xo p keys) (leased_run h xo p rc started keys))"

lemma clock_run: "clock h s = (s\<lparr>en_draws := Suc (en_draws s)\<rparr>, Inr (eh_clock h (en_draws s)))"
  by (simp add: clock_def draw_def)

definition receipt_error :: "mem_ledger \<Rightarrow> plan \<Rightarrow> engine_error" where
  "receipt_error l p = (if mem_get_effect l (pl_effect_id p) = None then vr VR3001 (''unknown effect '' @ pl_effect_id p) else type_error)"

lemma bind_load_receipt:
  "bind (load_receipt (pl_effect_id p)) f s =
     (case receipt_of (en_ledger s) p of Some rc \<Rightarrow> f rc s | None \<Rightarrow> (s, Inl (receipt_error (en_ledger s) p)))"
  by (simp add: load_receipt_def receipt_of_def receipt_error_def of_ledger_def bind_def give_def throw_def reads_def split: option.split)

lemma bind_clock: "bind (clock h) f s = f (eh_clock h (en_draws s)) (s\<lparr>en_draws := Suc (en_draws s)\<rparr>)"
  by (rule bind_Inr [OF clock_run])

text \<open>\<open>execute_plan\<close> with its gates as a case analysis on the state.\<close>

lemma execute_plan_cases:
  "execute_plan h xo p v s =
     (let t = eh_clock h (en_draws s); s1 = s\<lparr>en_draws := Suc (en_draws s)\<rparr>; mode = orelse (xo_mode xo) (eh_mode h);
          refuse = (\<lambda>reason code. bind (raise_plan h p reason) (\<lambda>_. result_now h p t False [] (Some code)) s1)
      in if pl_origin p = Drafted \<and> \<not> orelse (xo_allow_drafted xo) (eh_allow_drafted h) then
           bind (raise_plan h p ''drafted_not_allowed'') (\<lambda>_. throw (vr VR4005 ''drafted_not_allowed'')) s1
         else case execute_gate_rejection (eh_pf h) p v mode t of
             Some rj \<Rightarrow> bind (raise_plan h p ''verifier_rejected'') (\<lambda>_.
                 if mode = ModeEnforce then throw (vr (rj_code rj) (rj_detail rj)) else result_now h p t False [] (Some (vr_str (rj_code rj)))) s1
           | None \<Rightarrow> (case receipt_of (en_ledger s) p of
               None \<Rightarrow> (s1, Inl (receipt_error (en_ledger s) p))
             | Some rc \<Rightarrow>
                 if rc_tier rc = T4 \<or> list_ex is_manual_step (pl_steps p) then refuse ''t4_irreversible'' ''VR1010''
                 else if pl_cascade_risk p = HighRisk then refuse ''cascade_risk'' ''VR1010''
                 else open_run h xo p rc t s1))"
  unfolding execute_plan_def open_run_def leased_run_def Let_def bind_clock
  by (simp add: bind_load_receipt split: option.split)

lemma execute_plan_open:
  assumes "\<not> gate_closed h xo p v s" "receipt_of (en_ledger s) p = Some rc"
  shows "execute_plan h xo p v s = open_run h xo p rc (eh_clock h (en_draws s)) (s\<lparr>en_draws := Suc (en_draws s)\<rparr>)"
  using assms unfolding execute_plan_cases gate_closed_def Let_def by auto

lemma failed_result:
  "result_now h p started False ids code s = (s', Inr res) \<Longrightarrow> \<not> xr_ok res"
  by (auto simp: result_now_def bind_Inr_iff give_def make_result_def)

lemma execute_plan_closed:
  assumes "gate_closed h xo p v s" "execute_plan h xo p v s = (s', r)"
  shows "events_only s s' \<and> (\<forall>res. r = Inr res \<longrightarrow> \<not> xr_ok res)"
proof -
  let ?t = "eh_clock h (en_draws s)" and ?s = "s\<lparr>en_draws := Suc (en_draws s)\<rparr>" and ?mode = "orelse (xo_mode xo) (eh_mode h)"
  define refusal where "refusal m \<longleftrightarrow> keeps events_only m \<and> (\<forall>t t' res. m t = (t', Inr res) \<longrightarrow> \<not> xr_ok res)"
    for m :: "('a engine, exec_result) action"
  have ends: "events_only s s' \<and> (\<forall>res. r = Inr res \<longrightarrow> \<not> xr_ok res)" if "m ?s = (s', r)" "refusal m" for m
    using that eo.trans [of s ?s s'] keepsD [of events_only m ?s s' r] by (auto simp: refusal_def events_only_def)
  have raised: "refusal (bind (raise_plan h p reason) (\<lambda>_. m))" if "refusal m" for reason m
    using that by (auto simp: refusal_def bind_Inr_iff intro!: eo.bind)
  have result: "refusal (result_now h p ?t False [] code)" for code
    by (auto simp: refusal_def dest: failed_result)
  have thrown: "refusal (throw e)" for e
    by (auto simp: refusal_def throw_def keeps_def eo.refl)
  note run = assms(2) [unfolded execute_plan_cases Let_def]
  show ?thesis
  proof (cases "pl_origin p = Drafted \<and> \<not> orelse (xo_allow_drafted xo) (eh_allow_drafted h)")
    case True
    with run have "bind (raise_plan h p ''drafted_not_allowed'') (\<lambda>_. throw (vr VR4005 ''drafted_not_allowed'')) ?s = (s', r)" by simp
    from ends [OF this raised [OF thrown]] show ?thesis .
  next
    case allowed: False
    show ?thesis
    proof (cases "execute_gate_rejection (eh_pf h) p v ?mode ?t")
      case (Some rj)
      with run allowed have "bind (raise_plan h p ''verifier_rejected'') (\<lambda>_.
          if ?mode = ModeEnforce then throw (vr (rj_code rj) (rj_detail rj)) else result_now h p ?t False [] (Some (vr_str (rj_code rj)))) ?s = (s', r)"
        by auto
      from ends [OF this raised] thrown result show ?thesis by (auto split: if_splits)
    next
      case passed: None
      show ?thesis
      proof (cases "receipt_of (en_ledger s) p")
        case None
        with run allowed passed show ?thesis by (auto simp: events_only_def)
      next
        case (Some rc)
        with allowed passed assms(1) have "rc_tier rc = T4 \<or> list_ex is_manual_step (pl_steps p) \<or> pl_cascade_risk p = HighRisk"
          by (auto simp: gate_closed_def)
        with run allowed passed Some obtain reason where
            "bind (raise_plan h p reason) (\<lambda>_. result_now h p ?t False [] (Some ''VR1010'')) ?s = (s', r)"
          by (auto split: if_splits)
        from ends [OF this raised [OF result]] show ?thesis .
      qed
    qed
  qed
qed

lemma dry_run_idle: "xo_dry_run xo \<Longrightarrow> keeps idle (open_run h xo p rc started)"
  unfolding open_run_def leased_run_def Let_def
  by (intro idle.bind idle.if_action idle.modifies release_held_idle) (simp_all add: events_only_idle)

text \<open>
  C17: a plan that is drafted without permission, that the verification gate refuses, that belongs to a
  T4 effect, has a manual step or a high cascade risk, or whose effect is unknown, changes neither the
  world nor an attempt nor a lease, and is never reported as executed; a dry run changes neither the
  world nor an attempt.
\<close>

theorem plan_gates:
  assumes "execute_plan h xo p v s = (s', r)" "gate_closed h xo p v s \<or> xo_dry_run xo"
  shows "en_world s' = en_world s \<and> ml_attempts (en_ledger s') = ml_attempts (en_ledger s) \<and> ml_by_key (en_ledger s') = ml_by_key (en_ledger s)
    \<and> (gate_closed h xo p v s \<longrightarrow> ml_leases (en_ledger s') = ml_leases (en_ledger s) \<and> (\<forall>res. r = Inr res \<longrightarrow> \<not> xr_ok res))"
proof (cases "gate_closed h xo p v s")
  case True
  from execute_plan_closed [OF True assms(1)] show ?thesis by (simp add: events_only_def)
next
  case False
  then obtain rc where rc: "receipt_of (en_ledger s) p = Some rc" by (auto simp: gate_closed_def)
  let ?s = "s\<lparr>en_draws := Suc (en_draws s)\<rparr>"
  from execute_plan_open [OF False rc] assms(1) have "open_run h xo p rc (eh_clock h (en_draws s)) ?s = (s', r)" by simp
  from keepsD [OF dry_run_idle this] False assms(2) have "idle ?s s'" by blast
  with False show ?thesis by (simp add: idle_def)
qed

section \<open>A step that has succeeded is not run again\<close>

lemma bind_new_id: "bind (new_id h) f s = f (eh_id h (en_draws s)) (s\<lparr>en_draws := Suc (en_draws s)\<rparr>)"
  by (simp add: bind_def new_id_def draw_def)

lemma attempt_by_key_claimed: "mem_attempt_by_key l key = Some a \<Longrightarrow> map_of (ml_by_key l) key \<noteq> None"
  by (auto simp: mem_attempt_by_key_def split: option.splits)

lemma bind_now: "\<exists>t n. en_draws s \<le> n \<and> (\<forall>f. bind (now_of h xo) f s = f t (s\<lparr>en_draws := n\<rparr>))"
proof (cases "xo_now xo")
  case None
  then have "\<forall>f. bind (now_of h xo) f s = f (eh_clock h (en_draws s)) (s\<lparr>en_draws := Suc (en_draws s)\<rparr>)"
    by (simp add: now_of_def bind_clock)
  then show ?thesis by (intro exI [of _ "eh_clock h (en_draws s)"] exI [of _ "Suc (en_draws s)"]) simp
next
  case (Some t)
  have "s\<lparr>en_draws := en_draws s\<rparr> = s" by simp
  with Some have "\<forall>f. bind (now_of h xo) f s = f t (s\<lparr>en_draws := en_draws s\<rparr>)" by (simp add: now_of_def)
  then show ?thesis by blast
qed

lemma claim_succeeded:
  assumes "mem_attempt_by_key (en_ledger s) (at_key row) = Some a" "at_state a = Succeeded" "claim_step re step row s = (s', r)"
  shows "r = Inr None \<and> idle s s' \<and> en_ledger s' = en_ledger s"
proof -
  have dup: "mem_append_attempt row now (en_ledger s) = (en_ledger s, Some (DuplicateAttempt (at_key row)))" for now
    using attempt_by_key_claimed [OF assms(1)] by (simp add: mem_append_attempt_def)
  from assms(3) have "bind (push_attempt_id (at_id a)) (\<lambda>_. bind (push_result (plain_result (step_kind step))) (\<lambda>_. give None))
      (s\<lparr>en_draws := Suc (en_draws s)\<rparr>) = (s', r)"
    by (simp add: claim_step_def bind_clock dup assms(1,2) handle_existing_attempt_def)
  then show ?thesis
    by (auto simp: push_attempt_id_def push_result_def modifies_def bind_def give_def idle_def)
qed

lemma do_step_succeeded:
  assumes "mem_attempt_by_key (en_ledger s) (step_idempotency_key (eh_pf (re_host re)) (re_plan re) (re_receipt re) i) = Some a"
    "at_state a = Succeeded" "do_step re i step s = (s', r)"
  shows "r = Inr () \<and> idle s s' \<and> en_ledger s' = en_ledger s"
proof -
  obtain t n where t: "\<forall>f :: int \<Rightarrow> ('a engine, unit) action. bind (now_of (re_host re) (re_opts re)) f (s\<lparr>en_draws := Suc (en_draws s)\<rparr>)
      = f t (s\<lparr>en_draws := Suc (en_draws s)\<rparr>\<lparr>en_draws := n\<rparr>)"
    using bind_now by blast
  obtain row where row: "at_key row = step_idempotency_key (eh_pf (re_host re)) (re_plan re) (re_receipt re) i"
      "bind (claim_step re step row) (\<lambda>claimed. case claimed of None \<Rightarrow> give () | Some row \<Rightarrow> run_step re step row) (s\<lparr>en_draws := n\<rparr>) = (s', r)"
    using assms(3) unfolding do_step_def Let_def bind_new_id t [rule_format] by simp (erule that [rotated], simp)
  obtain s1 r1 where c: "claim_step re step row (s\<lparr>en_draws := n\<rparr>) = (s1, r1)" by (cases "claim_step re step row (s\<lparr>en_draws := n\<rparr>)")
  from claim_succeeded [OF _ assms(2) c] assms(1) row(1)
  have "r1 = Inr None" "idle (s\<lparr>en_draws := n\<rparr>) s1" "en_ledger s1 = en_ledger s" by simp_all
  with c row(2) show ?thesis by (auto simp: bind_def give_def idle_def)
qed

definition all_succeeded :: "platform \<Rightarrow> plan \<Rightarrow> receipt \<Rightarrow> mem_ledger \<Rightarrow> bool" where
  "all_succeeded pf p rc l \<longleftrightarrow>
     (\<forall>i < length (pl_steps p). \<exists>a. mem_attempt_by_key l (step_idempotency_key pf p rc i) = Some a \<and> at_state a = Succeeded)"

lemma do_steps_succeeded:
  assumes "\<forall>j < length steps. \<exists>a. mem_attempt_by_key (en_ledger s)
      (step_idempotency_key (eh_pf (re_host re)) (re_plan re) (re_receipt re) (i + j)) = Some a \<and> at_state a = Succeeded"
    and "do_steps re i steps s = (s', r)"
  shows "r = Inr () \<and> idle s s' \<and> en_ledger s' = en_ledger s"
  using assms
proof (induction steps arbitrary: i s)
  case Nil
  then show ?case by (auto simp: give_def idle.refl)
next
  case (Cons step steps)
  from Cons.prems(1) [rule_format, of 0] obtain a where
    a: "mem_attempt_by_key (en_ledger s) (step_idempotency_key (eh_pf (re_host re)) (re_plan re) (re_receipt re) i) = Some a" "at_state a = Succeeded"
    by auto
  obtain s1 r1 where s1: "do_step re i step s = (s1, r1)" by (cases "do_step re i step s")
  from do_step_succeeded [OF a s1] have r1: "r1 = Inr ()" "idle s s1" "en_ledger s1 = en_ledger s" by simp_all
  with Cons.prems(2) s1 have next_run: "do_steps re (Suc i) steps s1 = (s', r)" by (simp add: bind_def)
  have "\<forall>j < length steps. \<exists>a. mem_attempt_by_key (en_ledger s1)
      (step_idempotency_key (eh_pf (re_host re)) (re_plan re) (re_receipt re) (Suc i + j)) = Some a \<and> at_state a = Succeeded"
    using Cons.prems(1) [rule_format, of "Suc _"] r1(3) by simp
  from Cons.IH [OF this next_run] have "r = Inr () \<and> idle s1 s' \<and> en_ledger s' = en_ledger s1" .
  with r1 show ?case by (metis idle.trans)
qed

lemma run_failed_idle: "xo_coordinator (re_opts re) = None \<Longrightarrow> keeps idle (run_failed re e)"
proof -
  assume "xo_coordinator (re_opts re) = None"
  then have loss: "report_loss re = give ()" by (simp add: report_loss_def)
  obtain code detail where "as_vr e = (code, detail)" by (cases "as_vr e")
  then show ?thesis unfolding run_failed_def loss Let_def
    by (simp del: bind_simps) (intro idle.bind idle.only_if; simp add: events_only_idle)
qed

lemma finish_run_idle: "xo_coordinator (re_opts re) = None \<Longrightarrow> keeps idle (finish_run re started ids results)"
proof -
  assume "xo_coordinator (re_opts re) = None"
  then have commit: "commit_claim re = give ()" by (simp add: commit_claim_def)
  show ?thesis unfolding finish_run_def commit
    by (intro idle.case_option_action idle.bind) (simp_all add: events_only_idle)
qed

lemma run_plan_succeeded:
  assumes "all_succeeded (eh_pf (re_host re)) (re_plan re) (re_receipt re) (en_ledger s)" "xo_coordinator (re_opts re) = None"
    "run_plan re started s = (s', r)"
  shows "idle s s'"
proof -
  obtain s1 r1 where s1: "do_steps re 0 (pl_steps (re_plan re)) s = (s1, r1)" by (cases "do_steps re 0 (pl_steps (re_plan re)) s")
  from do_steps_succeeded [OF _ s1] assms(1) have r1: "r1 = Inr ()" "idle s s1" by (auto simp: all_succeeded_def)
  obtain s2 r2 where s2: "run_body re started s = (s2, r2)" by (cases "run_body re started s")
  have "bind (do_steps re 0 (pl_steps (re_plan re))) f s = f () s1" for f :: "unit \<Rightarrow> ('a engine, exec_result) action"
    by (simp add: bind_def s1 r1)
  then have "run_body re started s = finish_run re started (en_attempt_ids s1) (en_results s1) s1"
    by (simp add: run_body_def announce_def assms(2))
  with s2 have "finish_run re started (en_attempt_ids s1) (en_results s1) s1 = (s2, r2)" by simp
  from keepsD [OF finish_run_idle [OF assms(2)] this] r1 have "idle s s2" by (blast intro: idle.trans)
  moreover obtain s3 r3 where s3: "catching (run_body re started) (run_failed re) s = (s3, r3)"
    by (cases "catching (run_body re started) (run_failed re) s")
  ultimately have "idle s s3" using s2 keepsD [OF run_failed_idle [OF assms(2)]]
    by (auto simp: catching_def intro: idle.trans split: sum.splits)
  moreover have "s' = release_held (re_keys re) (re_held re) s3"
    using s3 assms(3) by (simp add: run_plan_def finally_do_def)
  ultimately show ?thesis using release_held_idle idle.trans by metis
qed

text \<open>Neither the attempts nor their keys have changed, and the draws go on.\<close>

definition quiet :: "'w engine \<Rightarrow> 'w engine \<Rightarrow> bool" where
  "quiet s t \<longleftrightarrow> ml_attempts (en_ledger t) = ml_attempts (en_ledger s) \<and> ml_by_key (en_ledger t) = ml_by_key (en_ledger s)
     \<and> en_draws s \<le> en_draws t"

interpretation quiet: preserved quiet
  by unfold_locales (auto simp: quiet_def)

lemma quiet_draw [simp]: "keeps quiet (draw f)"
  by (simp add: keeps_def draw_def quiet_def)

lemma quiet_clock [simp]: "keeps quiet (clock h)" "keeps quiet (new_id h)"
  by (simp_all add: clock_def new_id_def)

lemma quiet_now [simp]: "keeps quiet (now_of h xo)"
  by (simp add: now_of_def split: option.split)

lemma all_succeeded_idle: "all_succeeded pf p rc (en_ledger s) \<Longrightarrow> idle s t \<Longrightarrow> all_succeeded pf p rc (en_ledger t)"
proof -
  assume "idle s t"
  then have "mem_attempt_by_key (en_ledger t) k = mem_attempt_by_key (en_ledger s) k" for k
    by (auto simp: idle_def mem_attempt_by_key_def split: option.split)
  then show "all_succeeded pf p rc (en_ledger s) \<Longrightarrow> all_succeeded pf p rc (en_ledger t)" by (simp add: all_succeeded_def)
qed

text \<open>The cases of a run that holds its leases.\<close>

lemma leased_run_cases:
  assumes "leased_run h xo p rc started keys held s = (s', r)" "\<not> xo_dry_run xo"
  obtains n e where "s' = s\<lparr>en_draws := n\<rparr>" "r = Inl e"
  | n where "run_plan \<lparr>re_host = h, re_opts = xo, re_plan = p, re_receipt = rc,
           re_signature = orelse_opt (xo_signature xo) (xo_match xo rc), re_keys = keys, re_held = held\<rparr> started
         (s\<lparr>en_draws := n, en_attempt_ids := [], en_results := []\<rparr>) = (s', r)" "quiet s (s\<lparr>en_draws := n\<rparr>)"
proof -
  obtain t n where n: "en_draws s \<le> n"
    and now: "\<forall>f :: int \<Rightarrow> ('a engine, exec_result) action. bind (now_of h xo) f s = f t (s\<lparr>en_draws := n\<rparr>)"
    using bind_now by blast
  from n have q: "quiet s (s\<lparr>en_draws := n\<rparr>)" by (simp add: quiet_def)
  show thesis
    using assms(1) that(1) that(2) [OF _ q] unfolding leased_run_def now [rule_format]
    by (auto simp: assms(2) of_ledger_def throw_def bind_modifies split: if_splits)
qed

lemma open_run_succeeded:
  assumes "open_run h xo p rc started s = (s', r)" "all_succeeded (eh_pf h) p rc (en_ledger s)" "xo_coordinator xo = None"
  shows "idle s s'"
proof (cases "xo_dry_run xo")
  case True
  from keepsD [OF dry_run_idle [OF this] assms(1)] show ?thesis .
next
  case False
  let ?keys = "sorted_resource_keys (rc_resource_keys rc)"
  obtain s1 r1 where t: "take_leases h xo p ?keys s = (s1, r1)" by (cases "take_leases h xo p ?keys s")
  have i1: "idle s s1" by (rule keepsD [OF take_leases_idle t])
  show ?thesis
  proof (cases r1)
    case (Inl e)
    with t assms(1) i1 show ?thesis by (simp add: open_run_def Let_def bind_def)
  next
    case (Inr held)
    with t assms(1) have lr: "leased_run h xo p rc started ?keys held s1 = (s', r)" by (simp add: open_run_def Let_def bind_def)
    show ?thesis
    proof (rule leased_run_cases [OF lr False], goal_cases)
      case (1 n e)
      with i1 show ?thesis by (simp add: idle_def)
    next
      case (2 n)
      let ?s2 = "s1\<lparr>en_draws := n, en_attempt_ids := [], en_results := []\<rparr>"
      have i2: "idle s ?s2" using i1 by (simp add: idle_def)
      from run_plan_succeeded [OF _ _ 2(1)] all_succeeded_idle [OF assms(2) i2] assms(3) have "idle ?s2 s'" by simp
      with i2 show ?thesis by (rule idle.trans)
    qed
  qed
qed

lemma execute_plan_succeeded:
  assumes "execute_plan h xo p v s = (s', r)" "receipt_of (en_ledger s) p = Some rc"
    "all_succeeded (eh_pf h) p rc (en_ledger s)" "xo_coordinator xo = None"
  shows "idle s s'"
proof (cases "gate_closed h xo p v s")
  case True
  from execute_plan_closed [OF True assms(1)] show ?thesis by (simp add: events_only_def idle_def)
next
  case False
  let ?s = "s\<lparr>en_draws := Suc (en_draws s)\<rparr>"
  have "open_run h xo p rc (eh_clock h (en_draws s)) ?s = (s', r)" using execute_plan_open [OF False assms(2)] assms(1) by simp
  from open_run_succeeded [OF this] assms(3,4) have "idle ?s s'" by simp
  then show ?thesis by (simp add: idle_def)
qed

section \<open>A successful first run records every step\<close>

lemma quiet_in_world [simp]: "keeps quiet (in_world m)"
  by (auto simp: keeps_def in_world_def quiet_def split: prod.split)

lemma quiet_of_ledger [simp]: "keeps quiet (of_ledger f)"
  by (simp add: of_ledger_def)

lemma quiet_ledger_append [simp]: "keeps quiet (ledger_append h ev fsync)"
proof -
  have "keeps quiet (\<lambda>s. case mem_append (eh_pf h) (eh_ledger h) ev fsync ident now (en_ledger s) of
         (l, None) \<Rightarrow> (s\<lparr>en_ledger := l\<rparr>, Inr ()) | (l, Some e) \<Rightarrow> (s\<lparr>en_ledger := l\<rparr>, Inl (ledger_exception e)))" for ident now
    using mem_append_frame by (fastforce simp: keeps_def quiet_def split: prod.split option.split)
  then show ?thesis unfolding ledger_append_def by (intro quiet.bind) simp_all
qed

lemma quiet_append_chained [simp]: "keeps quiet (append_chained h sid type payload eid fsync)"
  unfolding append_chained_def Let_def by (intro quiet.bind quiet.case_option_action) simp_all

lemma quiet_raise_plan [simp]: "keeps quiet (raise_plan h p reason)"
  unfolding raise_plan_def raise_escalation_def by (intro quiet.bind) simp_all

lemma quiet_step_action: "keeps quiet (step_action re step k)"
  unfolding step_action_def by (intro quiet.bind) simp_all

lemma quiet_try_step: "keeps quiet m \<Longrightarrow> keeps quiet (try_step m n)"
proof (induction n)
  case (Suc n)
  show ?case unfolding keeps_def
  proof
    fix s
    obtain s1 r1 where m: "m s = (s1, r1)" by (cases "m s")
    from keepsD [OF Suc.prems m] Suc.IH [OF Suc.prems] show "quiet s (fst (try_step m (Suc n) s))"
      by (auto simp: m keeps_def intro: quiet.trans split: sum.split)
  qed
qed simp

lemma check_fence_ok:
  assumes "check_fence re row k s = (s', Inr ())"
  shows "quiet s s' \<and> (\<exists>now. inspect_fence mem_api (ml_leases (en_ledger s)) k (re_held re) now = FenceOk)"
proof -
  obtain t n where n: "en_draws s \<le> n"
    and t: "\<forall>f :: int \<Rightarrow> ('a engine, unit) action. bind (now_of (re_host re) (re_opts re)) f s = f t (s\<lparr>en_draws := n\<rparr>)"
    using bind_now by blast
  from n have q: "quiet s (s\<lparr>en_draws := n\<rparr>)" by (simp add: quiet_def)
  from assms have "inspect_fence mem_api (ml_leases (en_ledger s)) k (re_held re) t = FenceOk \<and> s' = s\<lparr>en_draws := n\<rparr>"
    unfolding check_fence_def t [rule_format]
    by (auto simp: of_ledger_def throw_def give_def bind_Inr_iff split: if_splits)
  with q show ?thesis by blast
qed

lemma check_fences_ok:
  "each (check_fence re row) keys s = (s', Inr ()) \<Longrightarrow> quiet s s'"
proof (induction keys arbitrary: s)
  case (Cons k keys)
  then obtain s1 where "check_fence re row k s = (s1, Inr ())" "each (check_fence re row) keys s1 = (s', Inr ())"
    by (auto simp: bind_Inr_iff)
  with Cons.IH check_fence_ok show ?case by (blast intro: quiet.trans)
qed (auto simp: give_def quiet.refl)

lemma update_attempt_run:
  "update_attempt h row s = (s', r) \<Longrightarrow> r = Inr () \<and> en_world s' = en_world s \<and> en_draws s < en_draws s'
     \<and> map_of (ml_attempts (en_ledger s')) = (map_of (ml_attempts (en_ledger s)))(at_id row \<mapsto> row)
     \<and> map_of (ml_by_key (en_ledger s')) = (map_of (ml_by_key (en_ledger s)))(at_key row \<mapsto> at_id row)"
  by (auto simp: update_attempt_def bind_clock on_ledger_def modifies_def mem_update_attempt_def mark_fsync_def update_conv')

lemma run_step_success:
  assumes "run_step re step row s = (s', Inr ())"
  shows "\<exists>a. at_state a = Succeeded \<and> map_of (ml_attempts (en_ledger s')) = (map_of (ml_attempts (en_ledger s)))(at_id row \<mapsto> a)
    \<and> map_of (ml_by_key (en_ledger s')) = (map_of (ml_by_key (en_ledger s)))(at_key row \<mapsto> at_id row) \<and> en_draws s \<le> en_draws s'"
proof -
  from assms obtain s1 s2 err r s3 t s4 s5 where run:
      "each (check_fence re row) (re_keys re) s = (s1, Inr ())"
      "try_step (step_action re step (at_id row)) (nat (max_retries (re_host re))) s1 = (s2, Inr (err, r))"
      "now_of (re_host re) (re_opts re) s2 = (s3, Inr t)" "err = None"
      "update_attempt (re_host re) (row\<lparr>at_state := Succeeded, at_finished := Some (pf_iso (eh_pf (re_host re)) t)\<rparr>) s3 = (s4, Inr ())"
      "push_attempt_id (at_id row) s4 = (s5, Inr ())" "push_result (orelse r (plain_result (step_kind step))) s5 = (s', Inr ())"
    unfolding run_step_def Let_def
    by (auto simp: bind_Inr_iff throw_def split: option.splits)
  have "quiet s s1" by (rule check_fences_ok [OF run(1)])
  moreover have "quiet s1 s2" by (rule keepsD [OF quiet_try_step [OF quiet_step_action] run(2)])
  moreover have "quiet s2 s3" by (rule keepsD [OF quiet_now run(3)])
  ultimately have q: "quiet s s3" by (blast intro: quiet.trans)
  have "en_ledger s' = en_ledger s4 \<and> en_draws s' = en_draws s4"
    using run(6,7) by (auto simp: push_attempt_id_def push_result_def modifies_def)
  with q update_attempt_run [OF run(5)] show ?thesis
    by (intro exI [of _ "row\<lparr>at_state := Succeeded, at_finished := Some (pf_iso (eh_pf (re_host re)) t)\<rparr>"]) (simp add: quiet_def)
qed

lemma claim_fresh:
  assumes "map_of (ml_by_key (en_ledger s)) (at_key row) = None" "claim_step re step row s = (s', r)"
  shows "r = Inr (Some row) \<and> en_draws s < en_draws s'
    \<and> map_of (ml_attempts (en_ledger s')) = (map_of (ml_attempts (en_ledger s)))(at_id row \<mapsto> row)
    \<and> map_of (ml_by_key (en_ledger s')) = (map_of (ml_by_key (en_ledger s)))(at_key row \<mapsto> at_id row)"
  using assms by (auto simp: claim_step_def bind_clock mem_append_attempt_def mark_fsync_def update_conv')

text \<open>What a successful first execution of a step does to the attempts: the new identifier is the key's.\<close>

lemma do_step_fresh:
  assumes "map_of (ml_by_key (en_ledger s)) (step_idempotency_key (eh_pf (re_host re)) (re_plan re) (re_receipt re) i) = None"
    and "do_step re i step s = (s', Inr ())"
  shows "en_draws s < en_draws s'
    \<and> map_of (ml_by_key (en_ledger s')) = (map_of (ml_by_key (en_ledger s)))
        (step_idempotency_key (eh_pf (re_host re)) (re_plan re) (re_receipt re) i \<mapsto> eh_id (re_host re) (en_draws s))
    \<and> (\<exists>a. at_state a = Succeeded \<and> map_of (ml_attempts (en_ledger s')) = (map_of (ml_attempts (en_ledger s)))(eh_id (re_host re) (en_draws s) \<mapsto> a))"
proof -
  let ?key = "step_idempotency_key (eh_pf (re_host re)) (re_plan re) (re_receipt re) i" and ?k = "eh_id (re_host re) (en_draws s)"
  obtain t n where n': "en_draws (s\<lparr>en_draws := Suc (en_draws s)\<rparr>) \<le> n"
    and t: "\<forall>f :: int \<Rightarrow> ('a engine, unit) action. bind (now_of (re_host re) (re_opts re)) f (s\<lparr>en_draws := Suc (en_draws s)\<rparr>)
      = f t (s\<lparr>en_draws := Suc (en_draws s)\<rparr>\<lparr>en_draws := n\<rparr>)"
    using bind_now by blast
  from n' have n: "Suc (en_draws s) \<le> n" by simp
  obtain row where row: "at_key row = ?key \<and> at_id row = ?k"
      "bind (claim_step re step row) (\<lambda>claimed. case claimed of None \<Rightarrow> give () | Some row \<Rightarrow> run_step re step row) (s\<lparr>en_draws := n\<rparr>) = (s', Inr ())"
    using assms(2) unfolding do_step_def Let_def bind_new_id t [rule_format] by simp (erule that [rotated], simp)
  obtain s1 r1 where c: "claim_step re step row (s\<lparr>en_draws := n\<rparr>) = (s1, r1)" by (cases "claim_step re step row (s\<lparr>en_draws := n\<rparr>)")
  from claim_fresh [OF _ c] assms(1) row(1) have c1: "r1 = Inr (Some row)" "n < en_draws s1"
      "map_of (ml_attempts (en_ledger s1)) = (map_of (ml_attempts (en_ledger s)))(?k \<mapsto> row)"
      "map_of (ml_by_key (en_ledger s1)) = (map_of (ml_by_key (en_ledger s)))(?key \<mapsto> ?k)" by simp_all
  with c row(2) have "run_step re step row s1 = (s', Inr ())" by (simp add: bind_def)
  from run_step_success [OF this] row(1) c1 n show ?thesis by auto
qed

lemma do_steps_fresh:
  fixes re :: "'w run_env"
  defines "key i \<equiv> step_idempotency_key (eh_pf (re_host re)) (re_plan re) (re_receipt re) i"
  assumes ids: "inj (eh_id (re_host re))"
    and "\<forall>j < length steps. map_of (ml_by_key (en_ledger s)) (key (i + j)) = None"
    and "inj_on key {i..<i + length steps}" "do_steps re i steps s = (s', Inr ())"
  shows "en_draws s \<le> en_draws s'
    \<and> (\<forall>m. m < en_draws s \<longrightarrow> map_of (ml_attempts (en_ledger s')) (eh_id (re_host re) m) = map_of (ml_attempts (en_ledger s)) (eh_id (re_host re) m))
    \<and> (\<forall>k. k \<notin> key ` {i..<i + length steps} \<longrightarrow> map_of (ml_by_key (en_ledger s')) k = map_of (ml_by_key (en_ledger s)) k)
    \<and> (\<forall>j < length steps. \<exists>m a. m < en_draws s' \<and> map_of (ml_by_key (en_ledger s')) (key (i + j)) = Some (eh_id (re_host re) m)
         \<and> map_of (ml_attempts (en_ledger s')) (eh_id (re_host re) m) = Some a \<and> at_state a = Succeeded)"
  using assms(3-)
proof (induction steps arbitrary: i s)
  case Nil
  then show ?case by (auto simp: give_def)
next
  case (Cons step steps)
  let ?id = "eh_id (re_host re)"
  from Cons.prems(3) obtain s1 where s1: "do_step re i step s = (s1, Inr ())" "do_steps re (Suc i) steps s1 = (s', Inr ())"
    by (auto simp: bind_Inr_iff)
  from Cons.prems(1) have "map_of (ml_by_key (en_ledger s)) (key i) = None" by force
  from do_step_fresh [OF this [unfolded key_def] s1(1)] obtain a where a: "en_draws s < en_draws s1" "at_state a = Succeeded"
      "map_of (ml_by_key (en_ledger s1)) = (map_of (ml_by_key (en_ledger s)))(key i \<mapsto> ?id (en_draws s))"
      "map_of (ml_attempts (en_ledger s1)) = (map_of (ml_attempts (en_ledger s)))(?id (en_draws s) \<mapsto> a)"
    by (auto simp: key_def)
  have ne: "key (Suc i + j) \<noteq> key i" if "j < length steps" for j
    using inj_onD [OF Cons.prems(2), of "Suc i + j" i] that by auto
  have fresh: "\<forall>j < length steps. map_of (ml_by_key (en_ledger s1)) (key (Suc i + j)) = None"
    using Cons.prems(1) [rule_format, of "Suc _"] ne by (simp add: a(3))
  have inj: "inj_on key {Suc i..<Suc i + length steps}" using Cons.prems(2) by (rule inj_on_subset) auto
  from Cons.IH [OF fresh inj s1(2)] have IH: "en_draws s1 \<le> en_draws s'"
      "\<forall>m. m < en_draws s1 \<longrightarrow> map_of (ml_attempts (en_ledger s')) (?id m) = map_of (ml_attempts (en_ledger s1)) (?id m)"
      "\<forall>k. k \<notin> key ` {Suc i..<Suc i + length steps} \<longrightarrow> map_of (ml_by_key (en_ledger s')) k = map_of (ml_by_key (en_ledger s1)) k"
      "\<forall>j < length steps. \<exists>m a. m < en_draws s' \<and> map_of (ml_by_key (en_ledger s')) (key (Suc i + j)) = Some (?id m)
         \<and> map_of (ml_attempts (en_ledger s')) (?id m) = Some a \<and> at_state a = Succeeded" by blast+
  have "key i \<noteq> key x" if "x \<in> {Suc i..<Suc i + length steps}" for x
    using inj_onD [OF Cons.prems(2), of i x] that by auto
  then have "key i \<notin> key ` {Suc i..<Suc i + length steps}" by blast
  with IH(3) a(3) have here: "map_of (ml_by_key (en_ledger s')) (key i) = Some (?id (en_draws s))" by simp
  from IH(2) a(1,4) have att: "map_of (ml_attempts (en_ledger s')) (?id (en_draws s)) = Some a" by simp
  have others: "map_of (ml_attempts (en_ledger s')) (?id m) = map_of (ml_attempts (en_ledger s)) (?id m)" if "m < en_draws s" for m
    using IH(2) a(1,4) that injD [OF ids, of m "en_draws s"] by auto
  have keys: "map_of (ml_by_key (en_ledger s')) k = map_of (ml_by_key (en_ledger s)) k" if "k \<notin> key ` {i..<i + length (step # steps)}" for k
  proof -
    have "k \<noteq> key i" "k \<notin> key ` {Suc i..<Suc i + length steps}" using that by auto
    with IH(3) a(3) show ?thesis by simp
  qed
  have each: "\<exists>m a. m < en_draws s' \<and> map_of (ml_by_key (en_ledger s')) (key (i + j)) = Some (?id m)
         \<and> map_of (ml_attempts (en_ledger s')) (?id m) = Some a \<and> at_state a = Succeeded" if "j < length (step # steps)" for j
  proof (cases j)
    case 0
    with here att a(1,2) IH(1) show ?thesis by (intro exI [of _ "en_draws s"] exI [of _ a]) simp
  next
    case (Suc j')
    with that IH(4) show ?thesis by auto
  qed
  from a(1) IH(1) others keys each show ?case by (meson less_imp_le le_trans)
qed

lemma run_failed_fails: "run_failed re e s = (s', r) \<Longrightarrow> \<exists>e'. r = Inl e'"
  by (cases "as_vr e"; cases r) (auto simp: run_failed_def bind_Inr_iff throw_def)

lemma run_plan_fresh:
  fixes re :: "'w run_env"
  defines "key i \<equiv> step_idempotency_key (eh_pf (re_host re)) (re_plan re) (re_receipt re) i"
  assumes ids: "inj (eh_id (re_host re))" "\<forall>n. eh_id (re_host re) n \<noteq> []"
    and fresh: "\<forall>j < length (pl_steps (re_plan re)). map_of (ml_by_key (en_ledger s)) (key j) = None"
    and inj: "inj_on key {..<length (pl_steps (re_plan re))}" and coord: "xo_coordinator (re_opts re) = None"
    and run: "run_plan re started s = (s', Inr res)"
  shows "all_succeeded (eh_pf (re_host re)) (re_plan re) (re_receipt re) (en_ledger s')"
proof -
  from run obtain s3 where s3: "catching (run_body re started) (run_failed re) s = (s3, Inr res)" "s' = release_held (re_keys re) (re_held re) s3"
    by (auto simp: run_plan_def finally_do_def split: prod.splits)
  then have "run_body re started s = (s3, Inr res)" using run_failed_fails by (fastforce simp: catching_Inr_iff)
  then obtain s1 where s1: "do_steps re 0 (pl_steps (re_plan re)) s = (s1, Inr ())"
      "finish_run re started (en_attempt_ids s1) (en_results s1) s1 = (s3, Inr res)"
    by (auto simp: run_body_def announce_def coord bind_Inr_iff)
  from keepsD [OF finish_run_idle [OF coord] s1(2)] s3(2) release_held_idle have rest: "idle s1 s'" by (metis idle.trans)
  have "inj_on key {0..<0 + length (pl_steps (re_plan re))}" using inj by (simp add: lessThan_atLeast0)
  from do_steps_fresh [OF ids(1) _ this [unfolded key_def] s1(1)] fresh
  have "\<forall>j < length (pl_steps (re_plan re)). \<exists>m a. map_of (ml_by_key (en_ledger s1)) (key j) = Some (eh_id (re_host re) m)
         \<and> map_of (ml_attempts (en_ledger s1)) (eh_id (re_host re) m) = Some a \<and> at_state a = Succeeded"
    by (fastforce simp: key_def)
  with ids(2) have "all_succeeded (eh_pf (re_host re)) (re_plan re) (re_receipt re) (en_ledger s1)"
    by (fastforce simp: all_succeeded_def mem_attempt_by_key_def key_def)
  from all_succeeded_idle [OF this rest] show ?thesis .
qed

lemma first_run_records:
  assumes run: "execute_plan h xo p v s = (s1, Inr res)" "xr_ok res" "\<not> xo_dry_run xo" "xo_coordinator xo = None"
    and rc: "receipt_of (en_ledger s) p = Some rc"
    and ids: "inj (eh_id h)" "\<forall>n. eh_id h n \<noteq> []"
    and fresh: "\<forall>i < length (pl_steps p). map_of (ml_by_key (en_ledger s)) (step_idempotency_key (eh_pf h) p rc i) = None"
    and keys: "inj_on (step_idempotency_key (eh_pf h) p rc) {..<length (pl_steps p)}"
  shows "all_succeeded (eh_pf h) p rc (en_ledger s1)"
proof -
  let ?s = "s\<lparr>en_draws := Suc (en_draws s)\<rparr>" and ?keys = "sorted_resource_keys (rc_resource_keys rc)"
  have "\<not> gate_closed h xo p v s" using execute_plan_closed [OF _ run(1)] run(2) by blast
  from execute_plan_open [OF this rc] run(1) have "open_run h xo p rc (eh_clock h (en_draws s)) ?s = (s1, Inr res)" by simp
  then obtain s2 held where t: "take_leases h xo p ?keys ?s = (s2, Inr held)"
      and lr: "leased_run h xo p rc (eh_clock h (en_draws s)) ?keys held s2 = (s1, Inr res)"
    by (auto simp: open_run_def Let_def bind_Inr_iff)
  have i: "idle ?s s2" by (rule keepsD [OF take_leases_idle t])
  show ?thesis
  proof (rule leased_run_cases [OF lr run(3)], goal_cases)
    case (2 n)
    from i fresh have "\<forall>j < length (pl_steps p). map_of (ml_by_key (en_ledger s2)) (step_idempotency_key (eh_pf h) p rc j) = None"
      by (simp add: idle_def)
    with run_plan_fresh [OF _ _ _ _ _ 2(1)] ids keys run(4) show ?case by simp
  qed simp
qed


definition sample_host :: engine_host where
  "sample_host = \<lparr>eh_pf = sample_platform, eh_ledger = sample_config, eh_id = (\<lambda>n. replicate (Suc n) (CHR ''i'')), eh_clock = int,
     eh_actor = None, eh_agent_id = None, eh_allow_drafted = False, eh_mode = ModeEnforce, eh_max_retries = None,
     eh_lease_ttl = None, eh_lease_wait = None, eh_meanwhile = (\<lambda>_ l. l), eh_lease_meanwhile = (\<lambda>_ l. l)\<rparr>"

definition sample_exec_opts :: "sample_world exec_opts" where
  "sample_exec_opts = \<lparr>xo_ops = sample_ops, xo_dry_run = False, xo_allow_drafted = None, xo_credentials = None, xo_permits = None,
     xo_ttl = None, xo_wait = None, xo_holder = None, xo_process_id = ''p'', xo_now = None, xo_signature = None, xo_match = (\<lambda>_. None),
     xo_probe = None, xo_probe_attempts = None, xo_idle = (\<lambda>w. w), xo_held = None, xo_skip_acquire = True, xo_mode = None,
     xo_coordinator = None\<rparr>"

definition sample_exec_plan :: plan where
  "sample_exec_plan = \<lparr>pl_plan_id = ''p'', pl_effect_id = ''e'', pl_saga_id = ''s'', pl_compensator_id = ''c'', pl_origin = Builtin,
     pl_steps = [sample_sql_update], pl_hash = ''h'', pl_postconditions = [], pl_completeness = Full, pl_leak = NoLeak,
     pl_cascade_risk = NoRisk, pl_summary = [], pl_created_at = ''0''\<rparr>"

definition sample_effect_event :: event where
  "sample_effect_event = sample_typed ''effect_opened'' (Some ''e'')
     (JObj [(''effect_id'', JStr ''e''), (''seq'', JInt 4), (''tier'', JStr ''T1'')])"

definition sample_engine :: "sample_world engine" where
  "sample_engine = \<lparr>en_ledger = create_memory sample_platform [sample_effect_event] 0, en_world = [], en_draws = 0,
     en_attempt_ids = [], en_results = [], en_cache = Map.empty, en_budget = Map.empty\<rparr>"

definition sample_run :: "plan \<Rightarrow> sample_world engine \<Rightarrow> sample_world engine \<times> (engine_error + exec_result)" where
  "sample_run p s = execute_plan sample_host sample_exec_opts p None s"

lemma plan_gates_witness:
  "en_world (fst (sample_run (sample_exec_plan\<lparr>pl_cascade_risk := HighRisk\<rparr>) sample_engine)) = []"
proof -
  let ?p = "sample_exec_plan\<lparr>pl_cascade_risk := HighRisk\<rparr>"
  have run: "execute_plan sample_host sample_exec_opts ?p None sample_engine = (fst (sample_run ?p sample_engine), snd (sample_run ?p sample_engine))"
    by (simp add: sample_run_def)
  have "gate_closed sample_host sample_exec_opts ?p None sample_engine" by (simp add: gate_closed_def)
  from plan_gates [OF run disjI1 [OF this]] show ?thesis by (simp add: sample_engine_def)
qed


section \<open>The fences before a step\<close>

lemma check_fence_world:
  assumes "check_fence re row k s = (s', r)"
  shows "en_world s' = en_world s"
proof -
  obtain t n where t: "\<forall>f :: int \<Rightarrow> ('a engine, unit) action. bind (now_of (re_host re) (re_opts re)) f s = f t (s\<lparr>en_draws := n\<rparr>)"
    using bind_now by blast
  show ?thesis using assms unfolding check_fence_def t [rule_format]
    by (auto simp: of_ledger_def reads_def throw_def give_def bind_def update_attempt_def clock_run on_ledger_def modifies_def split: if_splits)
qed

lemma check_fence_ledger:
  assumes "check_fence re row k s = (s', Inr ())"
  shows "en_ledger s' = en_ledger s"
proof -
  obtain t n where t: "\<forall>f :: int \<Rightarrow> ('a engine, unit) action. bind (now_of (re_host re) (re_opts re)) f s = f t (s\<lparr>en_draws := n\<rparr>)"
    using bind_now by blast
  show ?thesis using assms unfolding check_fence_def t [rule_format]
    by (auto simp: of_ledger_def reads_def throw_def give_def bind_def split: if_splits prod.splits sum.splits)
qed

lemma check_fences_run:
  "each (check_fence re row) keys s = (s', r) \<Longrightarrow>
     en_world s' = en_world s \<and> (r = Inr () \<longrightarrow> en_ledger s' = en_ledger s \<and> (\<forall>k \<in> set keys. \<exists>now.
       inspect_fence mem_api (ml_leases (en_ledger s)) k (re_held re) now = FenceOk))"
proof (induction keys arbitrary: s)
  case (Cons k keys)
  obtain s1 r1 where s1: "check_fence re row k s = (s1, r1)" by (cases "check_fence re row k s")
  note w = check_fence_world [OF s1]
  show ?case
  proof (cases r1)
    case (Inl e)
    with Cons.prems s1 w show ?thesis by (auto simp: bind_def)
  next
    case (Inr u)
    with Cons.prems s1 have "each (check_fence re row) keys s1 = (s', r)" by (simp add: bind_def)
    from Cons.IH [OF this] w check_fence_ledger [of re row k s s1] check_fence_ok [of re row k s s1] s1 Inr show ?thesis by auto
  qed
qed (simp add: give_def)

lemma fence_ok_iff:
  "inspect_fence mem_api ls k held now = FenceOk \<longleftrightarrow>
     (\<exists>l. ls k = Some l \<and> ls_holder l = hd_holder held \<and> now < ls_expires l \<and> (\<forall>f. hd_fences held k = Some f \<longrightarrow> f = ls_fence l))"
  by (auto simp: inspect_fence_def mem_api_def mem_get_def split: option.splits)


definition sample_env :: "sample_world run_env" where
  "sample_env = \<lparr>re_host = sample_host, re_opts = sample_exec_opts, re_plan = sample_exec_plan, re_receipt = sample_receipt,
     re_signature = None, re_keys = [''k''], re_held = \<lparr>hd_holder = ''me'', hd_fences = (\<lambda>_. Some 1), hd_expires = (\<lambda>_. None)\<rparr>\<rparr>"

definition sample_row :: attempt where
  "sample_row = \<lparr>at_id = ''a'', at_key = ''k'', at_effect_id = ''e'', at_plan_id = ''p'', at_step_index = 0, at_fence = 1,
     at_state = Started, at_started = ''0'', at_finished = None, at_error = None, at_response = None\<rparr>"

definition sample_leased :: "sample_world engine" where
  "sample_leased = sample_engine\<lparr>en_ledger := (en_ledger sample_engine)\<lparr>ml_leases :=
     (\<lambda>k. if k = ''k'' then Some \<lparr>ls_holder = ''me'', ls_acquired = 0, ls_expires = 9, ls_fence = 1\<rparr> else None)\<rparr>\<rparr>"


section \<open>Deviations\<close>

definition sample_outcome :: "sample_world engine \<times> (engine_error + exec_result) \<Rightarrow> sample_world \<times> bool option \<times> attempt_state list" where
  "sample_outcome sr = (en_world (fst sr), (case snd sr of Inr res \<Rightarrow> Some (xr_ok res) | Inl e \<Rightarrow> None),
     map (at_state \<circ> snd) (ml_attempts (en_ledger (fst sr))))"

text \<open>
  With a limit of no retries the loop around the step does not run at all: the step is not executed, and its
  attempt is recorded as succeeded.
\<close>

lemma zero_retries_skip_steps:
  "sample_outcome (execute_plan (sample_host\<lparr>eh_max_retries := Some 0\<rparr>) sample_exec_opts sample_exec_plan None sample_engine)
     = ([], Some True, [Succeeded])"
  by code_simp

text \<open>
  An attempt left in doubt is settled by probing the effect that is to be undone, not the compensation: when the
  effect is found still in place, the compensation counts as having succeeded, and when it is found gone, the
  attempt is recorded as failed; in both cases the step is not run and the plan reports success.
\<close>

definition sample_doubt :: "sample_world engine" where
  "sample_doubt = sample_engine\<lparr>en_ledger := (en_ledger sample_engine)\<lparr>
     ml_attempts := [(''a'', \<lparr>at_id = ''a'', at_key = step_idempotency_key sample_platform sample_exec_plan (sample_receipt\<lparr>rc_seq := 4\<rparr>) 0,
        at_effect_id = ''e'', at_plan_id = ''p'', at_step_index = 0, at_fence = 0, at_state = AttemptInDoubt, at_started = ''0'',
        at_finished = None, at_error = None, at_response = None\<rparr>)],
     ml_by_key := [(step_idempotency_key sample_platform sample_exec_plan (sample_receipt\<lparr>rc_seq := 4\<rparr>) 0, ''a'')]\<rparr>\<rparr>"

lemma in_doubt_probe_of_the_effect:
  "sample_outcome (execute_plan sample_host (sample_exec_opts\<lparr>xo_probe := Some (\<lambda>_. give ProbeLanded)\<rparr>) sample_exec_plan None sample_doubt)
     = ([], Some True, [Succeeded])"
  "sample_outcome (execute_plan sample_host (sample_exec_opts\<lparr>xo_probe := Some (\<lambda>_. give ProbeNotLanded)\<rparr>) sample_exec_plan None sample_doubt)
     = ([], Some True, [FailedAttempt])"
  by code_simp+

text \<open>The postconditions on files, on absence and on tool errors never fail.\<close>

lemma vacuous_postconditions:
  "pc_kind pc \<notin> {''http_status'', ''row_count''} \<Longrightarrow> eval_postcondition pc r"
  by (simp add: eval_postcondition_def)

section \<open>The wait for another attempt ends\<close>

definition stuck :: "'s \<times> (engine_error + 'a) \<Rightarrow> bool" where
  "stuck sr \<longleftrightarrow> snd sr = Inl (HostError ''still waiting'')"

lemma not_stuck [simp]: "\<not> stuck (give x s)" "\<not> stuck (throw (VrError c d) s)" "\<not> stuck (throw (vr v d) s)"
  by (simp_all add: stuck_def give_def throw_def vr_def)

lemma bind_of_ledger: "bind (of_ledger g) f s = f (g (en_ledger s)) s"
  by (simp add: bind_def of_ledger_def reads_def)

lemma bind_sleep:
  "bind (sleep h) f s = f () (s\<lparr>en_draws := Suc (en_draws s), en_ledger := eh_meanwhile h (en_draws s) (en_ledger s)\<rparr>)"
  by (simp add: bind_def sleep_def draw_def on_ledger_def modifies_def)

lemma settled_error: "settled cur = Some (Inl e) \<Longrightarrow> \<exists>c d. e = VrError c d"
  by (auto simp: settled_def attempt_error_def split: option.splits attempt_state.splits)

lemma await_attempt_ends:
  assumes advances: "strict_mono (eh_clock h)"
  shows "nat (deadline - eh_clock h (en_draws s)) < fuel \<Longrightarrow> \<not> stuck (await_attempt fuel h xo deadline key keys holder s)"
proof (induction fuel arbitrary: s)
  case (Suc fuel)
  let ?now = "eh_clock h (en_draws s)" and ?s = "s\<lparr>en_draws := Suc (en_draws s)\<rparr>"
  define cur lease where "cur = mem_attempt_by_key (en_ledger s) key"
    and "lease = (case keys of [] \<Rightarrow> None | k # _ \<Rightarrow> mem_get (ml_leases (en_ledger s)) k)"
  have first: "bind (first_key_lease keys) g ?s = g lease ?s" for g :: "lease option \<Rightarrow> ('a engine, handled) action"
    by (cases keys) (simp_all add: first_key_lease_def lease_def bind_of_ledger)
  obtain t n where n: "en_draws ?s \<le> n"
    and t: "\<forall>f :: int \<Rightarrow> ('a engine, handled) action. bind (now_of h xo) f ?s = f t (?s\<lparr>en_draws := n\<rparr>)"
    using bind_now by blast
  note run = await_attempt.simps(2) bind_clock lookup_attempt_def bind_of_ledger first
  show ?case
  proof (cases "?now < deadline")
    case False
    then show ?thesis
      by (auto simp: run t [rule_format] cur_def [symmetric] split: option.split sum.split handled.split dest!: settled_error)
  next
    case waits: True
    show ?thesis
    proof (cases "settled cur")
      case None
      have "en_draws s < Suc n" using n by simp
      then have "?now < eh_clock h (Suc n)" using advances by (simp add: strict_mono_def)
      with Suc.prems waits have "nat (deadline - eh_clock h (Suc n)) < fuel" by linarith
      with Suc.IH [of "?s\<lparr>en_draws := Suc n, en_ledger := eh_meanwhile h n (en_ledger s)\<rparr>"]
      show ?thesis using None waits by (simp add: run t [rule_format] cur_def [symmetric] bind_sleep)
    next
      case (Some r)
      then show ?thesis using waits
        by (cases r) (auto simp: run lift_def stuck_def cur_def [symmetric] dest!: settled_error)
    qed
  qed
qed simp

text \<open>
  C30: looking at an attempt that exists ends: when the clock advances with every reading, the wait for
  another process's attempt never uses up its fuel, so that the attempt is skipped, run again, resolved
  as in doubt, or refused with an error of the code.
\<close>

theorem existing_attempt_returns:
  assumes "strict_mono (eh_clock h)"
  shows "snd (handle_existing_attempt h xo a keys held s) \<noteq> Inl (HostError ''still waiting'')"
proof -
  have await: "\<not> stuck (await_attempt (Suc (nat (wait_ms xo))) h xo (eh_clock h m + wait_ms xo) key keys holder (s\<lparr>en_draws := Suc m\<rparr>))" for m key holder
  proof (rule await_attempt_ends [OF assms])
    have "eh_clock h m < eh_clock h (Suc m)" using assms by (simp add: strict_mono_def)
    then show "nat (eh_clock h m + wait_ms xo - eh_clock h (en_draws (s\<lparr>en_draws := Suc m\<rparr>))) < Suc (nat (wait_ms xo))" by simp
  qed
  have "\<not> stuck (handle_existing_attempt h xo a keys held s)"
    using await [of "Suc (en_draws s)"]
    by (cases "at_state a") (auto simp: handle_existing_attempt_def bind_clock bind_of_ledger simp del: await_attempt.simps)
  then show ?thesis by (simp add: stuck_def)
qed

lemma existing_attempt_returns_witness:
  "snd (handle_existing_attempt sample_host sample_exec_opts sample_row [] (re_held sample_env) sample_engine) \<noteq> Inl (HostError ''still waiting'')"
  by (rule existing_attempt_returns) (simp add: sample_host_def strict_mono_def)

end
