(* ===== verification/Compensators.thy ===== *)
theory Compensators
  imports Steps Sqlkind
begin

text \<open>
  The built-in compensators of \<^verbatim>\<open>packages/compensators/src\<close>: \<^verbatim>\<open>fs_write.ts\<close>, \<^verbatim>\<open>sql_row.ts\<close>, \<^verbatim>\<open>http_create.ts\<close>,
  \<^verbatim>\<open>message_send.ts\<close> and \<^verbatim>\<open>lowerSteps\<close> of \<^verbatim>\<open>index.ts\<close>.

  The section on inversion states what the lowered SQL steps do to a table, in a small semantics of
  structured statements that stands for the documented behaviour of a database.
\<close>

section \<open>Files\<close>

definition sub_seq :: "string \<Rightarrow> char \<Rightarrow> nat \<Rightarrow> string option" where
  "sub_seq s c i = nth_opt (js_split c s) i"

definition bound :: "receipt \<Rightarrow> string \<Rightarrow> bool" where
  "bound rc name \<longleftrightarrow> map_of (rc_bindings rc) name \<noteq> None"

definition path_ref :: "receipt \<Rightarrow> json" where
  "path_ref rc = (if bound rc ''path'' then ref_obj ''receipt.bindings.path'' else ref_obj ''receipt.args.path'')"

definition arg_ref :: "receipt \<Rightarrow> string \<Rightarrow> json" where
  "arg_ref rc name = (if bound rc name then ref_obj (''receipt.bindings.'' @ name) else ref_obj (''receipt.args.'' @ name))"

definition post :: "string \<Rightarrow> json \<Rightarrow> bool \<Rightarrow> postcondition" where
  "post kind expected required = \<lparr>pc_step_index = 0, pc_kind = kind, pc_expected = expected, pc_required = required\<rparr>"

definition fs_op_of :: "receipt \<Rightarrow> string" where
  "fs_op_of rc =
     (case str_of (map_of (as_record (Some (rc_args rc))) ''op'') of
        Some op \<Rightarrow> op
      | None \<Rightarrow> orelse (sub_seq (ac_name (rc_action rc)) CHR ''.'' 1) [])"

definition plan_for_fs :: "receipt \<Rightarrow> json list \<times> postcondition list" where
  "plan_for_fs rc =
     (if fs_op_of rc = ''rename'' then
        ([JObj [(''kind'', JStr ''fs_rename''), (''from'', arg_ref rc ''to''), (''to'', arg_ref rc ''from'')]],
         [post ''file_hash'' (JBool True) False])
      else if map_option pi_kind (rc_preimage rc) = Some FsAbsent \<or> fs_op_of rc = ''mkdir'' then
        ([JObj [(''kind'', JStr ''fs_restore''), (''path'', path_ref rc), (''source'', ref_obj ''receipt.preimage.absent'')]],
         [post ''file_absent'' (JBool True) True])
      else
        ([JObj [(''kind'', JStr ''fs_restore''), (''path'', path_ref rc), (''source'', ref_obj ''receipt.preimage.blob''),
            (''restore_meta'', JBool True)]],
         [post ''file_hash'' (JBool True) True]))"

section \<open>Rows\<close>

definition pk_of_key :: "string \<Rightarrow> string option" where
  "pk_of_key k =
     (if starts_with k ''sql:'' then
        (let c = hd (js_split CHR ''='' (hd (js_split CHR '','' (js_join '':'' (drop 4 (js_split CHR '':'' k)))))) in if c = [] then None else Some c)
      else None)"

definition pk_col :: "receipt \<Rightarrow> string" where
  "pk_col rc = (case List.find (\<lambda>k. pk_of_key k \<noteq> None) (rc_resource_keys rc) of Some k \<Rightarrow> the (pk_of_key k) | None \<Rightarrow> ''id'')"

definition pk_value_ref :: "receipt \<Rightarrow> string" where
  "pk_value_ref rc =
     (if bound rc ''pk'' then ''receipt.bindings.pk'' else if bound rc ''id'' then ''receipt.bindings.id'' else ''receipt.result.$.id'')"

definition table_ref :: "receipt \<Rightarrow> json" where
  "table_ref rc = (if bound rc ''table'' then ref_obj ''receipt.bindings.table'' else ref_obj ''receipt.args.table'')"

definition dialect_of :: "receipt \<Rightarrow> string" where
  "dialect_of rc =
     (case str_of (map_of (as_record (Some (rc_args rc))) ''dialect'') of
        Some d \<Rightarrow> if d \<in> set [''sqlite'', ''postgres'', ''mysql'', ''unknown''] then d else ''unknown''
      | None \<Rightarrow> ''unknown'')"

definition sql_kind_text :: "sql_kind \<Rightarrow> string" where
  "sql_kind_text k = (case k of SELECT \<Rightarrow> ''SELECT'' | INSERT \<Rightarrow> ''INSERT'' | UPDATE \<Rightarrow> ''UPDATE'' | DELETE \<Rightarrow> ''DELETE''
     | TRUNCATE \<Rightarrow> ''TRUNCATE'' | DROP \<Rightarrow> ''DROP'' | ALTER \<Rightarrow> ''ALTER'' | CREATE \<Rightarrow> ''CREATE'' | GRANT \<Rightarrow> ''GRANT''
     | REINDEX \<Rightarrow> ''REINDEX'' | VACUUM \<Rightarrow> ''VACUUM'' | CALL \<Rightarrow> ''CALL'' | EXEC \<Rightarrow> ''EXEC'' | UNKNOWN \<Rightarrow> ''UNKNOWN'')"

text \<open>The group of \<^verbatim>\<open>/^sql\.([A-Z]+)\./\<close>.\<close>

definition named_statement :: "string \<Rightarrow> string" where
  "named_statement name =
     (if starts_with name ''sql.'' then
        (let rest = drop 4 name; w = takeWhile is_upper_alpha rest
         in if w \<noteq> [] \<and> starts_with (drop (length w) rest) ''.'' then w else [])
      else [])"

definition statement_of :: "receipt \<Rightarrow> string" where
  "statement_of rc =
     (let args = as_record (Some (rc_args rc)); direct = str_of (map_of args ''statement''); sql = str_of (map_of args ''sql'')
      in if nonempty direct then to_upper (the direct)
         else if nonempty sql then sql_kind_text (sq_kind (classify_sql (the sql)))
         else named_statement (ac_name (rc_action rc)))"

definition result_part :: "receipt \<Rightarrow> string \<Rightarrow> (string \<times> json) list" where
  "result_part rc part = as_record (map_of (as_record (rc_result rc)) part)"

definition part_refs :: "receipt \<Rightarrow> string \<Rightarrow> (string \<times> json) list" where
  "part_refs rc part = map (\<lambda>(k, _). (k, ref_obj (''receipt.result.$.'' @ part @ ''.'' @ k))) (result_part rc part)"

definition lowered_sql :: "receipt \<Rightarrow> string \<Rightarrow> (string \<times> json) list \<Rightarrow> json list \<times> postcondition list" where
  "lowered_sql rc stmt parts =
     ([JObj ([(''kind'', JStr ''sql_statement''), (''dialect'', JStr (dialect_of rc)), (''statement'', JStr stmt), (''table'', table_ref rc)]
         @ parts @ [(''expect_rowcount'', JObj [(''min'', JInt 1), (''max'', JInt 1)])])],
      [post ''row_count'' (JInt 1) True])"

definition or_pk :: "receipt \<Rightarrow> (string \<times> json) list \<Rightarrow> (string \<times> json) list" where
  "or_pk rc kvs = (if kvs = [] then [(pk_col rc, ref_obj (pk_value_ref rc))] else kvs)"

text \<open>The assignments \<^verbatim>\<open>where[key] = ...\<close> overwrite the primary key column when it is among the new values.\<close>

definition sql_where :: "receipt \<Rightarrow> (string \<times> json) list" where
  "sql_where rc = foldl (\<lambda>w (k, v). AList.update k v w) [(pk_col rc, ref_obj (pk_value_ref rc))] (part_refs rc ''post'')"

definition plan_for_sql :: "receipt \<Rightarrow> json list \<times> postcondition list" where
  "plan_for_sql rc =
     (if statement_of rc = ''INSERT'' then
        lowered_sql rc ''DELETE'' [(''where'', JObj [(pk_col rc, ref_obj (pk_value_ref rc))])]
      else if statement_of rc = ''UPDATE'' then
        lowered_sql rc ''UPDATE'' [(''set'', JObj (or_pk rc (part_refs rc ''pre''))), (''where'', JObj (sql_where rc))]
      else lowered_sql rc ''INSERT'' [(''values'', JObj (or_pk rc (part_refs rc ''pre'')))])"

definition lower_steps :: "signature \<Rightarrow> receipt \<Rightarrow> json list option" where
  "lower_steps sg rc =
     (if sg_id sg = ''cmp_fs_write@1'' then Some (fst (plan_for_fs rc))
      else if sg_id sg = ''cmp_sql_row@1'' then Some (fst (plan_for_sql rc))
      else None)"

section \<open>The catalog\<close>

definition bind_from :: "string \<Rightarrow> bool \<Rightarrow> binding_extractor" where
  "bind_from from required = \<lparr>bx_from = from, bx_required = required, bx_pattern = None\<rparr>"

definition template_receipt :: "action_kind \<Rightarrow> string \<Rightarrow> json \<Rightarrow> receipt" where
  "template_receipt kind name args = \<lparr>rc_effect_id = [], rc_saga_id = [], rc_seq = 0,
     rc_action = \<lparr>ac_kind = kind, ac_name = name, ac_version = None, ac_target = None, ac_locality = Internal\<rparr>,
     rc_tier = T2, rc_args = args, rc_result = None, rc_bindings = [], rc_resource_keys = [], rc_preimage = None, rc_status = Landed,
     rc_comp_state = Available, rc_compensator_id = None, rc_leak = NoLeak, rc_cascade_risk = NoRisk, rc_compensable_until = None\<rparr>"

definition fs_template :: receipt where
  "fs_template = (template_receipt AFs ''fs.write./x'' (JObj [(''op'', JStr ''write''), (''path'', JStr ''/x'')]))
     \<lparr>rc_preimage := Some \<lparr>pi_kind = FsBytes, pi_blob_id = Some ''blob_synthetic'', pi_bytes = None, pi_rows = None,
        pi_truncated = False, pi_meta = None\<rparr>\<rparr>"

definition sql_template_receipt :: receipt where
  "sql_template_receipt = (template_receipt ASql ''sql.INSERT.app.t''
       (JObj [(''statement'', JStr ''INSERT''), (''table'', JStr ''t''), (''dialect'', JStr ''sqlite'')]))
     \<lparr>rc_bindings := [(''pk'', JInt 1), (''table'', JStr ''t'')], rc_result := Some (JObj [(''id'', JInt 1)]),
      rc_resource_keys := [''sql:sqlite:app:t:id=1'']\<rparr>"

definition builtin_signature :: "string \<Rightarrow> matcher \<Rightarrow> tier \<Rightarrow> json list \<times> postcondition list \<Rightarrow> signature" where
  "builtin_signature i m t sp = \<lparr>sg_id = i, sg_match = m, sg_applies_when = None, sg_tier = t,
     sg_compensator = Declarative (fst sp) (Some (snd sp)), sg_constants = None, sg_permits = None, sg_leak = NoLeak,
     sg_cascade_risk = LowRisk, sg_completeness = Full, sg_source = Builtin, sg_delete_undoes_create = None,
     sg_registered_at = None, sg_disabled = False, sg_binds = [], sg_preimage = None,
     sg_credentials = None, sg_volatile = None, sg_window = None, sg_independent = False, sg_preimage_required = False, sg_signature = None\<rparr>"

definition fs_write :: signature where
  "fs_write = (builtin_signature ''cmp_fs_write@1'' (MFs (Many [''write'', ''truncate'', ''unlink'', ''mkdir'', ''rename'', ''chmod'']) ''**'') T2
       (plan_for_fs fs_template))
     \<lparr>sg_binds := [(''from'', bind_from ''args.from'' False), (''to'', bind_from ''args.to'' False)], sg_preimage := Some FsBytes, sg_preimage_required := True,
      sg_cascade_risk := LowRisk, sg_independent := True\<rparr>"

definition sql_row :: signature where
  "sql_row = (builtin_signature ''cmp_sql_row@1'' (MSql (Many [''INSERT'', ''UPDATE'', ''DELETE'']) ''*'' None) T2 (plan_for_sql sql_template_receipt))
     \<lparr>sg_binds := [(''table'', bind_from ''args.table'' False), (''pk'', bind_from ''result.$.id'' False), (''id'', bind_from ''result.$.id'' False)],
      sg_preimage := Some SqlRows, sg_leak := DownstreamEffects, sg_cascade_risk := HighRisk\<rparr>"

definition http_create :: signature where
  "http_create = (builtin_signature ''cmp_http_create@1'' (MHttp (Many [''POST'', ''PUT'']) ''*'') T3
       ([JObj [(''kind'', JStr ''http_request''), (''method'', JStr ''DELETE''), (''url'', ref_obj ''receipt.bindings.resource_url''),
           (''expect'', JObj [(''status_in'', JArr (map JInt [200, 202, 204, 404])), (''treat_404_as_compensated'', JBool True)])]],
        [post ''http_probe_absent'' (JBool True) True]))
     \<lparr>sg_applies_when := Some [ResultStatusIn [200, 201, 202], DeleteUndoesCreate True],
      sg_binds := [(''resource_url'', bind_from ''header.Location'' False), (''id'', bind_from ''result.$.id'' False)],
      sg_delete_undoes_create := Some True\<rparr>"

definition message_retract :: "string \<Rightarrow> string \<Rightarrow> string \<Rightarrow> string list \<Rightarrow> string option \<Rightarrow> signature" where
  "message_retract i tool delete_tool names window =
     (builtin_signature i (MMcpTool tool None) T3
        ([JObj [(''kind'', JStr ''mcp_tool_call''), (''tool'', ref_obj ''const.delete_tool''),
            (''args'', JObj (map (\<lambda>n. (n, ref_obj (''receipt.bindings.'' @ n))) names)), (''expect'', JObj [(''no_error'', JBool True)])]],
         [post ''tool_no_error'' (JBool True) True]))
     \<lparr>sg_binds := map (\<lambda>n. (n, bind_from (''result.$.'' @ n) True)) names, sg_constants := Some [(''delete_tool'', JStr delete_tool)],
      sg_permits := Some [delete_tool], sg_leak := Observers, sg_completeness := Partial, sg_window := window\<rparr>"

definition slack_post_message :: signature where
  "slack_post_message = message_retract ''cmp_message_send.slack@1'' ''chat.postMessage'' ''chat.delete'' [''channel'', ''ts''] None"

definition discord_create_message :: signature where
  "discord_create_message =
     (let sg = message_retract ''cmp_message_send.discord@1'' ''discord.createMessage'' ''channels.deleteMessage'' [''channel_id'', ''id''] None
      in sg\<lparr>sg_binds := sg_binds sg @ [(''resource_url'', bind_from ''result.$.url'' False)]\<rparr>)"

definition telegram_send_message :: signature where
  "telegram_send_message =
     message_retract ''cmp_message_send.telegram@1'' ''telegram.sendMessage'' ''deleteMessage'' [''chat_id'', ''message_id''] (Some ''P2D'')"

definition email_manual :: "string \<Rightarrow> matcher \<Rightarrow> signature" where
  "email_manual i m =
     (builtin_signature i m T4
        ([JObj [(''kind'', JStr ''manual''), (''instructions'', JStr ''Contact the recipient. Sent email cannot be unsent.''),
            (''suggested_actions'', JArr [JStr ''contact_recipient''])]], []))
     \<lparr>sg_compensator := Declarative
        [JObj [(''kind'', JStr ''manual''), (''instructions'', JStr ''Contact the recipient. Sent email cannot be unsent.''),
            (''suggested_actions'', JArr [JStr ''contact_recipient''])]] None,
      sg_leak := Observers, sg_completeness := Partial\<rparr>"

definition email_manuals :: "signature list" where
  "email_manuals =
     [email_manual ''cmp_message_send.smtp@1'' (MMcpTool ''smtp.send'' None),
      email_manual ''cmp_message_send.resend@1'' (MSdkFn ''resend.emails'' ''send''),
      email_manual ''cmp_message_send.ses@1'' (MSdkFn ''ses'' ''sendEmail''),
      email_manual ''cmp_message_send.postmark@1'' (MMcpTool ''postmark.sendEmail'' None)]"

definition builtins :: "signature list" where
  "builtins = [fs_write, sql_row, http_create, slack_post_message, discord_create_message, telegram_send_message] @ email_manuals"

section \<open>The lowered SQL steps invert the statement\<close>

text \<open>
  A row maps columns to values, a table is a multiset of rows.  A resolved step acts on the table; the number
  is the number of rows it affected.
\<close>

type_synonym row = "string \<rightharpoonup> json"

definition row_matches :: "(string \<times> json) list \<Rightarrow> row \<Rightarrow> bool" where
  "row_matches where_part r \<longleftrightarrow> (\<forall>(k, v) \<in> set where_part. r k = Some v)"

definition run_statement :: "json \<Rightarrow> row multiset \<Rightarrow> row multiset \<times> nat" where
  "run_statement step t =
     (let rec = as_record (Some step); hits = row_matches (as_record (map_of rec ''where''))
      in if str_of (map_of rec ''statement'') = Some ''DELETE'' then (filter_mset (\<lambda>r. \<not> hits r) t, size (filter_mset hits t))
         else if str_of (map_of rec ''statement'') = Some ''UPDATE'' then
           (image_mset (\<lambda>r. if hits r then r ++ map_of (as_record (map_of rec ''set'')) else r) t, size (filter_mset hits t))
         else (add_mset (map_of (as_record (map_of rec ''values''))) t, 1))"

text \<open>What the receipt records of one changed row: the primary key, and the old and new values of the changed columns.\<close>

definition records_change :: "receipt \<Rightarrow> json \<Rightarrow> row option \<Rightarrow> row option \<Rightarrow> bool" where
  "records_change rc v old new \<longleftrightarrow>
     (case (statement_of rc = ''INSERT'', statement_of rc = ''UPDATE'', old, new) of
        (True, _, None, Some r) \<Rightarrow> r (pk_col rc) = Some v
      | (False, True, Some r, Some r') \<Rightarrow>
          r (pk_col rc) = Some v \<and> r' (pk_col rc) = Some v \<and> r' = r ++ map_of (result_part rc ''post'')
          \<and> result_part rc ''pre'' \<noteq> [] \<and> map_of (result_part rc ''pre'') = r |` (fst ` set (result_part rc ''pre''))
          \<and> fst ` set (result_part rc ''post'') \<subseteq> fst ` set (result_part rc ''pre'')
      | (False, False, Some r, None) \<Rightarrow> result_part rc ''pre'' \<noteq> [] \<and> map_of (result_part rc ''pre'') = r
      | _ \<Rightarrow> False)"

definition option_mset :: "'a option \<Rightarrow> 'a multiset" where
  "option_mset x = (case x of None \<Rightarrow> {#} | Some a \<Rightarrow> {#a#})"

lemma resolve_member [simp]:
  "resolve_runtime ctx (JStr s) = Inr (JStr s)" "resolve_runtime ctx (JInt i) = Inr (JInt i)"
  by simp_all

definition resolves :: "step_ctx \<Rightarrow> (string \<times> json) list \<Rightarrow> (string \<times> json) list \<Rightarrow> bool" where
  "resolves ctx kvs lws \<longleftrightarrow> all_ok (map (\<lambda>(k, v). map_sum id (Pair k) (resolve_runtime ctx v)) kvs) = Inr lws"

lemma map_eq_list_all2: "map f xs = map g ys \<longleftrightarrow> list_all2 (\<lambda>x y. f x = g y) xs ys"
proof (induction xs arbitrary: ys)
  case (Cons x xs)
  then show ?case by (cases ys) auto
qed auto

lemma as_record_nonempty: "as_record x \<noteq> [] \<Longrightarrow> x = Some (JObj (as_record x))"
  by (auto simp: as_record_def split: option.splits json.splits)

lemma resolves_list:
  "resolves ctx kvs lws \<longleftrightarrow> list_all2 (\<lambda>x y. fst y = fst x \<and> resolve_runtime ctx (snd x) = Inr (snd y)) kvs lws"
proof -
  have "(case x of (k, v) \<Rightarrow> map_sum id (Pair k) (resolve_runtime ctx v)) = Inr y \<longleftrightarrow> fst y = fst x \<and> resolve_runtime ctx (snd x) = Inr (snd y)" for x y :: "string \<times> json"
    by (cases x; cases y; cases "resolve_runtime ctx (snd x)") auto
  then show ?thesis by (simp only: resolves_def all_ok_Inr map_eq_list_all2)
qed

lemma resolves_simps [simp]:
  "resolves ctx [] lws \<longleftrightarrow> lws = []"
  "resolves ctx ((k, v) # kvs) lws \<longleftrightarrow> (\<exists>v' lws'. lws = (k, v') # lws' \<and> resolve_runtime ctx v = Inr v' \<and> resolves ctx kvs lws')"
  by (auto simp: resolves_list list_all2_Cons1)

lemma resolves_append: "resolves ctx kvs lws \<Longrightarrow> resolves ctx kvs' lws' \<Longrightarrow> resolves ctx (kvs @ kvs') (lws @ lws')"
  by (simp add: resolves_list list_all2_appendI)

lemma resolves_obj: "ref_of (JObj kvs) = None \<Longrightarrow> resolves ctx kvs lws \<Longrightarrow> resolve_runtime ctx (JObj kvs) = Inr (JObj lws)"
  by (simp add: resolves_def)

lemma resolves_update:
  "resolves ctx kvs lws \<Longrightarrow> resolve_runtime ctx v = Inr v' \<Longrightarrow> resolves ctx (AList.update k v kvs) (AList.update k v' lws)"
  by (induction kvs arbitrary: lws) auto

lemma resolves_updates:
  "resolves ctx al bl \<Longrightarrow> resolves ctx kvs lws \<Longrightarrow>
     resolves ctx (foldl (\<lambda>w (k, v). AList.update k v w) al kvs) (foldl (\<lambda>w (k, v). AList.update k v w) bl lws)"
  by (induction kvs arbitrary: al bl lws) (auto simp: resolves_update)

lemma map_of_updates:
  "distinct (map fst kvs) \<Longrightarrow> map_of (foldl (\<lambda>w (k, v). AList.update k v w) al kvs) = map_of al ++ map_of kvs"
proof (induction kvs arbitrary: al)
  case (Cons kv kvs)
  then have "map_of kvs (fst kv) = None" by (simp add: map_of_eq_None_iff)
  with Cons show ?case by (cases kv) (auto simp: update_conv' map_add_def fun_eq_iff split: option.splits)
qed simp

lemma distinct_updates:
  "distinct (map fst al) \<Longrightarrow> distinct (map fst (foldl (\<lambda>w (k, v). AList.update k v w) al kvs))"
  by (induction kvs arbitrary: al) (auto simp: distinct_update)

lemma row_matches_map: "distinct (map fst w) \<Longrightarrow> row_matches w r \<longleftrightarrow> map_of w \<subseteq>\<^sub>m r"
  by (fastforce simp: row_matches_def map_le_def dom_map_of_conv_image_fst)

lemma ref_of_obj: "ref_of (JObj kvs) = None" if "\<And>k v. (k, v) \<in> set kvs \<Longrightarrow> \<exists>s. v = ref_obj s"
  using that by (auto simp: ref_of_def ref_obj_def split: list.split json.split)

lemma update_values: "(k, v) \<in> set (AList.update k' x al) \<Longrightarrow> (k, v) \<in> set al \<or> v = x"
  by (induction al) (auto split: if_splits)

lemma updates_refs:
  "(\<And>k v. (k, v) \<in> set al \<Longrightarrow> \<exists>s. v = ref_obj s) \<Longrightarrow> (\<And>k v. (k, v) \<in> set kvs \<Longrightarrow> \<exists>s. v = ref_obj s) \<Longrightarrow>
    (k, v) \<in> set (foldl (\<lambda>w (k, v). AList.update k v w) al kvs) \<Longrightarrow> \<exists>s. v = ref_obj s"
proof (induction kvs arbitrary: al)
  case (Cons kv kvs)
  obtain k' x where kv: "kv = (k', x)" by (cases kv)
  show ?case
    by (rule Cons.IH [of "AList.update k' x al"]) (use Cons.prems kv update_values in \<open>fastforce+\<close>)
qed auto

lemma sql_where_refs: "(k, v) \<in> set (sql_where rc) \<Longrightarrow> \<exists>s. v = ref_obj s"
  unfolding sql_where_def by (erule updates_refs [rotated 2]) (auto simp: part_refs_def)

lemma resolve_part:
  assumes "sx_receipt ctx = rc" "(k, v) \<in> set (result_part rc part)" "distinct (map fst (result_part rc part))"
    "simple_key k" "simple_key part"
  shows "resolve_runtime ctx (ref_obj (''receipt.result.$.'' @ part @ ''.'' @ k)) = Inr v"
proof -
  let ?src = "''receipt.result.$.'' @ part @ ''.'' @ k"
  have "result_part rc part \<noteq> []" using assms(2) by auto
  then have part: "map_of (as_record (rc_result rc)) part = Some (JObj (result_part rc part))"
    unfolding result_part_def by (rule as_record_nonempty)
  then have "as_record (rc_result rc) \<noteq> []" by auto
  from as_record_nonempty [OF this] part obtain kvs where r: "rc_result rc = Some (JObj kvs)" "map_of kvs part = Some (JObj (result_part rc part))"
    by metis
  have "eval_json_path (Some (JObj kvs)) (''$.'' @ js_join ''.'' [part, k]) = Inr (walk_keys (Some (JObj kvs)) [part, k])"
    by (rule eval_json_path_dotted) (simp_all add: assms)
  moreover have "walk_keys (Some (JObj kvs)) [part, k] = Some v" using r assms by simp
  ultimately have "resolve_path ?src (rc_result rc) (drop 15 ?src) = Inr v" by (simp add: resolve_path_def r)
  then have "resolve_ref ?src rc sg origin = Inr v" for sg origin
    by (simp add: resolve_ref_def is_ref_source_def starts_with_def)
  then show ?thesis using assms(1) by (simp add: ref_obj_def ref_of_def starts_with_def Let_def)
qed

lemma resolve_parts:
  assumes "sx_receipt ctx = rc" "distinct (map fst (result_part rc part))" "simple_key part"
    "\<forall>k \<in> fst ` set (result_part rc part). simple_key k"
  shows "resolves ctx (part_refs rc part) (result_part rc part)"
proof -
  have "list_all2 (\<lambda>x y. fst y = fst x \<and> resolve_runtime ctx (snd x) = Inr (snd y))
      (map (\<lambda>(k, _). (k, ref_obj (''receipt.result.$.'' @ part @ ''.'' @ k))) xs) xs"
    if "set xs \<subseteq> set (result_part rc part)" for xs
    using that
  proof (induction xs)
    case (Cons x xs)
    obtain k v where x: "x = (k, v)" by (cases x)
    with Cons.prems assms(4) have "(k, v) \<in> set (result_part rc part)" "simple_key k" by force+
    from resolve_part [OF assms(1) this(1) assms(2) this(2) assms(3)] Cons x show ?case by simp
  qed simp
  then show ?thesis by (simp add: resolves_list part_refs_def)
qed

lemma lowered_resolves:
  assumes "resolve_runtime ctx (table_ref rc) = Inr tbl" "resolves ctx parts lws"
  shows "resolve_runtime ctx (hd (fst (lowered_sql rc stmt parts))) = Inr (JObj
    ([(''kind'', JStr ''sql_statement''), (''dialect'', JStr (dialect_of rc)), (''statement'', JStr stmt), (''table'', tbl)]
     @ lws @ [(''expect_rowcount'', JObj [(''min'', JInt 1), (''max'', JInt 1)])]))"
proof -
  have "resolve_runtime ctx (JObj [(''min'', JInt 1), (''max'', JInt 1)]) = Inr (JObj [(''min'', JInt 1), (''max'', JInt 1)])"
    by (rule resolves_obj) (simp_all add: ref_of_def)
  then have "resolves ctx ([(''kind'', JStr ''sql_statement''), (''dialect'', JStr (dialect_of rc)), (''statement'', JStr stmt), (''table'', table_ref rc)]
       @ parts @ [(''expect_rowcount'', JObj [(''min'', JInt 1), (''max'', JInt 1)])])
     ([(''kind'', JStr ''sql_statement''), (''dialect'', JStr (dialect_of rc)), (''statement'', JStr stmt), (''table'', tbl)]
       @ lws @ [(''expect_rowcount'', JObj [(''min'', JInt 1), (''max'', JInt 1)])])"
    using assms by (intro resolves_append) (simp_all del: resolve_runtime.simps add: resolve_member)
  then show ?thesis by (simp add: lowered_sql_def resolves_obj ref_of_def del: resolve_runtime.simps)
qed

lemma multiset_unhit:
  assumes "\<forall>r \<in># others. \<not> P r"
  shows "filter_mset P others = {#}" "filter_mset (\<lambda>r. \<not> P r) others = others"
    "image_mset (\<lambda>r. if P r then f r else r) others = others"
proof -
  show "filter_mset P others = {#}" using assms by (auto simp: filter_mset_eq_conv)
  show "filter_mset (\<lambda>r. \<not> P r) others = others" using assms by (auto simp: filter_mset_eq_conv)
  have "image_mset (\<lambda>r. if P r then f r else r) others = image_mset id others"
    using assms(1) by (intro image_mset_cong) auto
  then show "image_mset (\<lambda>r. if P r then f r else r) others = others" by simp
qed

lemma run_statement_hit:
  assumes "\<forall>q \<in># others. \<not> row_matches w q" "row_matches w r"
  shows "run_statement (JObj [(''kind'', k), (''dialect'', d), (''statement'', JStr ''UPDATE''), (''table'', tbl), (''set'', JObj s),
      (''where'', JObj w), e]) (add_mset r others) = (add_mset (r ++ map_of s) others, 1)"
    "run_statement (JObj [(''kind'', k), (''dialect'', d), (''statement'', JStr ''DELETE''), (''table'', tbl),
      (''where'', JObj w), e]) (add_mset r others) = (others, 1)"
  using assms(2) by (simp_all add: run_statement_def as_record_def str_of_def multiset_unhit [OF assms(1)])


definition sample_sql_receipt :: receipt where
  "sample_sql_receipt = (template_receipt ASql ''sql.UPDATE.app.t''
       (JObj [(''statement'', JStr ''update''), (''table'', JStr ''t''), (''dialect'', JStr ''sqlite'')]))
     \<lparr>rc_bindings := [(''pk'', JInt 1), (''table'', JStr ''t'')], rc_resource_keys := [''sql:sqlite:app:t:id=1''],
      rc_result := Some (JObj [(''id'', JInt 1), (''pre'', JObj [(''qty'', JInt 5)]), (''post'', JObj [(''qty'', JInt 7)])])\<rparr>"


text \<open>
  The catalog marks \<^verbatim>\<open>cmp_sql_row@1\<close> with high cascade risk, so a plan that \<^verbatim>\<open>lower_steps\<close> made for a row is
  never executed: \<^verbatim>\<open>undo.ts\<close> and \<^verbatim>\<open>executePlan\<close> both escalate it with \<^verbatim>\<open>VR1010\<close>.
\<close>

lemma sql_row_always_escalates: "sg_cascade_risk sql_row = HighRisk"
  by (simp add: sql_row_def)

lemma builtins_distinct: "distinct (map sg_id builtins)"
  by code_simp

text \<open>A column whose name has a dot is looked up as a path, so the lowered reference does not find its recorded value.\<close>

lemma dotted_column_unresolved:
  "resolve_runtime (sample_ctx\<lparr>sx_receipt := sample_sql_receipt\<lparr>rc_result := Some (JObj [(''id'', JInt 1),
       (''pre'', JObj [(''a.b'', JInt 5)])])\<rparr>\<rparr>)
     (ref_obj ''receipt.result.$.pre.a.b'') = Inl (unresolvable ''receipt.result.$.pre.a.b'')"
  by code_simp

end
