(* ===== verification/Undo.thy ===== *)
theory Undo
  imports Execute Drafter Compensators
begin

text \<open>
  The undo of a saga: \<^verbatim>\<open>undoSaga\<close> of \<^verbatim>\<open>sdk-ts/src/engine/undo.ts\<close> with its table of transitions, and the summary
  functions of \<^verbatim>\<open>core/src/report.ts\<close>.

  The memory ledger gives out its own rows, so that a row the loop looks at changes with every event that
  is appended, until the loop stores it for the first time: \<^verbatim>\<open>upsertEffect\<close> stores a copy, and from then on
  the loop has a row of its own.  The SQL ledgers give out copies.  Both are modelled; \<open>uo_live_rows\<close> tells
  which one the ledger does.
\<close>

section \<open>States of a compensation\<close>

definition terminal_skip :: "string list" where
  "terminal_skip = [''compensated'', ''none_required'', ''superseded'', ''manually_resolved'']"

definition undo_status :: "string list" where
  "undo_status = [''landed'', ''in_doubt'']"

definition allowed_transitions :: "(string \<times> string list) list" where
  "allowed_transitions =
     [(''available'', [''planned'', ''escalated'', ''none_required'', ''unavailable'']),
      (''planned'', [''verified'', ''executing'', ''escalated'']),
      (''verified'', [''executing'', ''escalated'']),
      (''executing'', [''compensated'', ''failed'', ''in_doubt'', ''escalated'']),
      (''failed'', [''escalated'']),
      (''in_doubt'', [''compensated'', ''failed'', ''escalated'', ''none_required'']),
      (''escalated'', [''manually_resolved'']),
      (''unavailable'', [''escalated'']),
      (''none_required'', []), (''compensated'', []), (''superseded'', []), (''manually_resolved'', [])]"

definition allowed :: "string \<Rightarrow> string \<Rightarrow> bool" where
  "allowed from to \<longleftrightarrow> (case map_of allowed_transitions from of Some tos \<Rightarrow> to \<in> set tos | None \<Rightarrow> False)"

definition transition :: "string \<Rightarrow> string \<Rightarrow> engine_error + string" where
  "transition from to =
     (if from = to then Inr to
      else if allowed from to then Inr to
      else Inl (VrError ''VR5012'' (from @ '' -> '' @ to)))"

section \<open>The report\<close>

datatype outcome = OCompensated | OFailed | OEscalated | OSkipped | OManualRequired | ONotAttempted

definition outcome_str :: "outcome \<Rightarrow> string" where
  "outcome_str x = (case x of OCompensated \<Rightarrow> ''compensated'' | OFailed \<Rightarrow> ''failed'' | OEscalated \<Rightarrow> ''escalated''
     | OSkipped \<Rightarrow> ''skipped'' | OManualRequired \<Rightarrow> ''manual_required'' | ONotAttempted \<Rightarrow> ''not_attempted'')"

record report_row =
  rr_seq :: int
  rr_effect_id :: string
  rr_action :: string
  rr_tier :: string
  rr_outcome :: outcome
  rr_completeness :: "completeness option"
  rr_leak :: string
  rr_error :: "string option"
  rr_escalation :: "string option"

record undo_report =
  ur_saga_id :: string
  ur_requested_at :: string
  ur_attempted :: nat
  ur_compensated :: nat
  ur_skipped :: nat
  ur_failed :: nat
  ur_escalated :: nat
  ur_halted_at :: "int option"
  ur_effects :: "report_row list"
  ur_world_restored :: bool

definition row_outcome :: "effect \<Rightarrow> outcome \<Rightarrow> report_row" where
  "row_outcome e x =
     \<lparr>rr_seq = ef_seq e, rr_effect_id = ef_effect_id e, rr_action = ef_action_name e, rr_tier = ef_tier e, rr_outcome = x,
      rr_completeness = None, rr_leak = ef_leak e, rr_error = None, rr_escalation = None\<rparr>"

definition world_restored :: "report_row list \<Rightarrow> bool" where
  "world_restored rows \<longleftrightarrow> rows \<noteq> [] \<and> list_all (\<lambda>r. rr_outcome r = OCompensated \<and> rr_completeness r = Some Full) rows"

definition was_attempted :: "report_row \<Rightarrow> bool" where
  "was_attempted r \<longleftrightarrow> rr_outcome r \<noteq> ONotAttempted"

definition world_restored_from_report :: "undo_report \<Rightarrow> bool" where
  "world_restored_from_report rep =
     (let tried = filter (\<lambda>r. rr_outcome r \<noteq> ONotAttempted \<and> rr_outcome r \<noteq> OSkipped) (ur_effects rep)
      in if tried = [] then False
         else if \<not> list_all (\<lambda>r. rr_outcome r = OCompensated \<and> rr_completeness r = Some Full) tried then False
         else if list_ex (\<lambda>r. rr_outcome r \<in> {OFailed, OEscalated, OManualRequired}) (ur_effects rep) then False
         else world_restored (filter (\<lambda>r. rr_outcome r = OCompensated) (ur_effects rep)))"

definition what_undo_does_not_fix :: "leak \<Rightarrow> risk \<Rightarrow> completeness \<Rightarrow> string list" where
  "what_undo_does_not_fix l c rv =
     (let out =
        (if l = Observers then [''observers retain knowledge of the original action''] else [])
        @ (if l = DownstreamEffects then [''downstream effects are not rewound''] else [])
        @ (if c = HighRisk then [''undeclared cascades were not repaired''] else [])
        @ (if c = LowRisk then [''watchers or side channels may already have reacted''] else [])
        @ (if rv = Partial then [''reversal is partial, not a full restore of prior state''] else [])
        @ (if rv = BestEffort then [''the remote system only promised to try''] else [])
      in if out = [] then [''reversal restores state, not knowledge; this is not erasure''] else out)"

definition opt_text :: "string \<Rightarrow> string option \<Rightarrow> (string \<times> json) list" where
  "opt_text k v = (case v of Some s \<Rightarrow> [(k, JStr s)] | None \<Rightarrow> [])"

definition row_json :: "report_row \<Rightarrow> json" where
  "row_json r = JObj ([(''seq'', JInt (rr_seq r)), (''effect_id'', JStr (rr_effect_id r)), (''action'', JStr (rr_action r)),
      (''tier'', JStr (rr_tier r)), (''outcome'', JStr (outcome_str (rr_outcome r)))]
    @ opt_text ''reversal_completeness'' (map_option completeness_str (rr_completeness r))
    @ [(''leak'', JStr (rr_leak r))] @ opt_text ''error_code'' (rr_error r) @ opt_text ''escalation_id'' (rr_escalation r))"

definition report_json :: "undo_report \<Rightarrow> string \<Rightarrow> json" where
  "report_json rep status = JObj ([(''saga_id'', JStr (ur_saga_id rep)), (''requested_at'', JStr (ur_requested_at rep)),
      (''attempted'', JInt (int (ur_attempted rep))), (''compensated'', JInt (int (ur_compensated rep))),
      (''skipped'', JInt (int (ur_skipped rep))), (''failed'', JInt (int (ur_failed rep))), (''escalated'', JInt (int (ur_escalated rep)))]
    @ (case ur_halted_at rep of Some n \<Rightarrow> [(''halted_at_seq'', JInt n)] | None \<Rightarrow> [])
    @ [(''effects'', JArr (map row_json (ur_effects rep))), (''world_restored'', JBool (ur_world_restored rep)), (''status'', JStr status)])"

definition count_outcome :: "outcome set \<Rightarrow> report_row list \<Rightarrow> nat" where
  "count_outcome xs rows = length (filter (\<lambda>r. rr_outcome r \<in> xs) rows)"

definition make_report :: "string \<Rightarrow> string \<Rightarrow> int option \<Rightarrow> report_row list \<Rightarrow> undo_report" where
  "make_report saga_id requested halted rows =
     \<lparr>ur_saga_id = saga_id, ur_requested_at = requested, ur_attempted = length (filter was_attempted rows),
      ur_compensated = count_outcome {OCompensated} rows, ur_skipped = count_outcome {OSkipped} rows,
      ur_failed = count_outcome {OFailed} rows, ur_escalated = count_outcome {OEscalated, OManualRequired} rows,
      ur_halted_at = halted, ur_effects = rows, ur_world_restored = world_restored rows\<rparr>"

definition final_status :: "undo_report \<Rightarrow> string" where
  "final_status rep =
     (if ur_world_restored rep \<or> (ur_failed rep = 0 \<and> ur_escalated rep = 0
          \<and> list_all (\<lambda>r. rr_outcome r = OCompensated \<or> rr_outcome r = OSkipped) (ur_effects rep)) then ''undone''
      else if ur_compensated rep > 0 \<or> ur_failed rep > 0 \<or> ur_escalated rep > 0 then ''partially_undone''
      else ''failed'')"

section \<open>Options\<close>

record 'w undo_opts =
  uo_ops :: "'w world_ops"
  uo_to_seq :: "int option"
  uo_dry_run :: bool
  uo_continue_on_failure :: "bool option"
  uo_halt_on_failure :: "bool option"
  uo_allow_drafted :: "bool option"
  uo_credentials :: "(string \<Rightarrow> string option) option"
  uo_ttl :: "int option"
  uo_wait :: "int option"
  uo_process_id :: string
  uo_now :: "int option"
  uo_match :: "receipt \<Rightarrow> signature option"
  uo_probe :: "(receipt \<Rightarrow> ('w, probe_result) action) option"
  uo_probe_attempts :: "nat option"
  uo_idle :: "'w \<Rightarrow> 'w"
  uo_coordinator :: "(conflict_input \<Rightarrow> ('w, int \<times> json) action) option"
  uo_drafted_env :: "string option"
  uo_drafted_allow :: "string list option"
  uo_draft :: draft_opts
  uo_verify :: verify_opts
  uo_live_rows :: bool

text \<open>The options \<^verbatim>\<open>undoSaga\<close> hands on to \<^verbatim>\<open>executePlan\<close>.\<close>

definition exec_opts_of :: "'w undo_opts \<Rightarrow> 'w exec_opts" where
  "exec_opts_of u = \<lparr>xo_ops = uo_ops u, xo_dry_run = False, xo_allow_drafted = uo_allow_drafted u, xo_credentials = uo_credentials u,
     xo_permits = None, xo_ttl = uo_ttl u, xo_wait = uo_wait u, xo_holder = None, xo_process_id = uo_process_id u, xo_now = uo_now u,
     xo_signature = None, xo_match = uo_match u, xo_probe = uo_probe u, xo_probe_attempts = uo_probe_attempts u, xo_idle = uo_idle u,
     xo_held = None, xo_skip_acquire = False, xo_mode = None, xo_coordinator = uo_coordinator u\<rparr>"

definition halt_on_failure :: "'w undo_opts \<Rightarrow> bool" where
  "halt_on_failure u \<longleftrightarrow> uo_halt_on_failure u \<noteq> Some False \<and> uo_continue_on_failure u \<noteq> Some True"

section \<open>Rows\<close>

datatype row_ref = LiveRow effect | OwnRow effect

definition listed :: "row_ref \<Rightarrow> effect" where
  "listed r = (case r of LiveRow e \<Rightarrow> e | OwnRow e \<Rightarrow> e)"

text \<open>Events never change the identifier and the number of an effect.\<close>

definition row_now :: "row_ref \<Rightarrow> mem_ledger \<Rightarrow> effect" where
  "row_now r l =
     (case r of
        OwnRow e \<Rightarrow> e
      | LiveRow e \<Rightarrow> (orelse (mem_get_effect l (ef_effect_id e)) e)\<lparr>ef_effect_id := ef_effect_id e, ef_seq := ef_seq e\<rparr>)"

definition list_row :: "'w undo_opts \<Rightarrow> effect \<Rightarrow> row_ref" where
  "list_row u e = (if uo_live_rows u then LiveRow e else OwnRow e)"

definition the_row :: "row_ref \<Rightarrow> ('w engine, effect) action" where
  "the_row r = of_ledger (row_now r)"

text \<open>An assignment to the row, and \<^verbatim>\<open>ledger.upsertEffect(row)\<close>.\<close>

definition store_row :: "(effect \<Rightarrow> effect) \<Rightarrow> row_ref \<Rightarrow> ('w engine, row_ref) action" where
  "store_row f r =
     bind (the_row r) (\<lambda>e. bind (on_ledger (mem_upsert_effect (f e))) (\<lambda>_. give (OwnRow (f e))))"

definition persist_state :: "row_ref \<Rightarrow> string \<Rightarrow> ('w engine, row_ref) action" where
  "persist_state r st = store_row (\<lambda>e. e\<lparr>ef_comp_state := st\<rparr>) r"

definition persist_transition :: "row_ref \<Rightarrow> string \<Rightarrow> ('w engine, row_ref) action" where
  "persist_transition r to =
     bind (the_row r) (\<lambda>e. bind (lift (transition (ef_comp_state e) to)) (\<lambda>st. persist_state r st))"

definition row_event :: "engine_host \<Rightarrow> string \<Rightarrow> string \<Rightarrow> json \<Rightarrow> row_ref \<Rightarrow> ('w engine, unit) action" where
  "row_event h saga_id type payload r =
     bind (append_chained h saga_id type payload (Some (ef_effect_id (listed r))) None) (\<lambda>_. give ())"

definition raise_row :: "engine_host \<Rightarrow> string \<Rightarrow> string \<Rightarrow> string option \<Rightarrow> row_ref \<Rightarrow> ('w engine, string) action" where
  "raise_row h saga_id reason binds_to r = raise_escalation h saga_id (Some (ef_effect_id (listed r))) reason binds_to"

definition persist_from :: "row_ref \<Rightarrow> string \<Rightarrow> string \<Rightarrow> ('w engine, row_ref) action" where
  "persist_from r from to = bind (lift (transition from to)) (persist_state r)"

section \<open>Effects in doubt\<close>

definition probe_row :: "engine_host \<Rightarrow> 'w undo_opts \<Rightarrow> receipt \<Rightarrow> ('w engine, probe_result) action" where
  "probe_row h u rc =
     in_world (probe_loop (probe_once (eh_pf h) (uo_ops u) (uo_probe u) rc) (uo_idle u) (orelse (uo_probe_attempts u) 3))"

text \<open>The probe that stays unknown blocks the undo.\<close>

definition resolve_in_doubt ::
  "engine_host \<Rightarrow> 'w undo_opts \<Rightarrow> row_ref \<Rightarrow> receipt \<Rightarrow> ('w engine, row_ref \<times> probe_result) action" where
  "resolve_in_doubt h u r rc =
     (let saga_id = ef_saga_id (listed r)
      in bind (probe_row h u rc) (\<lambda>probed.
         bind (row_event h saga_id ''effect_probed'' (JObj [(''probe_result'', JStr (probe_str probed)), (''attempts'', JInt 3)]) r) (\<lambda>_.
           case probed of
             ProbeLanded \<Rightarrow> bind (store_row (\<lambda>e. e\<lparr>ef_status := ''landed''\<rparr>) r) (\<lambda>r'. give (r', probed))
           | ProbeNotLanded \<Rightarrow>
               bind (store_row (\<lambda>e. e\<lparr>ef_status := ''abandoned'', ef_comp_state := ''none_required''\<rparr>) r) (\<lambda>r'.
               bind (row_event h saga_id ''compensation_skipped'' (JObj [(''reason'', JStr ''abandoned'')]) r') (\<lambda>_. give (r', probed)))
           | ProbeUnknown \<Rightarrow>
               bind (raise_row h saga_id ''unresolved_in_doubt'' None r) (\<lambda>_. give (r, probed)))))"

section \<open>The plan of a row\<close>

text \<open>A refusal is an error code with its detail; a plan comes with the verification record it carries.\<close>

definition refused_with :: "rejection \<Rightarrow> (string \<times> string) + plan \<times> verification option" where
  "refused_with rj = Inl (vr_str (rj_code rj), rj_detail rj)"

definition run_pipeline :: "engine_host \<Rightarrow> receipt \<Rightarrow> pipeline_opts \<Rightarrow> ('w engine, pipeline_result) action" where
  "run_pipeline h rc pp = (\<lambda>s.
     case draft_compile_verify (eh_pf h) rc pp (en_cache s, en_budget s) of
       ((cache, budget), r) \<Rightarrow> (s\<lparr>en_cache := cache, en_budget := budget\<rparr>, Inr r))"

text \<open>Of the verifier's options, \<^verbatim>\<open>undoSaga\<close> passes on the model and its time limit.\<close>

definition config_verify :: "'w undo_opts \<Rightarrow> verify_opts" where
  "config_verify u = (uo_verify u)\<lparr>vo_mode := None, vo_budget := None, vo_complete := None, vo_saga_id := None, vo_ttl := None\<rparr>"

definition draft_for ::
  "engine_host \<Rightarrow> 'w undo_opts \<Rightarrow> receipt \<Rightarrow> ('w engine, (string \<times> string) + plan \<times> verification option) action" where
  "draft_for h u rc =
     bind (new_id h) (\<lambda>plan_id.
     bind (now_of h (exec_opts_of u)) (\<lambda>now.
     bind (run_pipeline h rc \<lparr>pp_plan_id = Some plan_id, pp_now = now, pp_draft = (uo_draft u)\<lparr>do_complete := None\<rparr>, pp_verify = config_verify u\<rparr>) (\<lambda>piped.
       case piped of
         PipelineThrew e \<Rightarrow> throw (HostError e)
       | PipelineRejected rj \<Rightarrow> give (refused_with rj)
       | PipelineOk p v \<Rightarrow> bind (on_ledger (mem_put_plan p)) (\<lambda>_. give (Inr (p, Some v))))))"

definition compile_for ::
  "engine_host \<Rightarrow> 'w undo_opts \<Rightarrow> receipt \<Rightarrow> ('w engine, (string \<times> string) + plan \<times> verification option) action" where
  "compile_for h u rc =
     (case uo_match u rc of
        Some sg \<Rightarrow>
          bind (now_of h (exec_opts_of u)) (\<lambda>now.
            case compile_plan (eh_pf h) rc sg
                \<lparr>co_origin = Some (sg_source sg), co_now = now, co_plan_id = None, co_steps = lower_steps sg rc\<rparr> of
              Rejected rj \<Rightarrow> give (refused_with rj)
            | Threw \<Rightarrow> throw type_error
            | Compiled p \<Rightarrow> give (Inr (p, None)))
      | None \<Rightarrow>
          if uo_allow_drafted u \<noteq> Some True then give (Inl (''VR3001'', ''no compensator match''))
          else if rc_tier rc = T4 then give (Inl (''VR4005'', ''drafted compensations are never used for T4''))
          else if \<not> drafted_action_allowed (rc_action rc) (Some (eh_allow_drafted h)) (uo_drafted_env u) (uo_drafted_allow u) then
            give (Inl (''VR4005'', ''drafted_not_allowed''))
          else draft_for h u rc)"

section \<open>One row\<close>

text \<open>How the loop goes on after a row: \<open>IfFailed\<close> stops it when failures halt the undo, \<open>InDoubtStop\<close> always.\<close>

datatype stop = GoOn | IfFailed | InDoubtStop

definition plan_row :: "report_row \<Rightarrow> plan \<Rightarrow> report_row" where
  "plan_row rr p = rr\<lparr>rr_completeness := Some (pl_completeness p), rr_leak := leak_str (pl_leak p)\<rparr>"

definition failure_reason :: "string \<Rightarrow> string" where
  "failure_reason code =
     (if code = ''VR5005'' then ''lease_unavailable'' else if code = ''VR5007'' then ''window_expired'' else ''compensation_failed'')"

text \<open>The exception handler around \<^verbatim>\<open>executePlan\<close>, and what follows its result.\<close>

definition record_failure :: "engine_host \<Rightarrow> string \<Rightarrow> string \<Rightarrow> row_ref \<Rightarrow> ('w engine, unit) action" where
  "record_failure h saga_id code r =
     bind (of_ledger (\<lambda>l. \<exists>ev \<in> set (mem_read_saga l saga_id).
         ev_type ev = ''compensation_failed'' \<and> ev_effect_id ev = Some (ef_effect_id (listed r)))) (\<lambda>already.
       only_if (\<not> already) (row_event h saga_id ''compensation_failed''
         (JObj [(''error_code'', JStr code), (''step_index'', JInt 0), (''attempts'', JInt 1),
            (''postcondition_failed'', JBool (code = ''VR5002''))]) r))"

definition run_threw :: "engine_host \<Rightarrow> string \<Rightarrow> plan \<Rightarrow> row_ref \<Rightarrow> engine_error \<Rightarrow> ('w engine, report_row \<times> stop) action" where
  "run_threw h saga_id p r e =
     (let (code, detail) = as_vr e
      in if code = ''VR5010'' \<or> code = ''VR5012'' then throw (VrError code detail)
         else if code = ''VR2020'' then
           bind (raise_row h saga_id ''unresolved_in_doubt'' None r) (\<lambda>k.
           bind (persist_state r ''escalated'') (\<lambda>r'.
           bind (the_row r') (\<lambda>row.
             give ((row_outcome row OEscalated)\<lparr>rr_error := Some ''VR5011'', rr_escalation := Some k\<rparr>, InDoubtStop))))
         else
           bind (catching (persist_from r ''executing'' ''failed'') (\<lambda>_. persist_state r ''failed'')) (\<lambda>r'.
           bind (record_failure h saga_id code r') (\<lambda>_.
           bind (raise_row h saga_id (failure_reason code) (Some (pl_hash p)) r') (\<lambda>k.
           bind (persist_state r' ''escalated'') (\<lambda>r''.
           bind (the_row r'') (\<lambda>row.
             give ((plan_row (row_outcome row OFailed) p)\<lparr>rr_error := Some code, rr_escalation := Some k\<rparr>, IfFailed)))))))"

definition run_ended :: "plan \<Rightarrow> row_ref \<Rightarrow> exec_result \<Rightarrow> ('w engine, report_row \<times> stop) action" where
  "run_ended p r res =
     (if xr_ok res then
        bind (persist_from r ''executing'' ''compensated'') (\<lambda>r'. bind (the_row r') (\<lambda>row.
          give (plan_row (row_outcome row OCompensated) p, GoOn)))
      else
        bind (persist_state r ''escalated'') (\<lambda>r'. bind (the_row r') (\<lambda>row.
          give ((plan_row (row_outcome row OEscalated) p)\<lparr>rr_error := xr_error_code res\<rparr>, IfFailed))))"

definition run_row :: "engine_host \<Rightarrow> 'w undo_opts \<Rightarrow> string \<Rightarrow> plan \<Rightarrow> verification option \<Rightarrow> row_ref \<Rightarrow> ('w engine, report_row \<times> stop) action" where
  "run_row h u saga_id p v r = (\<lambda>s.
     case execute_plan h (exec_opts_of u) p v s of
       (s', Inl e) \<Rightarrow> run_threw h saga_id p r e s'
     | (s', Inr res) \<Rightarrow> run_ended p r res s')"

definition plan_payload :: "plan \<Rightarrow> json" where
  "plan_payload p = JObj [(''plan_id'', JStr (pl_plan_id p)), (''plan_hash'', JStr (pl_hash p)), (''compensator_id'', JStr (pl_compensator_id p)),
     (''origin'', JStr (source_str (pl_origin p))), (''step_kinds'', JArr (map (\<lambda>st. JStr (step_kind st)) (pl_steps p)))]"

text \<open>Plans that a person has to carry out or approve.\<close>

definition hand_over :: "engine_host \<Rightarrow> string \<Rightarrow> string \<Rightarrow> outcome \<Rightarrow> plan \<Rightarrow> row_ref \<Rightarrow> ('w engine, report_row \<times> stop) action" where
  "hand_over h saga_id reason x p r =
     bind (raise_row h saga_id reason (Some (pl_hash p)) r) (\<lambda>k.
     bind (persist_state r ''escalated'') (\<lambda>r'.
     bind (the_row r') (\<lambda>row.
       give ((plan_row (row_outcome row x) p)\<lparr>rr_error := Some ''VR1010'', rr_escalation := Some k\<rparr>, IfFailed))))"

definition undo_planned ::
  "engine_host \<Rightarrow> 'w undo_opts \<Rightarrow> string \<Rightarrow> receipt \<Rightarrow> plan \<Rightarrow> verification option \<Rightarrow> row_ref \<Rightarrow> ('w engine, report_row \<times> stop) action" where
  "undo_planned h u saga_id rc p v r =
     bind (row_event h saga_id ''compensation_planned'' (plan_payload p) r) (\<lambda>_.
       if list_ex is_manual_step (pl_steps p) \<or> rc_tier rc = T4 then hand_over h saga_id ''t4_irreversible'' OManualRequired p r
       else if pl_cascade_risk p = HighRisk then hand_over h saga_id ''cascade_risk'' OEscalated p r
       else bind (persist_transition r ''executing'') (\<lambda>r'. run_row h u saga_id p v r'))"

definition undo_refused :: "engine_host \<Rightarrow> string \<Rightarrow> string \<Rightarrow> row_ref \<Rightarrow> ('w engine, report_row \<times> stop) action" where
  "undo_refused h saga_id code r =
     bind (raise_row h saga_id (if code = ''VR5007'' then ''window_expired'' else ''compile_rejected'') None r) (\<lambda>_.
     bind (persist_transition r ''escalated'') (\<lambda>r'.
     bind (the_row r') (\<lambda>row. give ((row_outcome row OEscalated)\<lparr>rr_error := Some code\<rparr>, IfFailed))))"

definition blank_plan :: "effect \<Rightarrow> json" where
  "blank_plan e = JObj [(''plan_id'', JStr []), (''plan_hash'', JStr []), (''compensator_id'', JStr (orelse (ef_compensator_id e) [])),
     (''origin'', JStr ''builtin''), (''step_kinds'', JArr [])]"

definition announce_row :: "engine_host \<Rightarrow> string \<Rightarrow> row_ref \<Rightarrow> ('w engine, row_ref) action" where
  "announce_row h saga_id r =
     bind (the_row r) (\<lambda>e.
       if ef_comp_state e = ''available'' then
         bind (persist_state r ''planned'') (\<lambda>r'.
         bind (row_event h saga_id ''compensation_planned'' (blank_plan e) r') (\<lambda>_. give r'))
       else give r)"

definition undo_unavailable :: "engine_host \<Rightarrow> string \<Rightarrow> effect \<Rightarrow> row_ref \<Rightarrow> ('w engine, report_row \<times> stop) action" where
  "undo_unavailable h saga_id e r =
     bind (raise_row h saga_id (if ef_tier e = ''T4'' then ''t4_irreversible'' else ''compile_rejected'') None r) (\<lambda>k.
     bind (persist_from r ''unavailable'' ''escalated'') (\<lambda>r'.
     bind (the_row r') (\<lambda>row.
       give ((row_outcome row OEscalated)\<lparr>rr_error := Some (if ef_tier e = ''T4'' then ''VR1010'' else ''VR3001''), rr_escalation := Some k\<rparr>, IfFailed))))"

definition undo_landed :: "engine_host \<Rightarrow> 'w undo_opts \<Rightarrow> string \<Rightarrow> receipt \<Rightarrow> row_ref \<Rightarrow> ('w engine, report_row \<times> stop) action" where
  "undo_landed h u saga_id rc r =
     bind (the_row r) (\<lambda>e.
       if uo_dry_run u then give ((row_outcome e OSkipped)\<lparr>rr_completeness := Some Full\<rparr>, GoOn)
       else if ef_comp_state e = ''unavailable'' then undo_unavailable h saga_id e r
       else
         bind (announce_row h saga_id r) (\<lambda>r'.
         bind (compile_for h u rc) (\<lambda>compiled.
           case compiled of Inl (code, detail) \<Rightarrow> undo_refused h saga_id code r' | Inr (p, v) \<Rightarrow> undo_planned h u saga_id rc p v r')))"

definition undo_blocked :: "engine_host \<Rightarrow> string \<Rightarrow> row_ref \<Rightarrow> ('w engine, report_row \<times> stop) action" where
  "undo_blocked h saga_id r =
     bind (catching (bind (raise_row h saga_id ''unresolved_in_doubt'' None r) (\<lambda>k. give (Some k))) (\<lambda>_. give None)) (\<lambda>k.
     bind (the_row r) (\<lambda>row.
       give ((row_outcome row OEscalated)\<lparr>rr_error := Some ''VR5011'', rr_escalation := k\<rparr>, InDoubtStop)))"

definition undo_row :: "engine_host \<Rightarrow> 'w undo_opts \<Rightarrow> string \<Rightarrow> receipt \<Rightarrow> row_ref \<Rightarrow> ('w engine, report_row \<times> stop) action" where
  "undo_row h u saga_id rc r =
     bind (the_row r) (\<lambda>e.
       if ef_status e = ''in_doubt'' then
         bind (resolve_in_doubt h u r rc) (\<lambda>(r', probed).
           if probed = ProbeUnknown then undo_blocked h saga_id r'
           else if probed = ProbeNotLanded then
             bind (the_row r') (\<lambda>row. give ((row_outcome row OSkipped)\<lparr>rr_completeness := Some Full\<rparr>, GoOn))
           else undo_landed h u saga_id rc r')
       else undo_landed h u saga_id rc r)"

section \<open>The loop over the rows\<close>

definition selected :: "effect \<Rightarrow> bool" where
  "selected e \<longleftrightarrow> ef_status e \<in> set undo_status \<and> ef_comp_state e \<notin> set terminal_skip"

definition below :: "int option \<Rightarrow> effect \<Rightarrow> bool" where
  "below to_seq e \<longleftrightarrow> (case to_seq of Some n \<Rightarrow> ef_seq e < n | None \<Rightarrow> False)"

definition work_list :: "int option \<Rightarrow> effect list \<Rightarrow> effect list" where
  "work_list to_seq all_rows = filter (\<lambda>e. selected e \<and> \<not> below to_seq e) all_rows"

record progress =
  pg_rows :: "report_row list"
  pg_halted :: "int option"
  pg_halt :: bool
  pg_error :: "engine_error option"

definition start_progress :: progress where
  "start_progress = \<lparr>pg_rows = [], pg_halted = None, pg_halt = False, pg_error = None\<rparr>"

definition is_independent :: "'w undo_opts \<Rightarrow> receipt \<Rightarrow> bool" where
  "is_independent u rc \<longleftrightarrow> (case uo_match u rc of Some sg \<Rightarrow> sg_independent sg | None \<Rightarrow> False)"

definition push_row :: "report_row \<Rightarrow> progress \<Rightarrow> progress" where
  "push_row rr pg = pg\<lparr>pg_rows := pg_rows pg @ [rr]\<rparr>"

text \<open>Where a row stops the loop.\<close>

definition after_row :: "bool \<Rightarrow> bool \<Rightarrow> report_row \<Rightarrow> stop \<Rightarrow> progress \<Rightarrow> progress" where
  "after_row halts independent rr st pg =
     (let pg' = push_row rr pg
      in if st = InDoubtStop then pg'\<lparr>pg_halted := Some (rr_seq rr), pg_halt := True, pg_error := Some (vr VR5011 ''in_doubt_blocks_undo'')\<rparr>
         else if st = IfFailed \<and> halts \<and> \<not> independent then pg'\<lparr>pg_halted := Some (rr_seq rr), pg_halt := True\<rparr>
         else pg')"

text \<open>What is reported of a row the loop does not undo.\<close>

definition pass_row :: "'w undo_opts \<Rightarrow> string list \<Rightarrow> effect \<Rightarrow> progress \<Rightarrow> progress" where
  "pass_row u work e pg =
     (let in_work = ef_effect_id e \<in> set work; low = below (uo_to_seq u) e
      in if (if pg_halt pg then (in_work \<or> \<not> low) \<and> selected e \<and> \<not> low else low \<and> selected e)
         then push_row (row_outcome e ONotAttempted) pg else pg)"

definition loop_row :: "engine_host \<Rightarrow> 'w undo_opts \<Rightarrow> string \<Rightarrow> string list \<Rightarrow> row_ref \<Rightarrow> progress \<Rightarrow> ('w engine, progress) action" where
  "loop_row h u saga_id work r pg =
     bind (the_row r) (\<lambda>e.
       if pg_halt pg \<or> ef_effect_id e \<notin> set work then give (pass_row u work e pg)
       else
         (case projection_to_receipt e of
            None \<Rightarrow> throw type_error
          | Some rc \<Rightarrow>
              bind (undo_row h u saga_id rc r) (\<lambda>(rr, st). give (after_row (halt_on_failure u) (is_independent u rc) rr st pg))))"

fun loop_rows :: "engine_host \<Rightarrow> 'w undo_opts \<Rightarrow> string \<Rightarrow> string list \<Rightarrow> effect list \<Rightarrow> progress \<Rightarrow> ('w engine, progress) action" where
  "loop_rows h u saga_id work [] pg = give pg"
| "loop_rows h u saga_id work (e # es) pg =
     bind (loop_row h u saga_id work (list_row u e) pg) (loop_rows h u saga_id work es)"

section \<open>The saga\<close>

definition lifo :: "effect list \<Rightarrow> effect list" where
  "lifo es = sort_key (\<lambda>e. - ef_seq e) es"

definition set_saga_status :: "string \<Rightarrow> string \<Rightarrow> ('w engine, unit) action" where
  "set_saga_status saga_id st =
     on_ledger (\<lambda>l. case mem_get_saga l saga_id of Some s \<Rightarrow> mem_upsert_saga (s\<lparr>sa_status := st\<rparr>) l | None \<Rightarrow> l)"

definition finish_undo :: "engine_host \<Rightarrow> 'w undo_opts \<Rightarrow> string \<Rightarrow> undo_report \<Rightarrow> engine_error option \<Rightarrow> ('w engine, undo_report) action" where
  "finish_undo h u saga_id rep err =
     bind (only_if (\<not> uo_dry_run u)
        (bind (append_chained h saga_id ''saga_undone'' (report_json rep (final_status rep)) None None) (\<lambda>_.
         set_saga_status saga_id (final_status rep)))) (\<lambda>_.
       case err of Some e \<Rightarrow> throw e | None \<Rightarrow> give rep)"

definition undo_saga :: "engine_host \<Rightarrow> 'w undo_opts \<Rightarrow> string \<Rightarrow> ('w engine, undo_report) action" where
  "undo_saga h u saga_id =
     bind (of_ledger (\<lambda>l. mem_get_saga l saga_id)) (\<lambda>saga.
       if saga = None then throw (vr VR3001 (''unknown saga '' @ saga_id))
       else
         bind (now_of h (exec_opts_of u)) (\<lambda>requested.
         bind (only_if (\<not> uo_dry_run u) (set_saga_status saga_id ''undoing'')) (\<lambda>_.
         bind (of_ledger (\<lambda>l. lifo (mem_list_effects l saga_id))) (\<lambda>all_rows.
         bind (loop_rows h u saga_id (map ef_effect_id (work_list (uo_to_seq u) all_rows)) all_rows start_progress) (\<lambda>pg.
           finish_undo h u saga_id (make_report saga_id (pf_iso (eh_pf h) requested) (pg_halted pg) (pg_rows pg)) (pg_error pg))))))"

section \<open>Every compensation can come to an end\<close>

definition state_rank :: "string \<Rightarrow> nat" where
  "state_rank st = orelse (map_of [(''available'', 7), (''planned'', 6), (''verified'', 5), (''executing'', 4), (''in_doubt'', 3),
     (''failed'', 2), (''unavailable'', 2), (''escalated'', 1)] st) 0"

abbreviation states :: "string list" where "states \<equiv> map fst allowed_transitions"

lemma transition_ok [simp]: "transition a b = Inr c \<longleftrightarrow> c = b \<and> (a = b \<or> allowed a b)"
  by (auto simp: transition_def)

lemma allowed_states: "allowed a b \<Longrightarrow> a \<in> set states \<and> b \<in> set states \<and> state_rank b < state_rank a"
proof -
  have table: "list_all (\<lambda>(a, tos). list_all (\<lambda>b. b \<in> set states \<and> state_rank b < state_rank a) tos) allowed_transitions"
    by code_simp
  assume "allowed a b"
  then obtain tos where tos: "map_of allowed_transitions a = Some tos" "b \<in> set tos" by (auto simp: allowed_def split: option.splits)
  then have mem: "(a, tos) \<in> set allowed_transitions" by (simp add: map_of_SomeD)
  with tos(2) table show ?thesis by (force simp: list_all_iff)
qed

lemma state_ends: "a \<in> set states \<Longrightarrow> (state_rank a = 0 \<longleftrightarrow> a \<in> set terminal_skip) \<and> ((\<exists>b. allowed a b) \<longleftrightarrow> state_rank a \<noteq> 0) \<and> state_rank a \<le> 7"
proof -
  assume a: "a \<in> set states"
  have table: "list_all (\<lambda>a. (state_rank a = 0 \<longleftrightarrow> a \<in> set terminal_skip) \<and> (list_ex (allowed a) states \<longleftrightarrow> state_rank a \<noteq> 0) \<and> state_rank a \<le> 7) states"
    by code_simp
  with a have "(state_rank a = 0 \<longleftrightarrow> a \<in> set terminal_skip) \<and> (list_ex (allowed a) states \<longleftrightarrow> state_rank a \<noteq> 0) \<and> state_rank a \<le> 7"
    by (simp only: list_all_iff)
  then show ?thesis using allowed_states by (auto simp: list_ex_iff)
qed

definition proper_step :: "string \<Rightarrow> string \<Rightarrow> bool" where
  "proper_step a b \<longleftrightarrow> a \<noteq> b \<and> transition a b = Inr b"

lemma proper_step_allowed: "proper_step a b \<longleftrightarrow> allowed a b"
  using allowed_states by (auto simp: proper_step_def)

lemma history_bound:
  "successively proper_step (a # xs) \<Longrightarrow> a \<in> set states \<Longrightarrow>
     length xs + state_rank (last (a # xs)) \<le> state_rank a \<and> last (a # xs) \<in> set states"
proof (induction xs arbitrary: a)
  case (Cons b xs)
  then have "allowed a b" by (simp add: proper_step_allowed)
  from allowed_states [OF this] Cons show ?case by fastforce
qed simp

lemma history_completes:
  "a \<in> set states \<Longrightarrow> \<exists>ys. successively proper_step (a # ys) \<and> last (a # ys) \<in> set terminal_skip \<and> length ys \<le> state_rank a"
proof (induction "state_rank a" arbitrary: a rule: less_induct)
  case less
  show ?case
  proof (cases "state_rank a = 0")
    case True
    with less.prems state_ends show ?thesis by (intro exI [of _ "[]"]) auto
  next
    case False
    with less.prems state_ends obtain b where b: "allowed a b" by blast
    from allowed_states [OF b] less.hyps obtain ys where "successively proper_step (b # ys)" "last (b # ys) \<in> set terminal_skip"
        "length ys \<le> state_rank b" by blast
    with b allowed_states [OF b] show ?thesis by (intro exI [of _ "b # ys"]) (auto simp: proper_step_allowed)
  qed
qed

text \<open>
  C23: no compensation can go round in circles, and none is stuck: along proper transitions a compensation
  sees at most eight states, every history can be continued to one that ends in one of the four states
  the undo skips, and these four are exactly the states without a way out.
\<close>

theorem transitions_end:
  assumes "successively proper_step xs" "xs \<noteq> []" "hd xs \<in> set states"
  shows "length xs \<le> 8 \<and> (\<exists>ys. successively proper_step (xs @ ys) \<and> last (xs @ ys) \<in> set terminal_skip \<and> length (xs @ ys) \<le> 8)
    \<and> ((\<exists>b. proper_step (last xs) b) \<longleftrightarrow> last xs \<notin> set terminal_skip)"
proof -
  obtain a as where xs: "xs = a # as" using assms(2) by (cases xs) auto
  with assms history_bound have bound: "length as + state_rank (last xs) \<le> state_rank a" "last xs \<in> set states" by auto
  have seven: "state_rank a \<le> 7" using assms(3) state_ends xs by auto
  from history_completes [OF bound(2)] obtain ys where ys: "successively proper_step (last xs # ys)"
    "last (last xs # ys) \<in> set terminal_skip" "length ys \<le> state_rank (last xs)" by blast
  have "successively proper_step (xs @ ys)" using assms(1,2) ys(1) by (cases ys) (auto simp: successively_append_iff)
  moreover have "last (xs @ ys) = last (last xs # ys)" by (cases ys) auto
  moreover have "length (xs @ ys) \<le> 8" using xs bound(1) seven ys(3) by simp
  moreover have "(\<exists>b. proper_step (last xs) b) \<longleftrightarrow> last xs \<notin> set terminal_skip"
    using state_ends [OF bound(2)] by (auto simp: proper_step_allowed)
  moreover have "length xs \<le> 8" using xs bound(1) seven by simp
  ultimately show ?thesis using ys(2) by auto
qed

lemma transitions_end_witness:
  "\<exists>ys. successively proper_step ([''available'', ''planned'', ''executing''] @ ys)
     \<and> last ([''available'', ''planned'', ''executing''] @ ys) \<in> set terminal_skip \<and> length ([''available'', ''planned'', ''executing''] @ ys) \<le> 8"
proof -
  have "successively proper_step [''available'', ''planned'', ''executing'']" "hd [''available'', ''planned'', ''executing''] \<in> set states"
    by code_simp+
  from transitions_end [OF this(1) _ this(2)] show ?thesis by blast
qed

section \<open>What a row reports\<close>

text \<open>Every normal result of the action satisfies the predicate.\<close>

definition returns :: "('s, 'a) action \<Rightarrow> ('a \<Rightarrow> bool) \<Rightarrow> bool" where
  "returns m P \<longleftrightarrow> (\<forall>s s' a. m s = (s', Inr a) \<longrightarrow> P a)"

lemma returnsD: "returns m P \<Longrightarrow> m s = (s', Inr a) \<Longrightarrow> P a"
  by (auto simp: returns_def)

lemma returns_give [simp]: "returns (give a) P \<longleftrightarrow> P a"
  by (simp add: returns_def give_def)

lemma returns_throw [simp]: "returns (throw e) P"
  by (simp add: returns_def throw_def)

lemma returns_bind: "returns m Q \<Longrightarrow> (\<And>a. Q a \<Longrightarrow> returns (f a) P) \<Longrightarrow> returns (bind m f) P"
  unfolding returns_def bind_Inr_iff by metis

lemma returns_any: "(\<And>a. returns (f a) P) \<Longrightarrow> returns (bind m f) P"
  by (rule returns_bind [of m "\<lambda>_. True"]) (simp_all add: returns_def)

lemma returns_catching: "returns m P \<Longrightarrow> (\<And>e. returns (h e) P) \<Longrightarrow> returns (catching m h) P"
  unfolding returns_def catching_Inr_iff by metis

lemma returns_if: "(b \<Longrightarrow> returns m P) \<Longrightarrow> (\<not> b \<Longrightarrow> returns n P) \<Longrightarrow> returns (if b then m else n) P"
  by simp

definition same_row :: "row_ref \<Rightarrow> row_ref \<Rightarrow> bool" where
  "same_row r r' \<longleftrightarrow> ef_effect_id (listed r') = ef_effect_id (listed r) \<and> ef_seq (listed r') = ef_seq (listed r)"

definition of_row :: "row_ref \<Rightarrow> effect \<Rightarrow> bool" where
  "of_row r e \<longleftrightarrow> ef_effect_id e = ef_effect_id (listed r) \<and> ef_seq e = ef_seq (listed r)"

lemma row_now_of_row: "of_row r (row_now r l)"
  by (simp add: of_row_def row_now_def listed_def split: row_ref.split)

lemma bind_the_row: "bind (the_row r) f s = f (row_now r (en_ledger s)) s"
  by (simp add: the_row_def of_ledger_def)

lemma the_row_returns: "returns (the_row r) (of_row r)"
  by (auto simp: returns_def the_row_def of_ledger_def reads_def row_now_of_row)

lemma store_row_returns:
  assumes "\<And>e. ef_effect_id (f e) = ef_effect_id e \<and> ef_seq (f e) = ef_seq e"
  shows "returns (store_row f r) (same_row r)"
  unfolding store_row_def
  by (rule returns_bind [OF the_row_returns]) (auto intro!: returns_any simp: assms of_row_def same_row_def listed_def)

lemma persist_returns:
  "returns (persist_state r st) (same_row r)" "returns (persist_from r a b) (same_row r)" "returns (persist_transition r b) (same_row r)"
proof -
  show p: "returns (persist_state r st) (same_row r)" for st unfolding persist_state_def by (rule store_row_returns) simp
  then show "returns (persist_from r a b) (same_row r)" "returns (persist_transition r b) (same_row r)"
    by (auto simp: persist_from_def persist_transition_def intro: returns_any)
qed

text \<open>
  A report row that tells of this row, and how the loop goes on; \<open>w\<close> is what has to be the case for a row
  that is reported as compensated or skipped.
\<close>

definition reports :: "(outcome \<Rightarrow> bool) \<Rightarrow> row_ref \<Rightarrow> report_row \<times> stop \<Rightarrow> bool" where
  "reports w r = (\<lambda>(rr, st). rr_effect_id rr = ef_effect_id (listed r) \<and> rr_seq rr = ef_seq (listed r)
     \<and> (if st = GoOn then rr_outcome rr \<in> {OCompensated, OSkipped} \<and> w (rr_outcome rr) else rr_outcome rr \<in> {OFailed, OEscalated, OManualRequired}))"

lemma reports_same: "same_row r r' \<Longrightarrow> reports w r' = reports w r"
  by (simp add: reports_def same_row_def)

lemma report_tail:
  assumes "\<And>row. of_row r row \<Longrightarrow> reports w r (g row)"
  shows "returns (bind (the_row r) (\<lambda>row. give (g row))) (reports w r)"
  by (rule returns_bind [OF the_row_returns]) (simp add: assms)

lemma row_outcome_simps [simp]:
  "rr_effect_id (row_outcome e x) = ef_effect_id e" "rr_seq (row_outcome e x) = ef_seq e" "rr_outcome (row_outcome e x) = x"
  "rr_effect_id (plan_row rr p) = rr_effect_id rr" "rr_seq (plan_row rr p) = rr_seq rr" "rr_outcome (plan_row rr p) = rr_outcome rr"
  by (simp_all add: row_outcome_def plan_row_def)

lemma stored_report:
  assumes "returns m (same_row r)" "\<And>r' row. of_row r' row \<Longrightarrow> same_row r r' \<Longrightarrow> reports w r (g row)"
  shows "returns (bind m (\<lambda>r'. bind (the_row r') (\<lambda>row. give (g row)))) (reports w r)"
proof (rule returns_bind [OF assms(1)])
  fix r' assume same: "same_row r r'"
  show "returns (bind (the_row r') (\<lambda>row. give (g row))) (reports w r)"
    by (rule returns_bind [OF the_row_returns]) (simp add: assms(2) [OF _ same])
qed

lemma reports_row: "of_row r' row \<Longrightarrow> same_row r r' \<Longrightarrow>
    reports w r (rr, st) \<longleftrightarrow> rr_effect_id rr = ef_effect_id row \<and> rr_seq rr = ef_seq row
      \<and> (if st = GoOn then rr_outcome rr \<in> {OCompensated, OSkipped} \<and> w (rr_outcome rr) else rr_outcome rr \<in> {OFailed, OEscalated, OManualRequired})"
  by (simp add: reports_def of_row_def same_row_def)

lemma run_threw_reports: "returns (run_threw h sid p r e) (reports w r)"
proof -
  have failed: "returns (catching (persist_from r ''executing'' ''failed'') (\<lambda>_. persist_state r ''failed'')) (same_row r)"
    by (intro returns_catching persist_returns)
  have last: "returns (bind (persist_state r' ''escalated'') (\<lambda>r''. bind (the_row r'') (\<lambda>row.
      give ((plan_row (row_outcome row OFailed) p)\<lparr>rr_error := x, rr_escalation := y\<rparr>, IfFailed)))) (reports w r)" if "same_row r r'" for r' x y
    unfolding reports_same [OF that, symmetric] by (rule stored_report [OF persist_returns(1)]) (simp add: reports_row)
  have "returns (bind (persist_state r ''escalated'') (\<lambda>r'. bind (the_row r') (\<lambda>row.
      give ((row_outcome row OEscalated)\<lparr>rr_error := x, rr_escalation := y\<rparr>, InDoubtStop)))) (reports w r)" for x y
    by (rule stored_report [OF persist_returns(1)]) (simp add: reports_row)
  note doubt = this
  obtain code detail where e: "as_vr e = (code, detail)" by (cases "as_vr e")
  show ?thesis unfolding run_threw_def e Let_def prod.case
  proof (intro returns_if)
    show "returns (throw (VrError code detail)) (reports w r)" by simp
  next
    show "returns (bind (raise_row h sid ''unresolved_in_doubt'' None r) (\<lambda>k. bind (persist_state r ''escalated'') (\<lambda>r'. bind (the_row r') (\<lambda>row.
        give ((row_outcome row OEscalated)\<lparr>rr_error := Some ''VR5011'', rr_escalation := Some k\<rparr>, InDoubtStop))))) (reports w r)"
      by (rule returns_any) (rule doubt)
  next
    show "returns (bind (catching (persist_from r ''executing'' ''failed'') (\<lambda>_. persist_state r ''failed'')) (\<lambda>r'.
        bind (record_failure h sid code r') (\<lambda>_. bind (raise_row h sid (failure_reason code) (Some (pl_hash p)) r') (\<lambda>k.
        bind (persist_state r' ''escalated'') (\<lambda>r''. bind (the_row r'') (\<lambda>row.
          give ((plan_row (row_outcome row OFailed) p)\<lparr>rr_error := Some code, rr_escalation := Some k\<rparr>, IfFailed))))))) (reports w r)"
      by (rule returns_bind [OF failed]) (rule returns_any, rule returns_any, rule last)
  qed
qed

lemma run_ended_reports: "(xr_ok res \<Longrightarrow> w OCompensated) \<Longrightarrow> returns (run_ended p r res) (reports w r)"
  unfolding run_ended_def
proof (rule returns_if)
  assume "xr_ok res" "xr_ok res \<Longrightarrow> w OCompensated"
  then show "returns (bind (persist_from r ''executing'' ''compensated'') (\<lambda>r'. bind (the_row r') (\<lambda>row.
      give (plan_row (row_outcome row OCompensated) p, GoOn)))) (reports w r)"
    by (intro stored_report [OF persist_returns(2)]) (simp add: reports_row)
next
  show "returns (bind (persist_state r ''escalated'') (\<lambda>r'. bind (the_row r') (\<lambda>row.
      give ((plan_row (row_outcome row OEscalated) p)\<lparr>rr_error := xr_error_code res\<rparr>, IfFailed)))) (reports w r)"
    by (rule stored_report [OF persist_returns(1)]) (simp add: reports_row)
qed

definition ran_ok :: "engine_host \<Rightarrow> 'w undo_opts \<Rightarrow> plan \<Rightarrow> verification option \<Rightarrow> bool" where
  "ran_ok h u p v \<longleftrightarrow> (\<exists>s s' res. execute_plan h (exec_opts_of u) p v s = (s', Inr res) \<and> xr_ok res)"

lemma run_row_reports:
  assumes "ran_ok h u p v \<Longrightarrow> w OCompensated"
  shows "returns (run_row h u sid p v r) (reports w r)"
proof -
  have "reports w r a" if "run_row h u sid p v r s = (s', Inr a)" for s s' a
  proof (cases "execute_plan h (exec_opts_of u) p v s")
    case (Pair t x)
    with assms have "x = Inr res \<Longrightarrow> xr_ok res \<Longrightarrow> w OCompensated" for res by (auto simp: ran_ok_def)
    with that Pair show ?thesis
      by (cases x) (auto simp: run_row_def dest: returnsD [OF run_threw_reports] returnsD [OF run_ended_reports])
  qed
  then show ?thesis by (simp add: returns_def)
qed

text \<open>The plans that the undo runs without a person.\<close>

definition runnable :: "receipt \<Rightarrow> plan \<Rightarrow> bool" where
  "runnable rc p \<longleftrightarrow> rc_tier rc \<noteq> T4 \<and> \<not> list_ex is_manual_step (pl_steps p) \<and> pl_cascade_risk p \<noteq> HighRisk"

lemma hand_over_reports: "x \<in> {OFailed, OEscalated, OManualRequired} \<Longrightarrow> returns (hand_over h sid reason x p r) (reports w r)"
  unfolding hand_over_def by (rule returns_any, rule stored_report [OF persist_returns(1)]) (simp add: reports_row)

lemma undo_planned_reports:
  assumes "runnable rc p \<Longrightarrow> ran_ok h u p v \<Longrightarrow> w OCompensated"
  shows "returns (undo_planned h u sid rc p v r) (reports w r)"
  unfolding undo_planned_def
proof (rule returns_any, intro returns_if)
  assume "\<not> (list_ex is_manual_step (pl_steps p) \<or> rc_tier rc = T4)" "pl_cascade_risk p \<noteq> HighRisk"
  with assms have w: "ran_ok h u p v \<Longrightarrow> w OCompensated" by (simp add: runnable_def)
  show "returns (bind (persist_transition r ''executing'') (run_row h u sid p v)) (reports w r)"
    by (rule returns_bind [OF persist_returns(3)]) (metis reports_same run_row_reports w)
qed (simp_all add: hand_over_reports)

text \<open>How the undo comes by a plan.\<close>

definition plan_made :: "engine_host \<Rightarrow> 'w undo_opts \<Rightarrow> receipt \<Rightarrow> plan \<Rightarrow> verification option \<Rightarrow> bool" where
  "plan_made h u rc p v \<longleftrightarrow>
     (case uo_match u rc of
        Some sg \<Rightarrow> v = None \<and> (\<exists>now. compile_plan (eh_pf h) rc sg
            \<lparr>co_origin = Some (sg_source sg), co_now = now, co_plan_id = None, co_steps = lower_steps sg rc\<rparr> = Compiled p)
      | None \<Rightarrow> uo_allow_drafted u = Some True
          \<and> drafted_action_allowed (rc_action rc) (Some (eh_allow_drafted h)) (uo_drafted_env u) (uo_drafted_allow u)
          \<and> (\<exists>pp st st' vf. v = Some vf \<and> draft_compile_verify (eh_pf h) rc pp st = (st', PipelineOk p vf)))"

lemma draft_for_returns:
  assumes "uo_match u rc = None" "uo_allow_drafted u = Some True"
    "drafted_action_allowed (rc_action rc) (Some (eh_allow_drafted h)) (uo_drafted_env u) (uo_drafted_allow u)"
  shows "returns (draft_for h u rc) (\<lambda>c. \<forall>p v. c = Inr (p, v) \<longrightarrow> plan_made h u rc p v)"
  unfolding draft_for_def
proof (rule returns_any, rule returns_any)
  fix plan_id now
  let ?pp = "\<lparr>pp_plan_id = Some plan_id, pp_now = now, pp_draft = (uo_draft u)\<lparr>do_complete := None\<rparr>, pp_verify = config_verify u\<rparr>"
  have made: "returns (run_pipeline h rc ?pp) (\<lambda>piped. \<forall>p vf. piped = PipelineOk p vf \<longrightarrow> plan_made h u rc p (Some vf))"
    using assms by (auto simp: returns_def run_pipeline_def plan_made_def split: prod.splits) (metis snd_conv)
  show "returns (bind (run_pipeline h rc ?pp) (\<lambda>piped. case piped of
         PipelineThrew e \<Rightarrow> throw (HostError e)
       | PipelineRejected rj \<Rightarrow> give (refused_with rj)
       | PipelineOk p v \<Rightarrow> bind (on_ledger (mem_put_plan p)) (\<lambda>_. give (Inr (p, Some v)))))
     (\<lambda>c. \<forall>p v. c = Inr (p, v) \<longrightarrow> plan_made h u rc p v)"
  proof (rule returns_bind [OF made])
    fix piped assume piped: "\<forall>p vf. piped = PipelineOk p vf \<longrightarrow> plan_made h u rc p (Some vf)"
    show "returns (case piped of PipelineThrew e \<Rightarrow> throw (HostError e) | PipelineRejected rj \<Rightarrow> give (refused_with rj)
        | PipelineOk p v \<Rightarrow> bind (on_ledger (mem_put_plan p)) (\<lambda>_. give (Inr (p, Some v)))) (\<lambda>c. \<forall>p v. c = Inr (p, v) \<longrightarrow> plan_made h u rc p v)"
    proof (cases piped)
      case (PipelineOk p v)
      then show ?thesis using piped unfolding PipelineOk pipeline_result.case by (intro returns_any) simp
    qed (simp_all add: refused_with_def)
  qed
qed

lemma compile_for_returns: "returns (compile_for h u rc) (\<lambda>c. \<forall>p v. c = Inr (p, v) \<longrightarrow> plan_made h u rc p v)"
proof (cases "uo_match u rc")
  case (Some sg)
  have "returns (case compile_plan (eh_pf h) rc sg
        \<lparr>co_origin = Some (sg_source sg), co_now = now, co_plan_id = None, co_steps = lower_steps sg rc\<rparr> of
      Rejected rj \<Rightarrow> give (refused_with rj) | Threw \<Rightarrow> throw type_error | Compiled p \<Rightarrow> give (Inr (p, None)))
    (\<lambda>c. \<forall>p v. c = Inr (p, v) \<longrightarrow> plan_made h u rc p v)" for now
    by (auto simp: Some plan_made_def refused_with_def split: compile_result.split)
  then show ?thesis unfolding compile_for_def Some option.case by (rule returns_any)
next
  case None
  then show ?thesis unfolding compile_for_def None option.case by (intro returns_if) (simp_all add: draft_for_returns None)
qed

text \<open>What stands behind a compensation that is reported.\<close>

definition probed_absent :: "engine_host \<Rightarrow> 'w undo_opts \<Rightarrow> receipt \<Rightarrow> bool" where
  "probed_absent h u rc \<longleftrightarrow> rc_status rc = InDoubt \<and> (\<exists>t t'. probe_row h u rc t = (t', Inr ProbeNotLanded))"

definition backed :: "engine_host \<Rightarrow> 'w undo_opts \<Rightarrow> receipt \<Rightarrow> bool" where
  "backed h u rc \<longleftrightarrow> (\<exists>p v. plan_made h u rc p v \<and> runnable rc p \<and> ran_ok h u p v)"

lemma undo_refused_reports: "returns (undo_refused h sid code r) (reports w r)"
  unfolding undo_refused_def by (rule returns_any, rule stored_report [OF persist_returns(3)]) (simp add: reports_row)

lemma undo_unavailable_reports: "returns (undo_unavailable h sid e r) (reports w r)"
  unfolding undo_unavailable_def by (rule returns_any, rule stored_report [OF persist_returns(2)]) (simp add: reports_row)

lemma announce_row_returns: "returns (announce_row h sid r) (same_row r)"
  unfolding announce_row_def
proof (rule returns_any, rule returns_if)
  fix e
  show "returns (bind (persist_state r ''planned'') (\<lambda>r'. bind (row_event h sid ''compensation_planned'' (blank_plan e) r') (\<lambda>_. give r'))) (same_row r)"
    by (rule returns_bind [OF persist_returns(1)], rule returns_any) simp
  show "returns (give r) (same_row r)" by (simp add: same_row_def)
qed

definition explained :: "engine_host \<Rightarrow> 'w undo_opts \<Rightarrow> receipt \<Rightarrow> outcome \<Rightarrow> bool" where
  "explained h u rc x \<longleftrightarrow>
     (case x of OCompensated \<Rightarrow> backed h u rc | OSkipped \<Rightarrow> uo_dry_run u \<or> probed_absent h u rc | _ \<Rightarrow> True)"

lemma undo_compiled_reports:
  assumes "same_row r r'" "\<forall>p v. compiled = Inr (p, v) \<longrightarrow> plan_made h u rc p v" "backed h u rc \<Longrightarrow> w OCompensated"
  shows "returns (case compiled of Inl (code, detail) \<Rightarrow> undo_refused h sid code r' | Inr (p, v) \<Rightarrow> undo_planned h u sid rc p v r') (reports w r)"
proof -
  have "returns (case compiled of Inl (code, detail) \<Rightarrow> undo_refused h sid code r' | Inr (p, v) \<Rightarrow> undo_planned h u sid rc p v r') (reports w r')"
  proof (cases compiled)
    case (Inl a)
    then show ?thesis by (cases a) (simp add: undo_refused_reports)
  next
    case (Inr a)
    obtain p v where a: "a = (p, v)" by (cases a)
    with Inr assms(2) have "plan_made h u rc p v" by simp
    with assms(3) have "runnable rc p \<Longrightarrow> ran_ok h u p v \<Longrightarrow> w OCompensated" by (auto simp: backed_def)
    with Inr a show ?thesis by (simp add: undo_planned_reports)
  qed
  with reports_same [OF assms(1)] show ?thesis by metis
qed

lemma undo_landed_reports: "(backed h u rc \<Longrightarrow> w OCompensated) \<Longrightarrow> (uo_dry_run u \<Longrightarrow> w OSkipped) \<Longrightarrow> returns (undo_landed h u sid rc r) (reports w r)"
  unfolding undo_landed_def
proof (intro returns_bind [OF the_row_returns] returns_if)
  fix e assume "of_row r e" "uo_dry_run u" "uo_dry_run u \<Longrightarrow> w OSkipped"
  then show "returns (give ((row_outcome e OSkipped)\<lparr>rr_completeness := Some Full\<rparr>, GoOn)) (reports w r)"
    by (simp add: reports_def of_row_def)
next
  assume w: "backed h u rc \<Longrightarrow> w OCompensated"
  show "returns (bind (announce_row h sid r) (\<lambda>r'. bind (compile_for h u rc) (\<lambda>compiled.
      case compiled of Inl (code, detail) \<Rightarrow> undo_refused h sid code r' | Inr (p, v) \<Rightarrow> undo_planned h u sid rc p v r'))) (reports w r)"
    by (rule returns_bind [OF announce_row_returns], rule returns_bind [OF compile_for_returns], rule undo_compiled_reports) (use w in auto)
qed (rule undo_unavailable_reports)

lemma stored_pair:
  assumes "\<And>e. ef_effect_id (f e) = ef_effect_id e \<and> ef_seq (f e) = ef_seq e" "\<And>r'. same_row r r' \<Longrightarrow> returns (m r') P"
  shows "returns (bind (store_row f r) m) P"
  using assms by (intro returns_bind [OF store_row_returns])

lemma resolve_in_doubt_returns:
  assumes "rc_status rc = InDoubt"
  shows "returns (resolve_in_doubt h u r rc) (\<lambda>(r', probed). same_row r r' \<and> (probed = ProbeNotLanded \<longrightarrow> probed_absent h u rc))"
  unfolding resolve_in_doubt_def Let_def
proof (rule returns_bind [where Q = "\<lambda>probed. probed = ProbeNotLanded \<longrightarrow> probed_absent h u rc"])
  show "returns (probe_row h u rc) (\<lambda>probed. probed = ProbeNotLanded \<longrightarrow> probed_absent h u rc)"
    using assms by (auto simp: returns_def probed_absent_def)
next
  fix probed assume absent: "probed = ProbeNotLanded \<longrightarrow> probed_absent h u rc"
  let ?P = "\<lambda>(r', probed). same_row r r' \<and> (probed = ProbeNotLanded \<longrightarrow> probed_absent h u rc)"
  have "returns (case probed of
      ProbeLanded \<Rightarrow> bind (store_row (\<lambda>e. e\<lparr>ef_status := ''landed''\<rparr>) r) (\<lambda>r'. give (r', probed))
    | ProbeNotLanded \<Rightarrow>
        bind (store_row (\<lambda>e. e\<lparr>ef_status := ''abandoned'', ef_comp_state := ''none_required''\<rparr>) r) (\<lambda>r'.
        bind (row_event h (ef_saga_id (listed r)) ''compensation_skipped'' (JObj [(''reason'', JStr ''abandoned'')]) r') (\<lambda>_. give (r', probed)))
    | ProbeUnknown \<Rightarrow>
        bind (raise_row h (ef_saga_id (listed r)) ''unresolved_in_doubt'' None r) (\<lambda>_. give (r, probed))) ?P"
  proof (cases probed)
    case ProbeLanded
    then show ?thesis by (auto intro: stored_pair)
  next
    case ProbeNotLanded
    then show ?thesis using absent unfolding ProbeNotLanded probe_result.case by (intro stored_pair) (simp, rule returns_any, simp)
  next
    case ProbeUnknown
    then show ?thesis unfolding ProbeUnknown probe_result.case by (intro returns_any) (simp add: same_row_def)
  qed
  then show "returns (bind (row_event h (ef_saga_id (listed r)) ''effect_probed''
        (JObj [(''probe_result'', JStr (probe_str probed)), (''attempts'', JInt 3)]) r) (\<lambda>_. case probed of
      ProbeLanded \<Rightarrow> bind (store_row (\<lambda>e. e\<lparr>ef_status := ''landed''\<rparr>) r) (\<lambda>r'. give (r', probed))
    | ProbeNotLanded \<Rightarrow>
        bind (store_row (\<lambda>e. e\<lparr>ef_status := ''abandoned'', ef_comp_state := ''none_required''\<rparr>) r) (\<lambda>r'.
        bind (row_event h (ef_saga_id (listed r)) ''compensation_skipped'' (JObj [(''reason'', JStr ''abandoned'')]) r') (\<lambda>_. give (r', probed)))
    | ProbeUnknown \<Rightarrow>
        bind (raise_row h (ef_saga_id (listed r)) ''unresolved_in_doubt'' None r) (\<lambda>_. give (r, probed)))) ?P"
    by (rule returns_any)
qed

lemma undo_blocked_reports: "returns (undo_blocked h sid r) (reports w r)"
  unfolding undo_blocked_def by (rule returns_any, rule report_tail) (simp add: reports_def of_row_def)

lemma projection_receipt:
  "projection_to_receipt e = Some rc \<Longrightarrow> rc_effect_id rc = ef_effect_id e \<and> text_value effect_statuses (ef_status e) = Some (rc_status rc)"
  by (auto simp: projection_to_receipt_def split: option.splits)

lemma undo_row_reports:
  assumes rc: "projection_to_receipt (row_now r (en_ledger s)) = Some rc" and run: "undo_row h u sid rc r s = (s', Inr x)"
  shows "reports (explained h u rc) r x"
proof (cases "ef_status (row_now r (en_ledger s)) = ''in_doubt''")
  case True
  with projection_receipt [OF rc] have doubt: "rc_status rc = InDoubt" by (simp add: text_value_def effect_statuses_def)
  have "returns (bind (resolve_in_doubt h u r rc) (\<lambda>(r', probed).
           if probed = ProbeUnknown then undo_blocked h sid r'
           else if probed = ProbeNotLanded then
             bind (the_row r') (\<lambda>row. give ((row_outcome row OSkipped)\<lparr>rr_completeness := Some Full\<rparr>, GoOn))
           else undo_landed h u sid rc r')) (reports (explained h u rc) r)"
  proof (rule returns_bind [OF resolve_in_doubt_returns [OF doubt]], clarify, intro returns_if)
    fix r' probed assume "same_row r r'"
    then have same: "reports (explained h u rc) r = reports (explained h u rc) r'" by (simp add: reports_same)
    show "returns (undo_blocked h sid r') (reports (explained h u rc) r)" "returns (undo_landed h u sid rc r') (reports (explained h u rc) r)"
      by (simp_all add: same undo_blocked_reports undo_landed_reports explained_def)
    assume "probed = ProbeNotLanded" "probed = ProbeNotLanded \<longrightarrow> probed_absent h u rc"
    then show "returns (bind (the_row r') (\<lambda>row. give ((row_outcome row OSkipped)\<lparr>rr_completeness := Some Full\<rparr>, GoOn))) (reports (explained h u rc) r)"
      unfolding same by (intro report_tail) (simp add: reports_def of_row_def explained_def)
  qed
  from returnsD [OF this] show ?thesis using run True by (simp add: undo_row_def bind_the_row)
next
  case False
  have "returns (undo_landed h u sid rc r) (reports (explained h u rc) r)" by (rule undo_landed_reports) (simp_all add: explained_def)
  from returnsD [OF this] show ?thesis using run False by (simp add: undo_row_def bind_the_row)
qed

section \<open>The undo goes through the log backwards\<close>

definition tried :: "report_row list \<Rightarrow> report_row list" where
  "tried rows = filter was_attempted rows"

definition undone_ok :: "report_row \<Rightarrow> bool" where
  "undone_ok rr \<longleftrightarrow> rr_outcome rr \<in> {OCompensated, OSkipped}"

definition strict :: "'w undo_opts \<Rightarrow> bool" where
  "strict u \<longleftrightarrow> halt_on_failure u \<and> (\<forall>rc. \<not> is_independent u rc)"

text \<open>What holds of the progress at the head of the loop.\<close>

definition row_explained :: "engine_host \<Rightarrow> 'w undo_opts \<Rightarrow> report_row \<Rightarrow> bool" where
  "row_explained h u rr \<longleftrightarrow> (\<exists>rc. rc_effect_id rc = rr_effect_id rr \<and> explained h u rc (rr_outcome rr))"

definition progress_ok :: "engine_host \<Rightarrow> 'w undo_opts \<Rightarrow> progress \<Rightarrow> bool" where
  "progress_ok h u pg \<longleftrightarrow> list_all (row_explained h u) (tried (pg_rows pg)) \<and>
     (if pg_halt pg then tried (pg_rows pg) \<noteq> [] \<and> pg_halted pg = Some (rr_seq (last (tried (pg_rows pg))))
        \<and> \<not> undone_ok (last (tried (pg_rows pg))) \<and> (strict u \<longrightarrow> list_all undone_ok (butlast (tried (pg_rows pg))))
      else pg_halted pg = None \<and> (strict u \<longrightarrow> list_all undone_ok (tried (pg_rows pg))))"

lemma tried_append [simp]: "tried (xs @ [r]) = (if was_attempted r then tried xs @ [r] else tried xs)"
  by (simp add: tried_def)

lemma not_attempted [simp]: "\<not> was_attempted (row_outcome e ONotAttempted)"
  by (simp add: was_attempted_def row_outcome_def)

lemma push_not_attempted [simp]:
  "tried (pg_rows (push_row (row_outcome e ONotAttempted) pg)) = tried (pg_rows pg)"
  "pg_halt (push_row rr pg) = pg_halt pg" "pg_halted (push_row rr pg) = pg_halted pg"
  by (simp_all add: push_row_def)

lemma progress_ok_same:
  "tried (pg_rows pg') = tried (pg_rows pg) \<Longrightarrow> pg_halt pg' = pg_halt pg \<Longrightarrow> pg_halted pg' = pg_halted pg
     \<Longrightarrow> progress_ok h u pg' = progress_ok h u pg"
  by (simp add: progress_ok_def)

definition row_key :: "report_row \<Rightarrow> string \<times> int" where "row_key rr = (rr_effect_id rr, rr_seq rr)"
definition effect_key :: "effect \<Rightarrow> string \<times> int" where "effect_key e = (ef_effect_id e, ef_seq e)"

lemma after_row_ok:
  assumes "reports (explained h u rc) r (rr, st)" "progress_ok h u pg" "\<not> pg_halt pg"
    and pg'_def: "pg' = after_row (halt_on_failure u) (is_independent u rc) rr st pg"
    and rc: "rc_effect_id rc = ef_effect_id (listed r)"
  shows "tried (pg_rows pg') = tried (pg_rows pg) @ [rr]" "row_key rr = effect_key (listed r)" "progress_ok h u pg'"
proof -
  have rows: "pg_rows pg' = pg_rows pg @ [rr]" by (simp add: pg'_def after_row_def push_row_def Let_def)
  have tried: "was_attempted rr" using assms(1) by (auto simp: reports_def was_attempted_def split: if_splits)
  with rows show rows': "tried (pg_rows pg') = tried (pg_rows pg) @ [rr]" by simp
  show "row_key rr = effect_key (listed r)" using assms(1) by (simp add: reports_def row_key_def effect_key_def)
  have "explained h u rc (rr_outcome rr)" using assms(1) by (auto simp: reports_def explained_def split: if_splits)
  with assms(1) rc have why: "row_explained h u rr" by (auto simp: row_explained_def reports_def)
  have "undone_ok rr \<longleftrightarrow> st = GoOn" using assms(1) by (auto simp: reports_def undone_ok_def split: if_splits)
  with why show "progress_ok h u pg'" using assms(2,3) unfolding progress_ok_def rows'
    by (cases st) (auto simp: pg'_def after_row_def push_row_def Let_def strict_def)
qed

lemma loop_row_ok:
  assumes run: "loop_row h u sid work r pg s = (s', Inr pg')" and ok: "progress_ok h u pg"
  defines "go \<equiv> \<not> pg_halt pg \<and> ef_effect_id (listed r) \<in> set work"
  shows "progress_ok h u pg' \<and> (\<not> go \<longrightarrow> tried (pg_rows pg') = tried (pg_rows pg) \<and> pg_halt pg' = pg_halt pg)
    \<and> (go \<longrightarrow> (\<exists>rr. tried (pg_rows pg') = tried (pg_rows pg) @ [rr] \<and> row_key rr = effect_key (listed r)))"
proof -
  let ?e = "row_now r (en_ledger s)"
  have e: "ef_effect_id ?e = ef_effect_id (listed r)" using row_now_of_row by (simp add: of_row_def)
  show ?thesis
  proof (cases go)
    case False
    then have "pg' = pass_row u work ?e pg" using run by (auto simp: loop_row_def bind_the_row give_def go_def e)
    then have "pg' = pg \<or> pg' = push_row (row_outcome ?e ONotAttempted) pg" by (simp add: pass_row_def Let_def)
    then have "tried (pg_rows pg') = tried (pg_rows pg)" "pg_halt pg' = pg_halt pg" "pg_halted pg' = pg_halted pg" by auto
    moreover from this ok have "progress_ok h u pg'" using progress_ok_same [of pg' pg h u] by simp
    ultimately show ?thesis using False by blast
  next
    case True
    with run obtain rc where rc: "projection_to_receipt ?e = Some rc" "bind (undo_row h u sid rc r) (\<lambda>(rr, st).
        give (after_row (halt_on_failure u) (is_independent u rc) rr st pg)) s = (s', Inr pg')"
      by (auto simp: loop_row_def bind_the_row Let_def go_def e throw_def split: option.splits)
    then obtain s1 rr st where row: "undo_row h u sid rc r s = (s1, Inr (rr, st))"
      and pg': "pg' = after_row (halt_on_failure u) (is_independent u rc) rr st pg"
      by (auto simp: bind_Inr_iff give_def)
    note rep = undo_row_reports [OF rc(1) row]
    have "rc_effect_id rc = ef_effect_id (listed r)" using projection_receipt [OF rc(1)] e by simp
    from after_row_ok [OF rep ok _ pg' this] True show ?thesis unfolding go_def by blast
  qed
qed

lemma listed_list_row [simp]: "listed (list_row u e) = e"
  by (simp add: listed_def list_row_def)

lemma loop_rows_ok:
  "loop_rows h u sid work es pg s = (s', Inr pg') \<Longrightarrow> progress_ok h u pg \<Longrightarrow>
     progress_ok h u pg' \<and> (\<exists>n. map row_key (tried (pg_rows pg')) = map row_key (tried (pg_rows pg))
         @ map effect_key (take n (filter (\<lambda>e. ef_effect_id e \<in> set work) es))
       \<and> n \<le> length (filter (\<lambda>e. ef_effect_id e \<in> set work) es) \<and> (pg_halt pg \<longrightarrow> n = 0 \<and> pg_halt pg')
       \<and> (\<not> pg_halt pg' \<longrightarrow> n = length (filter (\<lambda>e. ef_effect_id e \<in> set work) es)))"
proof (induction es arbitrary: pg s)
  case (Cons e es)
  let ?go = "\<not> pg_halt pg \<and> ef_effect_id e \<in> set work" and ?w = "filter (\<lambda>e. ef_effect_id e \<in> set work) es"
  from Cons.prems(1) obtain s1 pg1 where one: "loop_row h u sid work (list_row u e) pg s = (s1, Inr pg1)"
    and rest: "loop_rows h u sid work es pg1 s1 = (s', Inr pg')" by (auto simp: bind_Inr_iff)
  note row = loop_row_ok [OF one Cons.prems(2), unfolded listed_list_row]
  from Cons.IH [OF rest] row obtain n where n: "progress_ok h u pg'"
    "map row_key (tried (pg_rows pg')) = map row_key (tried (pg_rows pg1)) @ map effect_key (take n ?w)" "n \<le> length ?w"
    "pg_halt pg1 \<longrightarrow> n = 0 \<and> pg_halt pg'" "\<not> pg_halt pg' \<longrightarrow> n = length ?w" by blast
  show ?case
  proof (cases ?go)
    case True
    with row obtain rr where "tried (pg_rows pg1) = tried (pg_rows pg) @ [rr]" "row_key rr = effect_key e" by blast
    with True n show ?thesis by (intro conjI exI [of _ "Suc n"]) auto
  next
    case False
    with row have same: "tried (pg_rows pg1) = tried (pg_rows pg)" "pg_halt pg1 = pg_halt pg" by blast+
    have "n = 0 \<or> ef_effect_id e \<notin> set work" using False n(4) same by auto
    with False n same show ?thesis
      by (cases "ef_effect_id e \<in> set work") (auto intro!: exI [of _ n])
  qed
qed (simp add: give_def)

lemma lifo_sorted: "sorted_wrt (\<lambda>a b. ef_seq a \<ge> ef_seq b) (lifo es)"
proof -
  have "sorted (map (\<lambda>e. - ef_seq e) (lifo es))" by (simp add: lifo_def)
  then show ?thesis by (simp add: sorted_map)
qed

lemma lifo_facts [simp]: "mset (lifo es) = mset es" "set (lifo es) = set es"
  by (simp_all add: lifo_def)

lemma work_ids:
  assumes "distinct (map ef_effect_id es)"
  shows "filter (\<lambda>e. ef_effect_id e \<in> ef_effect_id ` set (work_list n es)) es = work_list n es"
  unfolding work_list_def
proof (rule filter_cong [OF HOL.refl])
  fix e assume "e \<in> set es"
  with assms show "(ef_effect_id e \<in> ef_effect_id ` set (filter (\<lambda>e. selected e \<and> \<not> below n e) es)) = (selected e \<and> \<not> below n e)"
    by (auto simp: distinct_map dest: inj_onD)
qed

text \<open>The effects the undo lists are those at its start.\<close>

lemma set_saga_status_effects:
  "set_saga_status sid st s = (s', Inr x) \<Longrightarrow> mem_list_effects (en_ledger s') k = mem_list_effects (en_ledger s) k
     \<and> mem_get_effect (en_ledger s') k2 = mem_get_effect (en_ledger s) k2"
  by (auto simp: set_saga_status_def on_ledger_def modifies_def mem_list_effects_def mem_get_effect_def mem_upsert_saga_def split: option.splits)

lemma undo_saga_loop:
  assumes "undo_saga h u sid s = (s', Inr rep)"
  obtains s0 s1 t pg where
    "mem_list_effects (en_ledger s0) sid = mem_list_effects (en_ledger s) sid"
    "loop_rows h u sid (map ef_effect_id (work_list (uo_to_seq u) (lifo (mem_list_effects (en_ledger s) sid))))
       (lifo (mem_list_effects (en_ledger s) sid)) start_progress s0 = (s1, Inr pg)"
    "finish_undo h u sid (make_report sid t (pg_halted pg) (pg_rows pg)) (pg_error pg) s1 = (s', Inr rep)"
proof -
  obtain t n where t: "\<forall>f :: int \<Rightarrow> ('a engine, undo_report) action. bind (now_of h (exec_opts_of u)) f s = f t (s\<lparr>en_draws := n\<rparr>)"
    using bind_now by blast
  let ?s = "s\<lparr>en_draws := n\<rparr>"
  from assms obtain s0 pg s1 where run: "only_if (\<not> uo_dry_run u) (set_saga_status sid ''undoing'') ?s = (s0, Inr ())"
    "loop_rows h u sid (map ef_effect_id (work_list (uo_to_seq u) (lifo (mem_list_effects (en_ledger s0) sid))))
       (lifo (mem_list_effects (en_ledger s0) sid)) start_progress s0 = (s1, Inr pg)"
    "finish_undo h u sid (make_report sid (pf_iso (eh_pf h) t) (pg_halted pg) (pg_rows pg)) (pg_error pg) s1 = (s', Inr rep)"
    by (auto simp: undo_saga_def bind_of_ledger t [rule_format] bind_Inr_iff throw_def of_ledger_def reads_def split: if_splits)
  have "mem_list_effects (en_ledger s0) sid = mem_list_effects (en_ledger s) sid"
    using run(1) set_saga_status_effects [of sid "''undoing''" ?s s0 "()"]
    by (cases "uo_dry_run u") (auto simp: only_if_def give_def)
  with run(2,3) that show thesis by simp
qed

lemma finish_undo_report: "finish_undo h u sid rep err s = (s', Inr rep') \<Longrightarrow> rep' = rep \<and> err = None"
  by (auto simp: finish_undo_def bind_Inr_iff give_def throw_def split: option.splits)

text \<open>
  C1: the undo goes through the log backwards and never over a failure.  The effects it attempts are, in
  this order, the first ones of the work list, which is sorted by descending sequence number.  When the
  undo was not halted it attempted all of them; when it was, the reported halt is the last attempted
  effect, and that one was neither compensated nor skipped.  When failures halt the undo and no
  compensator is independent, every effect but the last attempted was compensated or skipped.
\<close>

theorem undo_lifo:
  assumes run: "undo_saga h u sid s = (s', Inr rep)"
    and ids: "distinct (map ef_effect_id (mem_list_effects (en_ledger s) sid))"
  shows "sorted_wrt (\<lambda>a b. ef_seq a \<ge> ef_seq b) (work_list (uo_to_seq u) (lifo (mem_list_effects (en_ledger s) sid)))
    \<and> map row_key (tried (ur_effects rep))
        = map effect_key (take (length (tried (ur_effects rep))) (work_list (uo_to_seq u) (lifo (mem_list_effects (en_ledger s) sid))))
    \<and> (case ur_halted_at rep of
         None \<Rightarrow> length (tried (ur_effects rep)) = length (work_list (uo_to_seq u) (lifo (mem_list_effects (en_ledger s) sid)))
           \<and> (strict u \<longrightarrow> list_all undone_ok (tried (ur_effects rep)))
       | Some n \<Rightarrow> tried (ur_effects rep) \<noteq> [] \<and> rr_seq (last (tried (ur_effects rep))) = n \<and> \<not> undone_ok (last (tried (ur_effects rep)))
           \<and> (strict u \<longrightarrow> list_all undone_ok (butlast (tried (ur_effects rep)))))"
proof -
  let ?all = "lifo (mem_list_effects (en_ledger s) sid)"
  let ?work = "work_list (uo_to_seq u) ?all"
  from undo_saga_loop [OF run] obtain s0 s1 t pg where loop: "loop_rows h u sid (map ef_effect_id ?work) ?all start_progress s0 = (s1, Inr pg)"
    and fin: "finish_undo h u sid (make_report sid t (pg_halted pg) (pg_rows pg)) (pg_error pg) s1 = (s', Inr rep)" by metis
  have "progress_ok h u start_progress" by (simp add: progress_ok_def start_progress_def tried_def)
  note ok = loop_rows_ok [OF loop this]
  have "mset (map ef_effect_id ?all) = mset (map ef_effect_id (mem_list_effects (en_ledger s) sid))" by (simp only: mset_map lifo_facts)
  then have "distinct (map ef_effect_id ?all)" using ids by (metis mset_eq_imp_distinct_iff)
  note work = work_ids [OF this, of "uo_to_seq u"]
  have rep: "ur_effects rep = pg_rows pg" "ur_halted_at rep = pg_halted pg"
    using finish_undo_report [OF fin] by (simp_all add: make_report_def)
  obtain n where n: "map row_key (tried (pg_rows pg)) = map effect_key (take n ?work)" "n \<le> length ?work" "\<not> pg_halt pg \<longrightarrow> n = length ?work"
    using ok by (auto simp: work start_progress_def tried_def)
  have len: "length (tried (pg_rows pg)) = n" using n(1,2) by (metis length_map length_take min.absorb2)
  have "sorted_wrt (\<lambda>a b. ef_seq a \<ge> ef_seq b) ?work" unfolding work_list_def by (rule sorted_wrt_filter [OF lifo_sorted])
  with n len ok show ?thesis unfolding rep
    by (cases "pg_halt pg") (auto simp: progress_ok_def)
qed

definition sample_open :: "string \<Rightarrow> int \<Rightarrow> event" where
  "sample_open k n = sample_typed ''effect_opened'' (Some k) (JObj [(''effect_id'', JStr k), (''seq'', JInt n), (''tier'', JStr ''T2'')])"

definition sample_close :: "string \<Rightarrow> event" where
  "sample_close k = sample_typed ''effect_closed'' (Some k) (JObj [(''status'', JStr ''landed'')])"

definition sample_saga :: "event list \<Rightarrow> sample_world engine" where
  "sample_saga evs = sample_engine\<lparr>en_ledger := create_memory sample_platform evs 0\<rparr>"

definition sample_undo_signature :: signature where
  "sample_undo_signature = builtin_signature ''c'' (MSdkFn ''m'' ''f'') T2 ([JObj [(''kind'', JStr ''noop''), (''reason'', JStr ''none'')]], [])"

definition sample_undo_opts :: "sample_world undo_opts" where
  "sample_undo_opts = \<lparr>uo_ops = sample_ops, uo_to_seq = None, uo_dry_run = False, uo_continue_on_failure = None, uo_halt_on_failure = None,
     uo_allow_drafted = None, uo_credentials = None, uo_ttl = None, uo_wait = Some 1, uo_process_id = ''p'', uo_now = None,
     uo_match = (\<lambda>_. Some sample_undo_signature), uo_probe = None, uo_probe_attempts = None, uo_idle = (\<lambda>w. w), uo_coordinator = None,
     uo_drafted_env = None, uo_drafted_allow = None, uo_draft = sample_draft_opts, uo_verify = sample_verify_opts, uo_live_rows = True\<rparr>"

definition sample_two_effects :: "sample_world engine" where
  "sample_two_effects = sample_saga [sample_open ''e'' 4, sample_close ''e'', sample_open ''f'' 5, sample_close ''f'']"

definition report_of :: "'w engine \<times> (engine_error + undo_report) \<Rightarrow> undo_report option" where
  "report_of sr = (case snd sr of Inr rep \<Rightarrow> Some rep | Inl e \<Rightarrow> None)"

definition sample_dry_opts :: "sample_world undo_opts" where
  "sample_dry_opts = sample_undo_opts\<lparr>uo_dry_run := True\<rparr>"

definition sample_dry_run :: "sample_world engine \<times> (engine_error + undo_report)" where
  "sample_dry_run = undo_saga sample_host sample_dry_opts ''s'' sample_two_effects"

lemma sample_dry_report:
  obtains s' rep where "undo_saga sample_host sample_dry_opts ''s'' sample_two_effects = (s', Inr rep)" "ur_halted_at rep = None"
    "report_of sample_dry_run = Some rep" "ur_attempted rep = 2" "length (tried (ur_effects rep)) = 2"
proof -
  have "map_option (\<lambda>rep. (ur_halted_at rep, ur_attempted rep, length (tried (ur_effects rep)))) (report_of sample_dry_run) = Some (None, 2, 2)"
    by code_simp
  with that show thesis
    by (cases "undo_saga sample_host sample_dry_opts ''s'' sample_two_effects") (auto simp: report_of_def sample_dry_run_def split: sum.splits)
qed

lemma undo_lifo_witness:
  "\<exists>rep. report_of sample_dry_run = Some rep \<and> map row_key (tried (ur_effects rep)) = [(''f'', 5), (''e'', 4)]"
proof -
  have work: "map effect_key (work_list None (lifo (mem_list_effects (en_ledger sample_two_effects) ''s''))) = [(''f'', 5), (''e'', 4)]"
    "distinct (map ef_effect_id (mem_list_effects (en_ledger sample_two_effects) ''s''))"
    by code_simp+
  obtain s' rep where run: "undo_saga sample_host sample_dry_opts ''s'' sample_two_effects = (s', Inr rep)" "report_of sample_dry_run = Some rep"
    and rep: "length (tried (ur_effects rep)) = 2" by (rule sample_dry_report)
  have "uo_to_seq sample_dry_opts = None" by (simp add: sample_undo_opts_def sample_dry_opts_def)
  with undo_lifo [OF run(1) work(2)] have "map row_key (tried (ur_effects rep))
      = take 2 (map effect_key (work_list None (lifo (mem_list_effects (en_ledger sample_two_effects) ''s''))))" by (simp only: rep take_map)
  with work(1) run(2) show ?thesis by simp
qed



section \<open>Dry runs\<close>

lemma dry_row:
  assumes "uo_dry_run u" "ef_status (row_now r (en_ledger s)) \<noteq> ''in_doubt''"
  shows "undo_row h u sid rc r s = (s, Inr ((row_outcome (row_now r (en_ledger s)) OSkipped)\<lparr>rr_completeness := Some Full\<rparr>, GoOn))"
  using assms by (simp add: undo_row_def undo_landed_def bind_the_row give_def)

definition untouched :: "report_row \<Rightarrow> bool" where
  "untouched rr \<longleftrightarrow> rr_outcome rr \<in> {OSkipped, ONotAttempted}"

lemma dry_loop_row:
  assumes "uo_dry_run u" "ef_status (row_now r (en_ledger s)) \<noteq> ''in_doubt''" "list_all untouched (pg_rows pg)"
  shows "fst (loop_row h u sid work r pg s) = s
    \<and> (case snd (loop_row h u sid work r pg s) of Inr pg' \<Rightarrow> list_all untouched (pg_rows pg') | Inl e \<Rightarrow> True)"
proof (cases "pg_halt pg \<or> ef_effect_id (row_now r (en_ledger s)) \<notin> set work")
  case True
  then show ?thesis using assms(3)
    by (auto simp: loop_row_def bind_the_row give_def pass_row_def push_row_def untouched_def Let_def)
next
  case False
  show ?thesis
  proof (cases "projection_to_receipt (row_now r (en_ledger s))")
    case None
    with False show ?thesis by (simp add: loop_row_def bind_the_row throw_def)
  next
    case (Some rc)
    note row = bind_Inr [where m = "undo_row h u sid rc r", OF dry_row [OF assms(1,2)]]
    from False Some assms(3) show ?thesis
      by (simp add: loop_row_def bind_the_row row give_def after_row_def push_row_def untouched_def Let_def)
  qed
qed

lemma dry_loop:
  "uo_dry_run u \<Longrightarrow> \<forall>e \<in> set es. ef_status (row_now (list_row u e) (en_ledger s)) \<noteq> ''in_doubt'' \<Longrightarrow> list_all untouched (pg_rows pg) \<Longrightarrow>
     fst (loop_rows h u sid work es pg s) = s
     \<and> (case snd (loop_rows h u sid work es pg s) of Inr pg' \<Rightarrow> list_all untouched (pg_rows pg') | Inl e \<Rightarrow> True)"
proof (induction es arbitrary: pg)
  case Nil
  then show ?case by (simp add: give_def)
next
  case (Cons e es)
  then have now: "ef_status (row_now (list_row u e) (en_ledger s)) \<noteq> ''in_doubt''" by simp
  obtain x where x: "loop_row h u sid work (list_row u e) pg s = (s, x)" "case x of Inr pg' \<Rightarrow> list_all untouched (pg_rows pg') | Inl e \<Rightarrow> True"
    using dry_loop_row [OF Cons.prems(1) now Cons.prems(3), of h sid work] by (metis prod.collapse)
  show ?case
  proof (cases x)
    case (Inl err)
    with x show ?thesis by (simp add: bind_Inl)
  next
    case (Inr pg1)
    with x Cons.IH [of pg1] Cons.prems show ?thesis by (simp add: bind_Inr [of _ s s pg1])
  qed
qed

text \<open>
  C22: a dry run changes nothing.  When no effect of the ledger is in doubt, the dry run of an undo leaves the
  ledger, with the status of the saga, and the outside world as they were, whether it ends in a report or
  in an error, and the report says of every effect that it was skipped or not attempted.
\<close>

theorem undo_dry_run:
  assumes "undo_saga h u sid s = (s', x)" "uo_dry_run u"
    and clear: "\<forall>(k, e) \<in> set (pj_effects (ml_pj (en_ledger s))). ef_status e \<noteq> ''in_doubt''"
  shows "en_ledger s' = en_ledger s \<and> en_world s' = en_world s
    \<and> (case x of Inr rep \<Rightarrow> list_all untouched (ur_effects rep) | Inl e \<Rightarrow> True)"
proof (cases "mem_get_saga (en_ledger s) sid")
  case None
  then show ?thesis using assms(1) by (auto simp: undo_saga_def bind_of_ledger throw_def)
next
  case (Some sa)
  obtain t n where t: "\<forall>f :: int \<Rightarrow> ('a engine, undo_report) action. bind (now_of h (exec_opts_of u)) f s = f t (s\<lparr>en_draws := n\<rparr>)"
    using bind_now by blast
  let ?s = "s\<lparr>en_draws := n\<rparr>" and ?all = "lifo (mem_list_effects (en_ledger s) sid)"
  let ?work = "map ef_effect_id (work_list (uo_to_seq u) ?all)"
  have "ef_status (row_now (list_row u e) (en_ledger ?s)) \<noteq> ''in_doubt''" if "e \<in> set ?all" for e
  proof -
    have "ef_status e \<noteq> ''in_doubt''" using that clear by (auto simp: mem_list_effects_def)
    moreover have "ef_status e' \<noteq> ''in_doubt''" if "mem_get_effect (en_ledger s) k = Some e'" for e' k
      using that clear by (auto simp: mem_get_effect_def dest: map_of_SomeD)
    ultimately show ?thesis
      by (cases "mem_get_effect (en_ledger s) (ef_effect_id e)") (auto simp: row_now_def list_row_def)
  qed
  with dry_loop [OF assms(2), of ?all ?s start_progress h sid ?work]
  obtain y where y: "loop_rows h u sid ?work ?all start_progress ?s = (?s, y)"
    "case y of Inr pg' \<Rightarrow> list_all untouched (pg_rows pg') | Inl e \<Rightarrow> True"
    by (cases "loop_rows h u sid ?work ?all start_progress ?s") (auto simp: start_progress_def)
  have "undo_saga h u sid s = bind (loop_rows h u sid ?work ?all start_progress) (\<lambda>pg.
           finish_undo h u sid (make_report sid (pf_iso (eh_pf h) t) (pg_halted pg) (pg_rows pg)) (pg_error pg)) ?s"
    using Some assms(2) by (simp add: undo_saga_def bind_of_ledger t [rule_format] only_if_def)
  with y assms(1,2) show ?thesis
    by (cases y) (auto simp: bind_Inl bind_Inr finish_undo_def only_if_def give_def throw_def make_report_def split: option.splits)
qed

lemma undo_dry_run_witness:
  "en_ledger (fst sample_dry_run) = en_ledger sample_two_effects \<and> en_world (fst sample_dry_run) = en_world sample_two_effects"
proof -
  have clear: "\<forall>(k, e) \<in> set (pj_effects (ml_pj (en_ledger sample_two_effects))). ef_status e \<noteq> ''in_doubt''" by code_simp
  have "undo_saga sample_host sample_dry_opts ''s'' sample_two_effects = (fst sample_dry_run, snd sample_dry_run)"
    by (simp add: sample_dry_run_def)
  from undo_dry_run [OF this _ clear] show ?thesis by (simp add: sample_dry_opts_def)
qed

section \<open>What the undo leaves to people\<close>

lemma keeps_returns:
  assumes "keeps idle m" "returns m Q" "\<And>a. Q a \<Longrightarrow> keeps idle (f a)"
  shows "keeps idle (bind m f)"
  unfolding keeps_def
proof
  fix s
  obtain s' r where m: "m s = (s', r)" by (cases "m s")
  with assms(1) have first: "idle s s'" by (rule keepsD)
  show "idle s (fst (bind m f s))"
  proof (cases r)
    case (Inl e)
    with m first show ?thesis by (simp add: bind_def)
  next
    case (Inr a)
    with m assms(2) have "Q a" by (auto dest: returnsD)
    with assms(3) have "idle s' (fst (f a s'))" by (simp add: keeps_def)
    with m Inr first show ?thesis by (simp add: bind_def idle.trans)
  qed
qed

lemma the_row_idle [simp]: "keeps idle (the_row r)"
  by (simp add: the_row_def of_ledger_def idle.reads)

lemma store_row_idle [simp]: "keeps idle (store_row f r)"
  unfolding store_row_def
  by (intro idle.bind) (auto simp: on_ledger_def intro!: idle.modifies, simp add: idle_def mem_upsert_effect_def)

lemma persist_idle [simp]: "keeps idle (persist_state r st)" "keeps idle (persist_from r a b)" "keeps idle (persist_transition r b)"
proof -
  show p: "keeps idle (persist_state r st)" for st unfolding persist_state_def by simp
  have l: "keeps idle (lift x)" for x by (cases x) (simp_all add: lift_def keeps_def idle_def)
  show "keeps idle (persist_from r a b)" unfolding persist_from_def by (intro idle.bind p l)
  show "keeps idle (persist_transition r b)" unfolding persist_transition_def by (intro idle.bind p l the_row_idle)
qed

lemma row_event_idle [simp]: "keeps idle (row_event h sid type payload r)" "keeps idle (raise_row h sid reason b r)"
proof -
  have "keeps events_only (row_event h sid type payload r)" unfolding row_event_def by (intro eo.bind) simp_all
  then show "keeps idle (row_event h sid type payload r)" by (rule events_only_idle)
  show "keeps idle (raise_row h sid reason b r)" unfolding raise_row_def by (intro events_only_idle) simp
qed

lemma compile_for_idle [simp]: "keeps idle (compile_for h u rc)"
proof -
  have n: "keeps idle (now_of h xo)" "keeps idle (new_id h)" for xo :: "'a exec_opts" by (intro events_only_idle; simp)+
  have p: "keeps idle (run_pipeline h rc pp)" for pp by (auto simp: keeps_def run_pipeline_def idle_def split: prod.split)
  have q: "keeps idle (on_ledger (mem_put_plan pl))" for pl
    unfolding on_ledger_def by (rule idle.modifies) (simp add: idle_def mem_put_plan_def)
  have d: "keeps idle (draft_for h u rc)" unfolding draft_for_def
    by (intro idle.bind n p) (auto split: pipeline_result.split intro!: idle.bind q)
  have c: "keeps idle (case compile_plan (eh_pf h) rc sg os of Rejected rj \<Rightarrow> give (refused_with rj) | Threw \<Rightarrow> throw type_error | Compiled p \<Rightarrow> give (Inr (p, None)))" for sg os
    by (simp split: compile_result.split)
  show ?thesis unfolding compile_for_def
    by (intro idle.case_option_action idle.if_action idle.bind n c d) simp_all
qed

lemma hand_over_idle [simp]: "keeps idle (hand_over h sid reason x p r)" "keeps idle (undo_refused h sid code r)"
  "keeps idle (undo_unavailable h sid e r)" "keeps idle (announce_row h sid r)"
  unfolding hand_over_def undo_refused_def undo_unavailable_def announce_row_def
  by (intro idle.bind idle.if_action; simp)+

lemma undo_planned_idle: "\<not> runnable rc p \<Longrightarrow> keeps idle (undo_planned h u sid rc p v r)"
  unfolding undo_planned_def by (intro idle.bind idle.if_action) (simp_all add: runnable_def)

text \<open>
  C20: the undo executes nothing it must not execute on its own.  An effect that is not in doubt, and for
  which no plan can be made that the undo may run without a person (an irreversible effect, a manual or a
  risky compensator, a plan that is refused, no compensator at all), leaves the outside world and all
  attempts untouched, and is not reported as compensated.
\<close>

theorem undo_withholds:
  assumes run: "undo_row h u sid rc r s = (s', x)" and rc: "projection_to_receipt (row_now r (en_ledger s)) = Some rc"
    and landed: "rc_status rc \<noteq> InDoubt" and none: "\<forall>p v. plan_made h u rc p v \<longrightarrow> \<not> runnable rc p"
  shows "en_world s' = en_world s \<and> ml_attempts (en_ledger s') = ml_attempts (en_ledger s)
    \<and> (case x of Inr (rr, st) \<Rightarrow> rr_outcome rr \<noteq> OCompensated | Inl e \<Rightarrow> True)"
proof -
  have planned: "keeps idle (case c of Inl (code, detail) \<Rightarrow> undo_refused h sid code r' | Inr (p, v) \<Rightarrow> undo_planned h u sid rc p v r')"
    if "\<forall>p v. c = Inr (p, v) \<longrightarrow> plan_made h u rc p v" for c r'
    using that none by (auto split: sum.split intro!: undo_planned_idle)
  have "keeps idle (undo_landed h u sid rc r)"
    unfolding undo_landed_def by (intro idle.bind idle.if_action keeps_returns [OF compile_for_idle compile_for_returns] planned) simp_all
  moreover have "ef_status (row_now r (en_ledger s)) \<noteq> ''in_doubt''"
    using projection_receipt [OF rc] landed by (auto simp: text_value_def effect_statuses_def)
  with run have "undo_landed h u sid rc r s = (s', x)" by (simp add: undo_row_def bind_the_row)
  ultimately have "idle s s'" by (rule keepsD)
  moreover have "rr_outcome rr \<noteq> OCompensated" if "x = Inr (rr, st)" for rr st
  proof -
    have "\<not> backed h u rc" unfolding backed_def using none by blast
    then show ?thesis using undo_row_reports [OF rc run [unfolded that]] by (auto simp: reports_def explained_def split: if_splits)
  qed
  ultimately show ?thesis by (auto simp: idle_def split: sum.split)
qed

definition sample_row_ref :: row_ref where
  "sample_row_ref = OwnRow (hd (mem_list_effects (en_ledger sample_two_effects) ''s''))"

lemma undo_withholds_witness:
  "en_world (fst (undo_row sample_host (sample_undo_opts\<lparr>uo_match := (\<lambda>_. None)\<rparr>) ''s''
      (the (projection_to_receipt (row_now sample_row_ref (en_ledger sample_two_effects)))) sample_row_ref sample_two_effects)) = []"
proof -
  let ?u = "sample_undo_opts\<lparr>uo_match := (\<lambda>_. None)\<rparr>" and ?rc = "the (projection_to_receipt (row_now sample_row_ref (en_ledger sample_two_effects)))"
  have "map_option rc_status (projection_to_receipt (row_now sample_row_ref (en_ledger sample_two_effects))) = Some Landed" by code_simp
  then have rc: "projection_to_receipt (row_now sample_row_ref (en_ledger sample_two_effects)) = Some ?rc" "rc_status ?rc \<noteq> InDoubt" by auto
  have none: "\<forall>p v. plan_made sample_host ?u ?rc p v \<longrightarrow> \<not> runnable ?rc p"
    by (simp add: plan_made_def sample_undo_opts_def)
  from undo_withholds [OF prod.collapse [symmetric] rc none] show ?thesis
    by (simp add: sample_two_effects_def sample_saga_def sample_engine_def)
qed

section \<open>The figures of the report\<close>

lemma filter_all_length: "length (filter P xs) = length xs \<longleftrightarrow> (\<forall>x \<in> set xs. P x)"
proof (induction xs)
  case (Cons x xs)
  have "length (filter P xs) \<noteq> Suc (length xs)" using length_filter_le [of P xs] by linarith
  with Cons show ?case by simp
qed simp

lemma outcome_counts:
  "length (filter was_attempted rows) = count_outcome {OCompensated} rows + count_outcome {OSkipped} rows + count_outcome {OFailed} rows
     + count_outcome {OEscalated, OManualRequired} rows"
proof (induction rows)
  case (Cons r rows)
  then show ?case by (cases "rr_outcome r") (simp_all add: was_attempted_def count_outcome_def)
qed (simp add: count_outcome_def)

lemma count_zero: "count_outcome xs rows = 0 \<longleftrightarrow> (\<forall>r \<in> set rows. rr_outcome r \<notin> xs)"
  by (auto simp: count_outcome_def filter_empty_conv)

text \<open>
  The figures of a report add up, and its status means what it says.  Every attempted effect is counted
  once; the saga is called undone exactly when every reported effect was compensated or skipped, in
  particular none is left unattempted; and the world counts as restored only when every effect was fully
  compensated.
\<close>

theorem undo_report_status:
  assumes "undo_saga h u sid s = (s', Inr rep)"
  shows "ur_attempted rep = ur_compensated rep + ur_skipped rep + ur_failed rep + ur_escalated rep
    \<and> (final_status rep = ''undone'' \<longleftrightarrow> list_all undone_ok (ur_effects rep))
    \<and> (ur_world_restored rep \<longleftrightarrow> ur_effects rep \<noteq> [] \<and> ur_compensated rep = length (ur_effects rep)
        \<and> list_all (\<lambda>rr. rr_completeness rr = Some Full) (ur_effects rep))"
proof -
  from undo_saga_loop [OF assms] obtain s0 s1 t pg where
    loop: "loop_rows h u sid (map ef_effect_id (work_list (uo_to_seq u) (lifo (mem_list_effects (en_ledger s) sid))))
       (lifo (mem_list_effects (en_ledger s) sid)) start_progress s0 = (s1, Inr pg)"
    and fin: "finish_undo h u sid (make_report sid t (pg_halted pg) (pg_rows pg)) (pg_error pg) s1 = (s', Inr rep)" by metis
  from finish_undo_report [OF fin] have rep: "rep = make_report sid t (pg_halted pg) (pg_rows pg)" by simp
  let ?rows = "pg_rows pg"
  have bad: "count_outcome {OFailed} ?rows = 0 \<and> count_outcome {OEscalated, OManualRequired} ?rows = 0" if "list_all undone_ok ?rows"
    using that by (auto simp: count_zero list_all_iff undone_ok_def)
  have restored: "world_restored ?rows \<Longrightarrow> list_all undone_ok ?rows"
    by (auto simp: world_restored_def undone_ok_def list_all_iff)
  have all_ok: "list_all (\<lambda>r. rr_outcome r = OCompensated \<or> rr_outcome r = OSkipped) ?rows \<longleftrightarrow> list_all undone_ok ?rows"
    by (simp add: list_all_iff undone_ok_def)
  have "count_outcome {OCompensated} ?rows = length ?rows \<longleftrightarrow> list_all (\<lambda>r. rr_outcome r = OCompensated) ?rows"
    by (simp add: count_outcome_def filter_all_length list_all_iff)
  then have "world_restored ?rows \<longleftrightarrow> ?rows \<noteq> [] \<and> count_outcome {OCompensated} ?rows = length ?rows \<and> list_all (\<lambda>rr. rr_completeness rr = Some Full) ?rows"
    by (auto simp: world_restored_def list_all_iff)
  moreover have "final_status rep = ''undone'' \<longleftrightarrow> list_all undone_ok ?rows"
    using bad restored by (auto simp: final_status_def rep make_report_def all_ok)
  ultimately show ?thesis by (simp add: rep make_report_def outcome_counts)
qed

lemma undo_report_status_witness: "\<exists>rep. report_of sample_dry_run = Some rep \<and> ur_skipped rep + ur_compensated rep + ur_failed rep + ur_escalated rep = 2"
proof -
  obtain s' rep where run: "undo_saga sample_host sample_dry_opts ''s'' sample_two_effects = (s', Inr rep)" "report_of sample_dry_run = Some rep"
    and rep: "ur_attempted rep = 2" by (rule sample_dry_report)
  with undo_report_status [OF run(1)] show ?thesis by auto
qed

section \<open>Deviations\<close>

text \<open>
  The dry run of a saga with an effect in doubt is not dry: it probes the outside world, and when the probe
  says that the effect has not landed, it stores the effect as abandoned.
\<close>

lemma dry_run_probes:
  assumes "uo_dry_run u" "ef_status e = ''in_doubt''"
    and resolved: "resolve_in_doubt h u (OwnRow e) rc s = (s1, Inr (r', ProbeNotLanded))"
  shows "fst (undo_row h u sid rc (OwnRow e) s) = s1 \<and> ef_status (listed r') = ''abandoned''"
proof -
  have "probed = ProbeLanded \<or> probed = ProbeNotLanded \<or> probed = ProbeUnknown" for probed by (cases probed) auto
  then have "ef_status (listed r') = ''abandoned''"
    using resolved by (fastforce simp: resolve_in_doubt_def bind_Inr_iff give_def store_row_def the_row_def of_ledger_def reads_def listed_def Let_def
        split: probe_result.splits)
  moreover have "fst (undo_row h u sid rc (OwnRow e) s) = s1"
    using assms(2) by (simp add: undo_row_def bind_the_row row_now_def bind_Inr [where m = "resolve_in_doubt h u (OwnRow e) rc", OF resolved] give_def)
  ultimately show ?thesis by simp
qed

text \<open>
  An effect whose compensation was escalated is not skipped by the next undo.  With rows of its own the loop
  then throws \<^verbatim>\<open>VR5012\<close>, and the saga stays in the state \<^verbatim>\<open>undoing\<close>; with the live rows of the memory ledger the
  event that announces the plan has meanwhile set the row to \<^verbatim>\<open>planned\<close>, and the compensation is executed,
  past the table of transitions.
\<close>

lemma escalated_not_skipped:
  "selected (e\<lparr>ef_status := ''landed'', ef_comp_state := ''escalated''\<rparr>)"
  "\<not> allowed ''escalated'' ''executing''"
proof -
  have "''landed'' \<in> set undo_status \<and> ''escalated'' \<notin> set terminal_skip" by code_simp
  then show "selected (e\<lparr>ef_status := ''landed'', ef_comp_state := ''escalated''\<rparr>)" by (simp add: selected_def)
qed code_simp

lemma escalated_again_throws:
  assumes "ef_comp_state e = ''escalated''" "row_event h sid ''compensation_planned'' (plan_payload p) (OwnRow e) s = (s1, Inr ())" "runnable rc p"
  shows "undo_planned h u sid rc p v (OwnRow e) s = (s1, Inl (VrError ''VR5012'' ''escalated -> executing''))"
proof -
  have "transition ''escalated'' ''executing'' = Inl (VrError ''VR5012'' ''escalated -> executing'')"
    using escalated_not_skipped(2) by (simp add: transition_def)
  then have "persist_transition (OwnRow e) ''executing'' s1 = (s1, Inl (VrError ''VR5012'' ''escalated -> executing''))"
    using assms(1) by (simp add: persist_transition_def bind_the_row row_now_def) (simp add: lift_def bind_def)
  note throws = bind_Inl [where m = "persist_transition (OwnRow e) ''executing''", OF this]
  note event = bind_Inr [where m = "row_event h sid ''compensation_planned'' (plan_payload p) (OwnRow e)", OF assms(2)]
  show ?thesis using assms(3) unfolding undo_planned_def event runnable_def by (simp add: throws)
qed

lemma escalated_again_live:
  assumes "mem_get_effect l (ef_effect_id e) = Some e" "ev_type ev = ''compensation_planned''" "ev_effect_id ev = Some (ef_effect_id e)"
  shows "ef_comp_state (row_now (LiveRow e) (l\<lparr>ml_pj := apply_event pf (ml_pj l) ev\<rparr>)) = ''planned''"
  using assms by (simp add: row_now_def mem_get_effect_def apply_event_def event_effect_id_def on_effect_def
      effect_change_def set_comp_state_def update_conv' Let_def)

text \<open>
  The second summary in \<^verbatim>\<open>report.ts\<close> overlooks the effects that were not attempted: it calls the world restored
  after an undo that was halted.
\<close>

definition sample_halted_rows :: "report_row list" where
  "sample_halted_rows =
     (let row = (\<lambda>n x. \<lparr>rr_seq = n, rr_effect_id = ''e'', rr_action = ''a'', rr_tier = ''T2'', rr_outcome = x,
        rr_completeness = Some Full, rr_leak = ''none'', rr_error = None, rr_escalation = None\<rparr>)
      in [row 2 OCompensated, row 1 ONotAttempted])"

lemma restored_despite_unattempted:
  "\<not> ur_world_restored (make_report ''s'' [] (Some 2) sample_halted_rows)"
  "world_restored_from_report (make_report ''s'' [] (Some 2) sample_halted_rows)"
  by code_simp+

end
