(* ===== verification/Redact.thy ===== *)
theory Redact
  imports Chain Resource
begin

text \<open>
  What is kept of an action's arguments: \<^verbatim>\<open>sdk-ts/src/redact.ts\<close>, which hides credentials before the arguments
  reach the ledger, and \<^verbatim>\<open>packages/core/src/intent.ts\<close>, which drops the volatile ones before the intent key.

  Patterns of the configuration are JavaScript regular expressions; the engine that matches them is the
  parameter \<open>rx\<close>: \<open>rx p s i\<close> is the length of the match of \<open>p\<close> that starts at position \<open>i\<close> of \<open>s\<close>, if there is
  one.  The salt of the commitments, which the code reads from a key file when the first value is hidden, is
  an argument; \<open>None\<close> is the exception of the file system.
\<close>

section \<open>Patterns\<close>

type_synonym regexps = "string \<Rightarrow> string \<Rightarrow> nat \<Rightarrow> nat option"

definition default_redact_paths :: "string list" where
  "default_redact_paths = [''$.password'', ''$.token'', ''$.authorization'', ''$.ssn'']"

definition default_redact_patterns :: "string list" where
  "default_redact_patterns = [''sk_live_[A-Za-z0-9]+'']"

definition sensitive_keys :: "string list" where
  "sensitive_keys = [''password'', ''token'', ''authorization'', ''ssn'']"

text \<open>\<^verbatim>\<open>replace\<close> with a global expression, from position \<open>i\<close> on; an empty match keeps the next character.\<close>

function replace_from :: "(nat \<Rightarrow> nat option) \<Rightarrow> string \<Rightarrow> nat \<Rightarrow> string" where
  "replace_from f s i =
     (if i > length s then []
      else case f i of
        Some (Suc n) \<Rightarrow> ''[REDACTED]'' @ replace_from f s (i + Suc n)
      | Some 0 \<Rightarrow> ''[REDACTED]'' @ take 1 (drop i s) @ replace_from f s (Suc i)
      | None \<Rightarrow> take 1 (drop i s) @ replace_from f s (Suc i))"
  by pat_completeness auto

termination replace_from
  by (relation "measure (\<lambda>(f, s, i). Suc (length s) - i)") auto

declare replace_from.simps [simp del]

definition hits :: "regexps \<Rightarrow> string \<Rightarrow> string \<Rightarrow> bool" where
  "hits rx p s \<longleftrightarrow> list_ex (\<lambda>i. rx p s i \<noteq> None) [0..<Suc (length s)]"

definition redact_one :: "regexps \<Rightarrow> string \<Rightarrow> string \<times> bool \<Rightarrow> string \<times> bool" where
  "redact_one rx p = (\<lambda>(s, hit). if hits rx p s then (replace_from (rx p s) s 0, True) else (s, hit))"

definition redact_string :: "regexps \<Rightarrow> string list \<Rightarrow> string \<Rightarrow> string \<times> bool" where
  "redact_string rx patterns s = foldl (\<lambda>acc p. redact_one rx p acc) (s, False) patterns"

section \<open>Hiding values\<close>

record redact_config =
  rd_rx :: regexps
  rd_paths :: "string list"
  rd_patterns :: "string list"
  rd_salt :: "string option"

text \<open>The commitments and the list of hidden places, as the walk fills them.\<close>

type_synonym hidden = "(string \<times> json) list \<times> string list"

definition path_matches :: "string \<Rightarrow> string list \<Rightarrow> bool" where
  "path_matches path configured \<longleftrightarrow>
     list_ex (\<lambda>raw. let want = (if starts_with raw ''$'' then raw else ''$.'' @ raw)
        in path = want \<or> (starts_with want ''$.'' \<and> ends_with path (drop 1 want))) configured"

definition commitment_for :: "platform \<Rightarrow> string \<Rightarrow> json \<Rightarrow> string option" where
  "commitment_for pf salt v = map_option (\<lambda>text. ''sha256:'' @ sha256_hex pf (salt @ text)) (canonicalize v)"

definition sensitive :: "redact_config \<Rightarrow> string \<Rightarrow> string option \<Rightarrow> bool" where
  "sensitive cfg path key \<longleftrightarrow>
     path_matches path (rd_paths cfg) \<or> (case key of Some k \<Rightarrow> to_lower k \<in> set sensitive_keys | None \<Rightarrow> False)"

definition hide :: "platform \<Rightarrow> redact_config \<Rightarrow> string \<Rightarrow> json \<Rightarrow> hidden \<Rightarrow> hidden option" where
  "hide pf cfg path v = (\<lambda>(commitments, redactions).
     case rd_salt cfg of
       None \<Rightarrow> None
     | Some salt \<Rightarrow> map_option (\<lambda>c. (set_key path (JStr c) commitments, redactions @ [path])) (commitment_for pf salt v))"

definition redacted_mark :: json where
  "redacted_mark = JObj [(''$redacted'', JBool True)]"

type_synonym 'a hiding = "hidden \<Rightarrow> ('a \<times> hidden) option"

text \<open>The values of an array and of an object, each walked at its own place.\<close>

fun redact_items :: "string \<Rightarrow> nat \<Rightarrow> (string \<Rightarrow> string option \<Rightarrow> json hiding) list \<Rightarrow> json list hiding" where
  "redact_items path i [] acc = Some ([], acc)"
| "redact_items path i (f # fs) acc =
     (case f (path @ ''['' @ show_nat i @ '']'') None acc of
        None \<Rightarrow> None
      | Some (w, acc1) \<Rightarrow> map_option (\<lambda>(ws, acc2). (w # ws, acc2)) (redact_items path (Suc i) fs acc1))"

fun redact_members :: "string \<Rightarrow> (string \<times> (string \<Rightarrow> string option \<Rightarrow> json hiding)) list \<Rightarrow> (string \<times> json) list hiding" where
  "redact_members path [] acc = Some ([], acc)"
| "redact_members path ((k, f) # fs) acc =
     (case f (path @ ''.'' @ k) (Some k) acc of
        None \<Rightarrow> None
      | Some (w, acc1) \<Rightarrow> map_option (\<lambda>(ws, acc2). ((k, w) # ws, acc2)) (redact_members path fs acc1))"

text \<open>A value at a sensitive place is hidden as a whole; any other one is walked by \<open>inner\<close>.\<close>

definition unless_sensitive :: "platform \<Rightarrow> redact_config \<Rightarrow> json \<Rightarrow> (string \<Rightarrow> json hiding) \<Rightarrow> string \<Rightarrow> string option \<Rightarrow> json hiding" where
  "unless_sensitive pf cfg v inner path key acc =
     (if sensitive cfg path key then map_option (\<lambda>acc'. (redacted_mark, acc')) (hide pf cfg path v acc) else inner path acc)"

definition keep_value :: "json \<Rightarrow> string \<Rightarrow> json hiding" where
  "keep_value v = (\<lambda>path acc. Some (v, acc))"

definition redact_text :: "platform \<Rightarrow> redact_config \<Rightarrow> string \<Rightarrow> string \<Rightarrow> string option \<Rightarrow> json hiding" where
  "redact_text pf cfg s path key acc =
     (let (shown, hit) = redact_string (rd_rx cfg) (rd_patterns cfg) s
      in if hit then map_option (\<lambda>acc'. (JStr shown, acc')) (hide pf cfg path (JStr s) acc)
         else unless_sensitive pf cfg (JStr s) (keep_value (JStr s)) path key acc)"

fun redact_walk :: "platform \<Rightarrow> redact_config \<Rightarrow> json \<Rightarrow> string \<Rightarrow> string option \<Rightarrow> json hiding" where
  "redact_walk pf cfg (JStr s) = redact_text pf cfg s"
| "redact_walk pf cfg (JArr vs) = unless_sensitive pf cfg (JArr vs) (\<lambda>path acc.
     map_option (map_prod JArr id) (redact_items path 0 (map (redact_walk pf cfg) vs) acc))"
| "redact_walk pf cfg (JObj kvs) = unless_sensitive pf cfg (JObj kvs) (\<lambda>path acc.
     map_option (map_prod JObj id) (redact_members path (map (\<lambda>(k, v). (k, redact_walk pf cfg v)) kvs) acc))"
| "redact_walk pf cfg v = unless_sensitive pf cfg v (keep_value v)"

record redacted =
  rd_args_hash :: string
  rd_observed :: json
  rd_commitments :: "(string \<times> json) list"
  rd_redactions :: "string list"

text \<open>\<^verbatim>\<open>redactArgs\<close>; \<open>None\<close> when the hash or a commitment throws.\<close>

definition redact_args :: "platform \<Rightarrow> redact_config \<Rightarrow> json \<Rightarrow> redacted option" where
  "redact_args pf cfg args =
     (case hash_jcs pf args of
        None \<Rightarrow> None
      | Some h \<Rightarrow> map_option (\<lambda>(observed, commitments, redactions).
          \<lparr>rd_args_hash = h, rd_observed = observed, rd_commitments = commitments, rd_redactions = redactions\<rparr>)
          (redact_walk pf cfg args ''$'' None ([], [])))"

section \<open>What is shown\<close>

text \<open>
  The value the walk leaves and the places it hides, without the commitments: a function of the value alone.
\<close>

fun shown_items :: "string \<Rightarrow> nat \<Rightarrow> (string \<Rightarrow> string option \<Rightarrow> json \<times> string list) list \<Rightarrow> json list \<times> string list" where
  "shown_items path i [] = ([], [])"
| "shown_items path i (f # fs) =
     (let (w, hs) = f (path @ ''['' @ show_nat i @ '']'') None; (ws, hs') = shown_items path (Suc i) fs in (w # ws, hs @ hs'))"

fun shown_members :: "string \<Rightarrow> (string \<times> (string \<Rightarrow> string option \<Rightarrow> json \<times> string list)) list \<Rightarrow> (string \<times> json) list \<times> string list" where
  "shown_members path [] = ([], [])"
| "shown_members path ((k, f) # fs) =
     (let (w, hs) = f (path @ ''.'' @ k) (Some k); (ws, hs') = shown_members path fs in ((k, w) # ws, hs @ hs'))"

fun shown :: "redact_config \<Rightarrow> json \<Rightarrow> string \<Rightarrow> string option \<Rightarrow> json \<times> string list" where
  "shown cfg (JStr s) path key =
     (if snd (redact_string (rd_rx cfg) (rd_patterns cfg) s) then (JStr (fst (redact_string (rd_rx cfg) (rd_patterns cfg) s)), [path])
      else if sensitive cfg path key then (redacted_mark, [path]) else (JStr s, []))"
| "shown cfg (JArr vs) path key =
     (if sensitive cfg path key then (redacted_mark, [path]) else map_prod JArr id (shown_items path 0 (map (shown cfg) vs)))"
| "shown cfg (JObj kvs) path key =
     (if sensitive cfg path key then (redacted_mark, [path])
      else map_prod JObj id (shown_members path (map (\<lambda>(k, v). (k, shown cfg v)) kvs)))"
| "shown cfg v path key = (if sensitive cfg path key then (redacted_mark, [path]) else (v, []))"

text \<open>A walk \<open>m\<close> leaves what \<open>sh\<close> says, lists its places and has a commitment for each of them.\<close>

definition follows :: "'a hiding \<Rightarrow> 'a \<times> string list \<Rightarrow> bool" where
  "follows m sh \<longleftrightarrow> (\<forall>c r x c' r'. m (c, r) = Some (x, (c', r')) \<longrightarrow>
     x = fst sh \<and> r' = r @ snd sh \<and> dom (map_of c') = dom (map_of c) \<union> set (snd sh))"

lemma followsD:
  "follows m sh \<Longrightarrow> m (c, r) = Some (x, (c', r')) \<Longrightarrow> x = fst sh \<and> r' = r @ snd sh \<and> dom (map_of c') = dom (map_of c) \<union> set (snd sh)"
  unfolding follows_def by blast

lemma follows_hide: "follows (\<lambda>acc. map_option (\<lambda>acc'. (w, acc')) (hide pf cfg path v acc)) (w, [path])"
  by (auto simp: follows_def hide_def set_key_def update_conv' split: option.splits)

lemma follows_keep: "follows (keep_value v path) (v, [])"
  by (simp add: follows_def keep_value_def)

lemma follows_unless_sensitive:
  assumes "follows m sh" "inner path = m"
  shows "follows (unless_sensitive pf cfg v inner path key) (if sensitive cfg path key then (redacted_mark, [path]) else sh)"
  using assms follows_hide [of redacted_mark pf cfg path v] by (simp add: unless_sensitive_def [abs_def])

lemma follows_kept:
  "follows (unless_sensitive pf cfg v (keep_value v) path key) (if sensitive cfg path key then (redacted_mark, [path]) else (v, []))"
  by (rule follows_unless_sensitive [OF follows_keep]) (rule refl)

lemma follows_text: "follows (redact_text pf cfg s path key) (shown cfg (JStr s) path key)"
  using follows_hide [where w = "JStr (fst (redact_string (rd_rx cfg) (rd_patterns cfg) s))" and v = "JStr s" and pf = pf and cfg = cfg and path = path]
    follows_kept [of pf cfg "JStr s" path key]
  by (simp add: redact_text_def [abs_def] split_beta)

lemma follows_items:
  assumes "list_all2 (\<lambda>f g. \<forall>path key. follows (f path key) (g path key)) fs gs"
  shows "follows (redact_items path i fs) (shown_items path i gs)"
  using assms
proof (induction fs gs arbitrary: i rule: list_all2_induct)
  case Nil
  then show ?case by (simp add: follows_def)
next
  case (Cons f fs g gs)
  show ?case
    unfolding follows_def
  proof (intro allI impI)
    fix c r x c' r' assume run: "redact_items path i (f # fs) (c, r) = Some (x, (c', r'))"
    then obtain w c1 r1 where f: "f (path @ ''['' @ show_nat i @ '']'') None (c, r) = Some (w, (c1, r1))"
      and rest: "map_option (\<lambda>(ws, acc2). (w # ws, acc2)) (redact_items path (Suc i) fs (c1, r1)) = Some (x, (c', r'))"
      by (auto split: option.splits)
    from rest obtain ws where ws: "redact_items path (Suc i) fs (c1, r1) = Some (ws, (c', r'))" and x: "x = w # ws" by auto
    from followsD [OF Cons.hyps(1) [rule_format] f] followsD [OF Cons.IH ws] x
    show "x = fst (shown_items path i (g # gs)) \<and> r' = r @ snd (shown_items path i (g # gs))
      \<and> dom (map_of c') = dom (map_of c) \<union> set (snd (shown_items path i (g # gs)))"
      by (simp add: split_beta Un_assoc)
  qed
qed

lemma follows_members:
  assumes "list_all2 (\<lambda>(k, f) (l, g). k = l \<and> (\<forall>path key. follows (f path key) (g path key))) fs gs"
  shows "follows (redact_members path fs) (shown_members path gs)"
  using assms
proof (induction fs gs rule: list_all2_induct)
  case Nil
  then show ?case by (simp add: follows_def)
next
  case (Cons kf fs kg gs)
  obtain k f g where kf: "kf = (k, f)" "kg = (k, g)" and fg: "\<forall>path key. follows (f path key) (g path key)"
    using Cons.hyps(1) by (cases kf; cases kg) auto
  show ?case
    unfolding follows_def
  proof (intro allI impI)
    fix c r x c' r' assume run: "redact_members path (kf # fs) (c, r) = Some (x, (c', r'))"
    then obtain w c1 r1 where f: "f (path @ ''.'' @ k) (Some k) (c, r) = Some (w, (c1, r1))"
      and rest: "map_option (\<lambda>(ws, acc2). ((k, w) # ws, acc2)) (redact_members path fs (c1, r1)) = Some (x, (c', r'))"
      by (auto simp: kf split: option.splits)
    from rest obtain ws where ws: "redact_members path fs (c1, r1) = Some (ws, (c', r'))" and x: "x = (k, w) # ws" by auto
    from followsD [OF fg [rule_format] f] followsD [OF Cons.IH ws] x
    show "x = fst (shown_members path (kg # gs)) \<and> r' = r @ snd (shown_members path (kg # gs))
      \<and> dom (map_of c') = dom (map_of c) \<union> set (snd (shown_members path (kg # gs)))"
      by (simp add: kf split_beta Un_assoc)
  qed
qed

lemma follows_map: "follows m sh \<Longrightarrow> follows (\<lambda>acc. map_option (map_prod g id) (m acc)) (map_prod g id sh)"
  unfolding follows_def by fastforce

lemma redact_walk_shown: "follows (redact_walk pf cfg v path key) (shown cfg v path key)"
proof (induction v arbitrary: path key)
  case (JStr s)
  then show ?case by (simp only: redact_walk.simps follows_text)
next
  case (JArr vs)
  have "follows (redact_items path 0 (map (redact_walk pf cfg) vs)) (shown_items path 0 (map (shown cfg) vs))"
    using JArr by (intro follows_items) (auto simp: list_all2_conv_all_nth)
  from follows_map [OF this, of JArr] show ?case
    by (simp only: redact_walk.simps shown.simps) (rule follows_unless_sensitive, assumption, rule refl)
next
  case (JObj kvs)
  have "follows (redact_members path (map (\<lambda>(k, v). (k, redact_walk pf cfg v)) kvs))
     (shown_members path (map (\<lambda>(k, v). (k, shown cfg v)) kvs))"
    by (rule follows_members) (use JObj in \<open>force simp: list.rel_map list_all2_same\<close>)
  from follows_map [OF this, of JObj] show ?case
    by (simp only: redact_walk.simps shown.simps) (rule follows_unless_sensitive, assumption, rule refl)
qed (simp_all only: redact_walk.simps shown.simps follows_kept)

section \<open>What hidden values can show\<close>

text \<open>
  Two values that agree at every place that is not sensitive.  A string in which a pattern matches is not hidden
  as a whole, even at a sensitive place.
\<close>

definition has_hit :: "redact_config \<Rightarrow> json \<Rightarrow> bool" where
  "has_hit cfg v \<longleftrightarrow> (case v of JStr s \<Rightarrow> snd (redact_string (rd_rx cfg) (rd_patterns cfg) s) | _ \<Rightarrow> False)"

inductive public_alike :: "redact_config \<Rightarrow> string \<Rightarrow> string option \<Rightarrow> json \<Rightarrow> json \<Rightarrow> bool"
  and items_alike :: "redact_config \<Rightarrow> string \<Rightarrow> nat \<Rightarrow> json list \<Rightarrow> json list \<Rightarrow> bool"
  and members_alike :: "redact_config \<Rightarrow> string \<Rightarrow> (string \<times> json) list \<Rightarrow> (string \<times> json) list \<Rightarrow> bool"
  for cfg where
  alike_same: "public_alike cfg path key v v"
| alike_hidden: "sensitive cfg path key \<Longrightarrow> \<not> has_hit cfg v \<Longrightarrow> \<not> has_hit cfg w \<Longrightarrow> public_alike cfg path key v w"
| alike_arrays: "items_alike cfg path 0 vs ws \<Longrightarrow> public_alike cfg path key (JArr vs) (JArr ws)"
| alike_objects: "members_alike cfg path kvs kws \<Longrightarrow> public_alike cfg path key (JObj kvs) (JObj kws)"
| alike_no_items: "items_alike cfg path i [] []"
| alike_items: "public_alike cfg (path @ ''['' @ show_nat i @ '']'') None v w \<Longrightarrow> items_alike cfg path (Suc i) vs ws
    \<Longrightarrow> items_alike cfg path i (v # vs) (w # ws)"
| alike_no_members: "members_alike cfg path [] []"
| alike_members: "public_alike cfg (path @ ''.'' @ k) (Some k) v w \<Longrightarrow> members_alike cfg path kvs kws
    \<Longrightarrow> members_alike cfg path ((k, v) # kvs) ((k, w) # kws)"

lemma shown_hidden: "sensitive cfg path key \<Longrightarrow> \<not> has_hit cfg v \<Longrightarrow> shown cfg v path key = (redacted_mark, [path])"
  by (cases v) (simp_all add: has_hit_def)

lemma shown_alike:
  "public_alike cfg path key v w \<Longrightarrow> shown cfg v path key = shown cfg w path key"
  "items_alike cfg path i vs ws \<Longrightarrow> shown_items path i (map (shown cfg) vs) = shown_items path i (map (shown cfg) ws)"
  "members_alike cfg path kvs kws \<Longrightarrow> shown_members path (map (\<lambda>(k, v). (k, shown cfg v)) kvs)
     = shown_members path (map (\<lambda>(k, v). (k, shown cfg v)) kws)"
  by (induction rule: public_alike_items_alike_members_alike.inducts) (simp_all add: shown_hidden)

lemma redact_args_shown:
  "redact_args pf cfg v = Some a \<Longrightarrow> rd_observed a = fst (shown cfg v ''$'' None)
     \<and> rd_redactions a = snd (shown cfg v ''$'' None) \<and> dom (map_of (rd_commitments a)) = set (rd_redactions a)"
  by (clarsimp simp: redact_args_def split: option.splits) (drule followsD [OF redact_walk_shown], simp)

text \<open>
  C9: the observed arguments do not depend on what is under a sensitive key or path.  Two argument values that differ
  there only, in values in which no pattern matches, are stored alike and with the same list of hidden places; and every
  hidden place has a commitment, and nothing else has one.
\<close>

theorem redact_noninterference:
  assumes "public_alike cfg ''$'' None v w" "redact_args pf cfg v = Some a" "redact_args pf cfg w = Some b"
  shows "rd_observed a = rd_observed b \<and> rd_redactions a = rd_redactions b
    \<and> dom (map_of (rd_commitments a)) = set (rd_redactions a)"
  using redact_args_shown [OF assms(2)] redact_args_shown [OF assms(3)] shown_alike(1) [OF assms(1)] by simp

text \<open>The default pattern, and the arguments on which the theorem is evaluated.\<close>

definition sk_live :: regexps where
  "sk_live p s i =
     (let t = drop i s; n = length (takeWhile (\<lambda>c. is_alpha c \<or> is_digit c) (drop 8 t))
      in if p = ''sk_live_[A-Za-z0-9]+'' \<and> starts_with t ''sk_live_'' \<and> 0 < n then Some (8 + n) else None)"

definition sample_redact :: redact_config where
  "sample_redact = \<lparr>rd_rx = sk_live, rd_paths = default_redact_paths, rd_patterns = default_redact_patterns, rd_salt = Some ''salt''\<rparr>"

definition login :: "string \<Rightarrow> json" where
  "login secret = JObj [(''user'', JStr ''ann''), (''Password'', JStr secret)]"

theorem redact_noninterference_witness:
  "rd_observed (the (redact_args sample_platform sample_redact (login ''one''))) =
   rd_observed (the (redact_args sample_platform sample_redact (login ''two'')))"
proof -
  have "sensitive sample_redact ''$.Password'' (Some ''Password'')" "\<not> has_hit sample_redact (JStr ''one'')"
    "\<not> has_hit sample_redact (JStr ''two'')" by code_simp+
  then have "public_alike sample_redact ''$'' None (login ''one'') (login ''two'')"
    unfolding login_def by (intro alike_objects alike_members alike_no_members alike_same) (auto intro: alike_hidden)
  moreover have "redact_args sample_platform sample_redact (login ''one'') \<noteq> None"
    "redact_args sample_platform sample_redact (login ''two'') \<noteq> None" by code_simp+
  ultimately show ?thesis
    using redact_noninterference by (metis option.collapse)
qed

text \<open>
  A string in which a pattern matches is returned before its key is looked at: of a password that has a live key in it
  the rest is stored.
\<close>

lemma hit_shows_password:
  "redact_args sample_platform sample_redact (login ''hunter2 sk_live_9'') \<noteq> None
   \<and> rd_observed (the (redact_args sample_platform sample_redact (login ''hunter2 sk_live_9''))) = login ''hunter2 [REDACTED]''"
  by code_simp

section \<open>Volatile arguments\<close>

text \<open>
  \<^verbatim>\<open>stripVolatile\<close>.  \<open>in\<close> is read as having an own property; the truncation of a number that is no integer is its
  text up to the point.
\<close>

definition volatile_names :: "string list" where
  "volatile_names = [''id'', ''uuid'', ''ulid'', ''guid'', ''ts'', ''time'', ''timestamp'', ''created_at'', ''updated_at'', ''nonce'',
     ''request_id'', ''idempotency_key'', ''trace_id'', ''span_id'', ''etag'', ''version'']"

definition is_hex :: "char \<Rightarrow> bool" where
  "is_hex c \<longleftrightarrow> is_digit c \<or> lower_char c \<in> set ''abcdef''"

definition fits :: "(char \<Rightarrow> bool) list \<Rightarrow> string \<Rightarrow> bool" where
  "fits ps s \<longleftrightarrow> list_all2 (\<lambda>p c. p c) ps s"

definition uuid_like :: "string \<Rightarrow> bool" where
  "uuid_like s \<longleftrightarrow> fits (replicate 8 is_hex @ [\<lambda>c. c = CHR ''-''] @ replicate 4 is_hex
     @ [\<lambda>c. c = CHR ''-'', \<lambda>c. c \<in> set ''12345678''] @ replicate 3 is_hex
     @ [\<lambda>c. c = CHR ''-'', \<lambda>c. lower_char c \<in> set ''89ab''] @ replicate 3 is_hex @ [\<lambda>c. c = CHR ''-''] @ replicate 12 is_hex) s"

definition ulid_like :: "string \<Rightarrow> bool" where
  "ulid_like s \<longleftrightarrow> length s = 26 \<and> list_all (\<lambda>c. is_digit c \<or> lower_char c \<in> set ''abcdefghjkmnpqrstvwxyz'') s"

definition zone_like :: "string \<Rightarrow> bool" where
  "zone_like s \<longleftrightarrow> s = ''Z'' \<or> fits [\<lambda>c. c \<in> set ''+-'', is_digit, is_digit, \<lambda>c. c = CHR '':'', is_digit, is_digit] s"

definition iso_like :: "string \<Rightarrow> bool" where
  "iso_like s \<longleftrightarrow>
     fits (replicate 4 is_digit @ [\<lambda>c. c = CHR ''-'', is_digit, is_digit, \<lambda>c. c = CHR ''-'', is_digit, is_digit,
       \<lambda>c. c = CHR ''T'', is_digit, is_digit, \<lambda>c. c = CHR '':'', is_digit, is_digit, \<lambda>c. c = CHR '':'', is_digit, is_digit]) (take 19 s)
     \<and> (let t = drop 19 s
        in zone_like t \<or> (starts_with t ''.'' \<and> takeWhile is_digit (tl t) \<noteq> [] \<and> zone_like (dropWhile is_digit (tl t))))"

definition epoch_like :: "string \<Rightarrow> bool" where
  "epoch_like s \<longleftrightarrow> list_all is_digit s \<and> (length s = 10 \<or> length s = 13)"

definition hex64_like :: "string \<Rightarrow> bool" where
  "hex64_like s \<longleftrightarrow> (let t = (if to_lower (take 7 s) = ''sha256:'' then drop 7 s else s) in length t = 64 \<and> list_all is_hex t)"

fun value_looks_volatile :: "json \<Rightarrow> bool" where
  "value_looks_volatile (JInt i) = epoch_like (show_int i)"
| "value_looks_volatile (JFrac s) = (CHR ''e'' \<notin> set s \<and> epoch_like (takeWhile (\<lambda>c. c \<noteq> CHR ''.'') s))"
| "value_looks_volatile (JStr s) = (uuid_like s \<or> ulid_like s \<or> iso_like s \<or> epoch_like s \<or> hex64_like s)"
| "value_looks_volatile v = False"

fun drop_parts :: "json \<Rightarrow> string list \<Rightarrow> json" where
  "drop_parts (JObj kvs) [p] = JObj (if map_of kvs p = None then kvs else AList.delete p kvs)"
| "drop_parts (JObj kvs) (p # ps) =
     (case map_of kvs p of None \<Rightarrow> JObj kvs | Some v \<Rightarrow> JObj (AList.update p (drop_parts v ps) kvs))"
| "drop_parts v ps = v"

definition path_parts :: "string \<Rightarrow> string list" where
  "path_parts path =
     (let p = (if starts_with path ''$.'' then drop 2 path else if starts_with path ''$'' then drop 1 path else path)
      in filter (\<lambda>x. x \<noteq> []) (js_split CHR ''.'' p))"

definition drop_at_path :: "json \<Rightarrow> string \<Rightarrow> json" where
  "drop_at_path v path = drop_parts v (path_parts path)"

definition volatile_member :: "string \<times> json \<Rightarrow> bool" where
  "volatile_member = (\<lambda>(k, v). to_lower k \<in> set volatile_names \<and> value_looks_volatile v)"

fun strip_heuristic :: "json \<Rightarrow> json" where
  "strip_heuristic (JArr vs) = JArr (map strip_heuristic vs)"
| "strip_heuristic (JObj kvs) = JObj (map (\<lambda>(k, v). (k, strip_heuristic v)) (filter (\<lambda>kv. \<not> volatile_member kv) kvs))"
| "strip_heuristic v = v"

definition strip_volatile :: "json \<Rightarrow> string list option \<Rightarrow> json" where
  "strip_volatile args declared =
     (case declared of Some (p # ps) \<Rightarrow> foldl drop_at_path args (p # ps) | _ \<Rightarrow> strip_heuristic args)"

lemma looks_volatile_strip [simp]: "value_looks_volatile (strip_heuristic v) = value_looks_volatile v"
  by (cases v) simp_all

lemma strip_heuristic_idem: "strip_heuristic (strip_heuristic v) = strip_heuristic v"
proof (induction v)
  case (JObj kvs)
  have "filter (\<lambda>kv. \<not> volatile_member kv) (map (\<lambda>(k, v). (k, strip_heuristic v)) (filter (\<lambda>kv. \<not> volatile_member kv) kvs))
    = map (\<lambda>(k, v). (k, strip_heuristic v)) (filter (\<lambda>kv. \<not> volatile_member kv) kvs)"
    by (auto simp: filter_id_conv volatile_member_def)
  moreover have "strip_heuristic (strip_heuristic v) = strip_heuristic v" if "(k, v) \<in> set kvs" for k v
    using JObj that by (auto simp: snds.simps)
  ultimately show ?case by auto
qed simp_all

end
