(* ===== verification/Shield.thy ===== *)
theory Shield
  imports Drafter Engine
begin

text \<open>
  What may stop an action before it runs: the LexShield adapter \<^verbatim>\<open>sdk-ts/src/policy/lexshield.ts\<close>, the policy on
  irreversible actions (\<^verbatim>\<open>preflightPolicy\<close> of \<^verbatim>\<open>sdk-ts/src/effect.ts\<close>), and the model classifier
  \<^verbatim>\<open>sdk-ts/src/classify/model.ts\<close>, which may only raise a tier.

  The remote service, the command line tool and the model's server are functions of the request; their
  timeouts are a reply of their own.  The environment variables are the record \<open>shield_env\<close>.
\<close>

section \<open>Decisions\<close>

datatype decision = Allow | Block | Challenge

fun decision_str :: "decision \<Rightarrow> string" where
  "decision_str Allow = ''allow''" | "decision_str Block = ''block''" | "decision_str Challenge = ''challenge''"

datatype shield_status = Unconfigured | Unreachable | TimedOut

datatype shield_result = ShieldOk decision | ShieldFail shield_status string

text \<open>\<^verbatim>\<open>??\<close> on the fields of a value: the first one that is neither null nor undefined.\<close>

definition first_field :: "json \<Rightarrow> string list \<Rightarrow> json option" where
  "first_field v ks = (case filter (\<lambda>k. \<not> nullish (obj_get v k)) ks of [] \<Rightarrow> None | k # _ \<Rightarrow> obj_get v k)"

definition parse_decision :: "json \<Rightarrow> decision option" where
  "parse_decision raw =
     (let d = to_upper (case first_field raw [''decision'', ''verdict'', ''action''] of Some v \<Rightarrow> js_string v | None \<Rightarrow> [])
      in if d = ''ALLOW'' then Some Allow else if d = ''BLOCK'' then Some Block else if d = ''CHALLENGE'' then Some Challenge else None)"

section \<open>Evaluation\<close>

record shield_env =
  se_url :: "string option"
  se_token :: "string option"
  se_pack :: "string option"
  se_cli :: bool

record shield_input =
  si_tool :: string
  si_args :: json
  si_pack :: "string option"
  si_url :: "string option"
  si_token :: "string option"
  si_cli :: bool

text \<open>What the service answers: the status, and the parsed body or the message of the exception of \<^verbatim>\<open>json()\<close>.\<close>

datatype http_reply = HttpTimeout | HttpThrew string | HttpReply int "string + json"

datatype cli_reply = CliTimeout | CliThrew string | CliExit int "string + json"

record shield_world =
  sw_fetch :: "(string \<Rightarrow> (string \<times> string) list \<Rightarrow> json \<Rightarrow> http_reply) option"
  sw_spawn :: "string list \<Rightarrow> cli_reply"

definition lexshield_configured :: "shield_env \<Rightarrow> bool" where
  "lexshield_configured env \<longleftrightarrow> nonempty (se_url env)"

definition auth_headers :: "shield_env \<Rightarrow> string option \<Rightarrow> (string \<times> string) list" where
  "auth_headers env token =
     [(''accept'', ''application/json''), (''content-type'', ''application/json'')]
     @ (let t = orelse_opt token (se_token env) in if nonempty t then [(''authorization'', ''Bearer '' @ the t)] else [])"

definition shield_endpoint :: "string \<Rightarrow> string" where
  "shield_endpoint url =
     (if ends_with url ''/evaluate'' then url
      else (if ends_with url ''/'' then butlast url else url) @ ''/evaluate'')"

definition shield_body :: "shield_input \<Rightarrow> shield_env \<Rightarrow> json" where
  "shield_body inp env =
     JObj ([(''tool'', JStr (si_tool inp)), (''args'', si_args inp)]
       @ (case orelse_opt (si_pack inp) (se_pack env) of Some p \<Rightarrow> [(''pack'', JStr p)] | None \<Rightarrow> []))"

definition decided :: "string + json \<Rightarrow> string \<Rightarrow> shield_result" where
  "decided body missing =
     (case body of
        Inl msg \<Rightarrow> ShieldFail Unreachable msg
      | Inr v \<Rightarrow> (case parse_decision v of Some d \<Rightarrow> ShieldOk d | None \<Rightarrow> ShieldFail Unreachable missing))"

definition evaluate_http :: "shield_world \<Rightarrow> shield_input \<Rightarrow> shield_env \<Rightarrow> string \<Rightarrow> shield_result" where
  "evaluate_http w inp env url =
     (case sw_fetch w of
        None \<Rightarrow> ShieldFail Unreachable ''no fetch''
      | Some fetch \<Rightarrow>
          (case fetch (shield_endpoint url) (auth_headers env (orelse_opt (si_token inp) (se_token env))) (shield_body inp env) of
             HttpTimeout \<Rightarrow> ShieldFail TimedOut ''lexshield_timeout''
           | HttpThrew msg \<Rightarrow> ShieldFail Unreachable msg
           | HttpReply st body \<Rightarrow>
               if \<not> (200 \<le> st \<and> st \<le> 299) then ShieldFail Unreachable (''lexshield http '' @ show_int st)
               else decided body ''lexshield response missing decision''))"

definition cli_args :: "shield_input \<Rightarrow> shield_env \<Rightarrow> string list" where
  "cli_args inp env =
     (let pack = orelse (orelse_opt (si_pack inp) (se_pack env)) []
      in [''evaluate'', ''--tool'', si_tool inp, ''--args'', json_stringify (if si_args inp = JNull then JObj [] else si_args inp)]
         @ (if pack \<noteq> [] then [''-c'', pack] else []))"

definition evaluate_cli :: "shield_world \<Rightarrow> shield_input \<Rightarrow> shield_env \<Rightarrow> shield_result" where
  "evaluate_cli w inp env =
     (case sw_spawn w (cli_args inp env) of
        CliTimeout \<Rightarrow> ShieldFail TimedOut ''lexshield_timeout''
      | CliThrew msg \<Rightarrow> ShieldFail Unreachable msg
      | CliExit code out \<Rightarrow>
          if code \<noteq> 0 then ShieldFail Unreachable (''lexshield cli exit '' @ show_int code)
          else decided out ''lexshield cli missing decision'')"

definition evaluate_lexshield :: "shield_world \<Rightarrow> shield_env \<Rightarrow> shield_input \<Rightarrow> shield_result" where
  "evaluate_lexshield w env inp =
     (let url = orelse_opt (si_url inp) (se_url env)
      in if si_cli inp \<or> (\<not> nonempty url \<and> se_cli env) then evaluate_cli w inp env
         else if \<not> nonempty url then ShieldFail Unconfigured ''LEXSHIELD_URL unset''
         else evaluate_http w inp env (the url))"

definition lexshield_blocks :: "shield_result \<Rightarrow> bool" where
  "lexshield_blocks r \<longleftrightarrow> r = ShieldOk Block \<or> r = ShieldOk Challenge"

definition lexshield_unreachable :: "shield_result \<Rightarrow> bool" where
  "lexshield_unreachable r \<longleftrightarrow> (case r of ShieldFail st _ \<Rightarrow> st \<noteq> Unconfigured | _ \<Rightarrow> False)"

section \<open>The policy\<close>

text \<open>Whether the action is blocked, and the reason that is recorded.\<close>

definition apply_shield_policy :: "bool \<Rightarrow> tier \<Rightarrow> shield_result \<Rightarrow> bool \<times> string option" where
  "apply_shield_policy block_t4 t r =
     (case r of
        ShieldOk d \<Rightarrow> (block_t4 \<and> (d = Block \<or> d = Challenge), Some (''lexshield_'' @ decision_str d))
      | ShieldFail Unconfigured _ \<Rightarrow> (block_t4 \<and> t = T4, None)
      | ShieldFail TimedOut _ \<Rightarrow> (block_t4, Some ''lexshield_timeout'')
      | ShieldFail Unreachable _ \<Rightarrow> (block_t4, Some ''lexshield_unreachable''))"

definition t4_blocked :: engine_error where
  "t4_blocked = vr VR1010 ''t4_blocked''"

text \<open>\<^verbatim>\<open>preflightPolicyLocal\<close>: whether it throws.\<close>

definition preflight_local :: "bool \<Rightarrow> classification \<Rightarrow> bool" where
  "preflight_local block_t4 cl \<longleftrightarrow> block_t4 \<and> cl_tier cl = T4"

definition action_json :: "action_ref \<Rightarrow> json" where
  "action_json a =
     JObj ([(''kind'', JStr (action_kind_str (ac_kind a))), (''name'', JStr (ac_name a))]
       @ opt_member ''version'' (ac_version a) @ opt_member ''target'' (ac_target a)
       @ [(''locality'', JStr (locality_str (ac_locality a)))])"

definition add_reason :: "string \<Rightarrow> classification \<Rightarrow> classification" where
  "add_reason r cl = (if r \<in> set (cl_reasons cl) then cl else cl\<lparr>cl_reasons := cl_reasons cl @ [r]\<rparr>)"

text \<open>What is sent for an action, and \<^verbatim>\<open>preflightPolicy\<close>: the classification with the recorded reason, and the exception.\<close>

definition shield_request :: "classification \<Rightarrow> action_ref option \<Rightarrow> shield_input" where
  "shield_request cl a =
     \<lparr>si_tool = (case a of Some a \<Rightarrow> ac_name a
        | None \<Rightarrow> (case cl_sources cl of s # _ \<Rightarrow> (case cs_reasons s of r # _ \<Rightarrow> r | [] \<Rightarrow> ''action'') | [] \<Rightarrow> ''action'')),
      si_args = JObj [(''tier'', JStr (tier_str (cl_tier cl))), (''reasons'', JArr (map JStr (cl_reasons cl))),
        (''action'', case a of Some a \<Rightarrow> action_json a | None \<Rightarrow> JNull)],
      si_pack = None, si_url = None, si_token = None, si_cli = False\<rparr>"

definition preflight_policy ::
  "shield_world \<Rightarrow> shield_env \<Rightarrow> bool \<Rightarrow> classification \<Rightarrow> action_ref option \<Rightarrow> classification \<times> engine_error option" where
  "preflight_policy w env block_t4 cl a =
     (if \<not> lexshield_configured env then (cl, if block_t4 \<and> cl_tier cl = T4 then Some t4_blocked else None)
      else
        let (block, recorded) = apply_shield_policy block_t4 (cl_tier cl) (evaluate_lexshield w env (shield_request cl a))
        in (case recorded of Some r \<Rightarrow> add_reason r cl | None \<Rightarrow> cl, if block then Some t4_blocked else None))"

lemma add_reason_fields [simp]:
  "cl_tier (add_reason r cl) = cl_tier cl" "cl_sources (add_reason r cl) = cl_sources cl"
  "set (cl_reasons (add_reason r cl)) = insert r (set (cl_reasons cl))"
  by (auto simp: add_reason_def)

lemma neither_refused: "(d = Block \<or> d = Challenge) \<longleftrightarrow> d \<noteq> Allow"
  by (cases d) simp_all


definition sample_shield :: "decision \<Rightarrow> shield_world" where
  "sample_shield d = \<lparr>sw_fetch = Some (\<lambda>_ _ _. HttpReply 200 (Inr (JObj [(''decision'', JStr (decision_str d))]))),
     sw_spawn = (\<lambda>_. CliThrew ''ENOENT'')\<rparr>"

definition sample_shield_env :: shield_env where
  "sample_shield_env = \<lparr>se_url = Some ''https://shield'', se_token = None, se_pack = None, se_cli = False\<rparr>"

definition sample_classification :: "tier \<Rightarrow> classification" where
  "sample_classification t = \<lparr>cl_tier = t, cl_sources = [], cl_reasons = [], cl_candidates = [], cl_scope_violation = False\<rparr>"


section \<open>The model classifier\<close>

text \<open>
  \<^verbatim>\<open>classifyModel\<close>.  \<open>cm_complete\<close> is the hook of the options and \<open>cm_remote\<close> the text that the model's server
  returns; \<open>None\<close> is an exception of either.  A failure of the request itself gives no tier.
\<close>

record classifier_view =
  cv_name :: string
  cv_kind :: action_kind
  cv_locality :: locality
  cv_shapes :: json

record model_verdict =
  mv_tier :: tier
  mv_reasons :: "string list"
  mv_model :: string
  mv_prompt_hash :: string

type_synonym model_cache = "(string \<times> int \<times> model_verdict) list"

record classifier_opts =
  cm_enabled :: "bool option"
  cm_model :: "string option"
  cm_env_model :: "string option"
  cm_complete :: "(classifier_view \<Rightarrow> tier option option) option"
  cm_remote :: "(classifier_view \<Rightarrow> string \<Rightarrow> string option) option"

definition default_classifier_model :: string where "default_classifier_model = ''grok-4-fast''"
definition model_cache_ttl :: int where "model_cache_ttl = 3600000"

definition classifier_enabled :: "classifier_opts \<Rightarrow> bool" where
  "classifier_enabled co \<longleftrightarrow>
     (case cm_enabled co of
        Some b \<Rightarrow> b
      | None \<Rightarrow> cm_complete co \<noteq> None \<or> nonempty (cm_model co)
          \<or> (nonempty (cm_env_model co) \<and> the (cm_env_model co) \<notin> {''null'', ''off''}))"

definition classifier_view :: "action_ref \<Rightarrow> json \<Rightarrow> classifier_view" where
  "classifier_view a args = \<lparr>cv_name = ac_name a, cv_kind = ac_kind a, cv_locality = ac_locality a, cv_shapes = redact_to_shape args\<rparr>"

definition classifier_view_json :: "classifier_view \<Rightarrow> json" where
  "classifier_view_json v = JObj [(''action_name'', JStr (cv_name v)), (''action_kind'', JStr (action_kind_str (cv_kind v))),
     (''locality'', JStr (locality_str (cv_locality v))), (''arg_shapes'', cv_shapes v)]"

definition shape_cache_key :: "platform \<Rightarrow> action_ref \<Rightarrow> json \<Rightarrow> string" where
  "shape_cache_key pf a args = sha256_hex pf (ac_name a @ ''|'' @ hash_text pf (redact_to_shape args) @ ''|v1'')"

definition heuristic_escalate :: "classifier_view \<Rightarrow> tier option" where
  "heuristic_escalate v =
     (let name = to_lower (cv_name v); names = list_ex (includes_str name)
      in if cv_kind v = AShell then Some T4
         else if names [''wire'', ''transfer'', ''ach'', ''irrevoc''] then Some T4
         else if names [''sms'', ''smtp'', ''ses'', ''push'', ''resend''] then Some T4
         else None)"

text \<open>The first of the quoted tiers that the answer names.\<close>

fun tier_in_text :: "string \<Rightarrow> tier option" where
  "tier_in_text [] = None"
| "tier_in_text (c # cs) =
     (case filter (\<lambda>t. starts_with (c # cs) ([CHR 0x22] @ tier_str t @ [CHR 0x22])) [T1, T2, T3, T4] of
        t # _ \<Rightarrow> Some t
      | [] \<Rightarrow> tier_in_text cs)"

definition propose_tier :: "classifier_opts \<Rightarrow> classifier_view \<Rightarrow> string \<Rightarrow> tier option" where
  "propose_tier co v model =
     (case cm_complete co of
        Some f \<Rightarrow> (case f v of None \<Rightarrow> None | Some t \<Rightarrow> t)
      | None \<Rightarrow> (case cm_remote co of
          Some f \<Rightarrow> (case f v model of None \<Rightarrow> None | Some text \<Rightarrow> tier_in_text text)
        | None \<Rightarrow> heuristic_escalate v))"

definition classify_model ::
  "platform \<Rightarrow> classifier_opts \<Rightarrow> int \<Rightarrow> action_ref \<Rightarrow> json \<Rightarrow> model_cache \<Rightarrow> model_cache \<times> model_verdict option" where
  "classify_model pf co now a args cache =
     (if \<not> classifier_enabled co then (cache, None)
      else
        let key = shape_cache_key pf a args in
        case (case map_of cache key of Some (at, r) \<Rightarrow> if now - at < model_cache_ttl then Some r else None | None \<Rightarrow> None) of
          Some r \<Rightarrow> (cache, Some r)
        | None \<Rightarrow>
            (let view = classifier_view a args;
                 model = orelse (orelse_opt (cm_model co) (cm_env_model co)) default_classifier_model
             in case propose_tier co view model of
                  None \<Rightarrow> (cache, None)
                | Some t \<Rightarrow>
                    (let r = \<lparr>mv_tier = t, mv_reasons = [''s4_off_path_escalate_only''], mv_model = model,
                       mv_prompt_hash = hash_text pf (JObj [(''role'', JStr ''classifier''), (''view'', classifier_view_json view)])\<rparr>
                     in (set_key key (now, r) cache, Some r))))"

definition escalate_only :: "tier \<Rightarrow> tier option \<Rightarrow> tier" where
  "escalate_only current proposed =
     (case proposed of None \<Rightarrow> current | Some p \<Rightarrow> if tier_rank p > tier_rank current then p else current)"

lemma escalate_only_le: "current \<le> escalate_only current proposed"
  by (auto simp: escalate_only_def less_eq_tier_def split: option.splits)

lemma classify_model_shapes:
  assumes "redact_to_shape args = redact_to_shape args'"
  shows "classify_model pf co now a args cache = classify_model pf co now a args' cache"
proof -
  have "shape_cache_key pf a args = shape_cache_key pf a args'" "classifier_view a args = classifier_view a args'"
    using assms by (simp_all add: shape_cache_key_def classifier_view_def)
  then show ?thesis by (simp only: classify_model_def)
qed

end
