(* ===== verification/Registry.thy ===== *)
theory Registry
  imports Compensators
begin

text \<open>
  The compensator registry, \<^verbatim>\<open>sdk-ts/src/registry.ts\<close>: the gate a manifest passes before it is registered, the
  rows in memory and in the store of the ledger, and the match on them, which in hosted mode only sees manifests
  whose signature is verified.

  The Ed25519 check is the parameter \<open>ed\<close> (key, signed content, signature), the public key of a private one the
  parameter of \<open>verify_key\<close>, the module of a programmatic compensator the parameter \<open>load\<close> and the collation
  of \<^verbatim>\<open>localeCompare\<close> the parameter of \<open>registry_list\<close>.  A manifest is a \<open>signature\<close>, so the checks of
  \<^verbatim>\<open>validateManifestSchema\<close> on the presence and type of its fields hold by its type; the others are below.
\<close>

section \<open>Signed manifests\<close>

type_synonym ed_check = "string \<Rightarrow> signature \<Rightarrow> string \<Rightarrow> bool"

record key_env =
  ke_verify :: "string option"
  ke_signing :: "string option"
  ke_ledger :: "string option"

definition is_hosted_ledger_url :: "string option \<Rightarrow> bool" where
  "is_hosted_ledger_url raw \<longleftrightarrow> (case raw of None \<Rightarrow> False | Some s \<Rightarrow> starts_with s ''https://'' \<or> starts_with s ''http://'')"

definition hosted_mode_active :: "key_env \<Rightarrow> string option \<Rightarrow> bool" where
  "hosted_mode_active env url \<longleftrightarrow> is_hosted_ledger_url url \<or> is_hosted_ledger_url (ke_ledger env) \<or> nonempty (ke_verify env)"

text \<open>What is signed: the manifest without its signature and the two fields of the registry.\<close>

definition signed_part :: "signature \<Rightarrow> signature" where
  "signed_part m = m\<lparr>sg_signature := None, sg_registered_at := None, sg_disabled := False\<rparr>"

definition verify_key :: "(string \<Rightarrow> string option) \<Rightarrow> key_env \<Rightarrow> string option" where
  "verify_key derive env =
     (if nonempty (ke_verify env) then ke_verify env
      else if nonempty (ke_signing env) then derive (the (ke_signing env)) else None)"

definition verify_manifest_signature :: "ed_check \<Rightarrow> string option \<Rightarrow> signature \<Rightarrow> bool" where
  "verify_manifest_signature ed key m \<longleftrightarrow>
     nonempty (sg_signature m) \<and> nonempty key \<and> ed (the key) (signed_part m) (the (sg_signature m))"

definition signature_verified_for_s1 :: "ed_check \<Rightarrow> string option \<Rightarrow> bool \<Rightarrow> signature \<Rightarrow> signature option" where
  "signature_verified_for_s1 ed key hosted m =
     (if \<not> hosted then Some m
      else if sg_source m = Builtin then Some m
      else if verify_manifest_signature ed key m then Some m else None)"

section \<open>The synthetic receipt\<close>

definition first_of :: "one_or_many \<Rightarrow> string option" where
  "first_of v = (case v of One s \<Rightarrow> Some s | Many ss \<Rightarrow> nth_opt ss 0)"

text \<open>\<^verbatim>\<open>{...}\<close> with something between the braces becomes \<^verbatim>\<open>id\<close>.\<close>

function replace_params :: "string \<Rightarrow> string" where
  "replace_params [] = []"
| "replace_params (c # cs) =
     (let body = takeWhile (\<lambda>d. d \<noteq> CHR ''}'') cs; rest = dropWhile (\<lambda>d. d \<noteq> CHR ''}'') cs
      in if c = CHR ''{'' \<and> body \<noteq> [] \<and> rest \<noteq> [] then ''id'' @ replace_params (tl rest) else c # replace_params cs)"
  by pat_completeness auto

termination replace_params
  by (relation "measure length") (auto simp: le_imp_less_Suc length_dropWhile_le less_imp_diff_less)

definition static_url :: "string \<Rightarrow> string" where
  "static_url pat =
     (if pat \<in> {''*'', ''**'', ''*://*/**''} then ''https://example.invalid/x''
      else map (\<lambda>c. if c = CHR ''*'' then CHR ''x'' else c) (replace_params pat))"

fun glob_sample :: "string \<Rightarrow> string" where
  "glob_sample (c # d # cs) =
     (if c = CHR ''*'' \<and> d = CHR ''*'' then CHR ''x'' # glob_sample cs
      else (if c = CHR ''*'' then CHR ''x'' else c) # glob_sample (d # cs))"
| "glob_sample [c] = [if c = CHR ''*'' then CHR ''x'' else c]"
| "glob_sample [] = []"

definition version_sample :: "string \<Rightarrow> string" where
  "version_sample v =
     (let s = dropWhile (\<lambda>c. c \<in> set ''^~>=<'') v
      in if ends_with s ''.x'' \<or> ends_with s ''.*'' then take (length s - 2) s @ ''.0.0'' else s)"

definition opt_str :: "string \<Rightarrow> string option \<Rightarrow> (string \<times> json) list" where
  "opt_str k v = (case v of Some s \<Rightarrow> [(k, JStr s)] | None \<Rightarrow> [])"

definition synthetic_args :: "matcher \<Rightarrow> (string \<times> json) list" where
  "synthetic_args m =
     (case m of
        MHttp method pat \<Rightarrow> opt_str ''method'' (first_of method) @ [(''url'', JStr (static_url pat))]
      | MSql statement table dialect \<Rightarrow>
          opt_str ''statement'' (first_of statement) @ [(''table'', JStr (if table = ''*'' then ''t'' else table))]
          @ (if nonempty dialect then opt_str ''dialect'' dialect else [])
      | MFs opn glob \<Rightarrow>
          (let path = (if glob_sample glob = [] then ''/x'' else glob_sample glob)
           in opt_str ''op'' (first_of opn) @ [(''path'', JStr path), (''realpath'', JStr path)])
      | MMcpTool tool version \<Rightarrow>
          [(''tool'', JStr tool)] @ (if nonempty version then [(''version'', JStr (version_sample (the version)))] else [])
      | MShell template \<Rightarrow> [(''argv'', JArr (map (\<lambda>s. JStr (if s = ''{}'' then ''x'' else s)) template))]
      | MSdkFn module fn \<Rightarrow> [(''module'', JStr module), (''fn'', JStr fn)]
      | MStar \<Rightarrow> [])"

text \<open>The word characters behind the first \<^verbatim>\<open>^\<close> that has one behind it.\<close>

fun word_after_caret :: "string \<Rightarrow> string option" where
  "word_after_caret [] = None"
| "word_after_caret (c # cs) =
     (if c = CHR ''^'' \<and> takeWhile is_word cs \<noteq> [] then Some (takeWhile is_word cs) else word_after_caret cs)"

definition sample_binding :: "string \<Rightarrow> string option \<Rightarrow> json" where
  "sample_binding name pattern =
     (let p = orelse pattern []; digits = [CHR ''^'', CHR 0x5C, CHR ''d'', CHR ''+'', CHR ''$'']
      in if includes_str p ''ch_'' then JStr ''ch_0''
         else if starts_with p ''^'' \<and> includes_str p ''[A-Za-z0-9]'' then JStr (orelse (word_after_caret p) ''x'' @ ''0'')
         else if p = digits \<or> p = ''^[0-9]+$'' then JInt 1
         else if includes_str (to_lower name) ''url'' then JStr ''https://example.invalid/x''
         else if name \<in> {''path'', ''from'', ''to'', ''realpath''} then JStr ''/x''
         else if includes_str name ''amount'' \<or> includes_str name ''count'' \<or> includes_str name ''qty'' \<or> ends_with name ''n'' then JInt 1
         else JStr (''bind_'' @ name))"

fun set_parts :: "(string \<times> json) list \<Rightarrow> string list \<Rightarrow> json \<Rightarrow> (string \<times> json) list" where
  "set_parts kvs [] v = kvs"
| "set_parts kvs [k] v = set_key k v kvs"
| "set_parts kvs (k # ks) v = set_key k (JObj (set_parts (as_record (map_of kvs k)) ks v)) kvs"

definition set_from_selector :: "string \<Rightarrow> json \<Rightarrow> (string \<times> json) list \<Rightarrow> (string \<times> json) list" where
  "set_from_selector selector v kvs =
     (let p = (if starts_with selector ''$.'' then drop 2 selector else if starts_with selector ''$'' then drop 1 selector else selector)
      in set_parts kvs (filter (\<lambda>x. x \<noteq> []) (js_split CHR ''.'' p)) v)"

record synthetic =
  sy_args :: "(string \<times> json) list"
  sy_result :: "(string \<times> json) list"
  sy_headers :: "(string \<times> string) list"
  sy_bindings :: "(string \<times> json) list"

definition add_binding :: "synthetic \<Rightarrow> string \<times> binding_extractor \<Rightarrow> synthetic" where
  "add_binding sy nx =
     (let name = fst nx; from = bx_from (snd nx); v = sample_binding name (bx_pattern (snd nx));
          sy' = sy\<lparr>sy_bindings := set_key name v (sy_bindings sy)\<rparr>
      in if from = ''status'' then sy'\<lparr>sy_result := set_key ''status'' (if is_number v then v else JInt 200) (sy_result sy)\<rparr>
         else if starts_with from ''result.'' then sy'\<lparr>sy_result := set_from_selector (drop 7 from) v (sy_result sy)\<rparr>
         else if starts_with from ''args.'' then sy'\<lparr>sy_args := set_from_selector (drop 5 from) v (sy_args sy)\<rparr>
         else if starts_with from ''header.'' then sy'\<lparr>sy_headers := set_key (drop 7 from) (js_string v) (sy_headers sy)\<rparr>
         else sy')"

definition match_kind_to_action :: "matcher \<Rightarrow> action_kind" where
  "match_kind_to_action m =
     (case m of MHttp _ _ \<Rightarrow> AHttp | MSql _ _ _ \<Rightarrow> ASql | MFs _ _ \<Rightarrow> AFs | MMcpTool _ _ \<Rightarrow> AMcpTool
        | MSdkFn _ _ \<Rightarrow> ASdkFn | MShell _ \<Rightarrow> AShell | MStar \<Rightarrow> ASdkFn)"

text \<open>\<^verbatim>\<open>undefined\<close> in a template string.\<close>

definition shown_opt :: "string option \<Rightarrow> string" where
  "shown_opt v = orelse v ''undefined''"

definition action_name_from_match :: "platform \<Rightarrow> matcher \<Rightarrow> string" where
  "action_name_from_match pf m =
     (case m of
        MHttp method pat \<Rightarrow> ''http.'' @ shown_opt (first_of method) @ ''.''
          @ (case pf_url pf (static_url pat) None of Some u \<Rightarrow> u_hostname u @ u_pathname u | None \<Rightarrow> ''unknown'')
      | MSql statement table _ \<Rightarrow> ''sql.'' @ shown_opt (first_of statement) @ ''.app.'' @ (if table = ''*'' then ''t'' else table)
      | MFs opn glob \<Rightarrow> ''fs.'' @ shown_opt (first_of opn) @ ''.'' @ glob
      | MMcpTool tool _ \<Rightarrow> ''mcp.server.'' @ tool
      | MSdkFn module fn \<Rightarrow> ''sdk.'' @ module @ ''.'' @ fn
      | MShell template \<Rightarrow> ''shell.'' @ orelse (nth_opt template 0) ''sh''
      | MStar \<Rightarrow> ''unknown'')"

definition target_from_match :: "platform \<Rightarrow> matcher \<Rightarrow> (string \<times> json) list \<Rightarrow> string option" where
  "target_from_match pf m args =
     (case m of
        MHttp _ _ \<Rightarrow> (case str_of (map_of args ''url'') of Some u \<Rightarrow> map_option u_hostname (pf_url pf u None) | None \<Rightarrow> None)
      | MSql _ _ _ \<Rightarrow> Some ''app''
      | MFs _ _ \<Rightarrow> str_of (map_of args ''realpath'')
      | _ \<Rightarrow> None)"

definition synthetic_parts :: "signature \<Rightarrow> synthetic" where
  "synthetic_parts sg =
     (let sy = foldl add_binding \<lparr>sy_args = synthetic_args (sg_match sg), sy_result = [(''status'', JInt 200)], sy_headers = [], sy_bindings = []\<rparr>
            (sg_binds sg)
      in if sy_headers sy = [] then sy
         else sy\<lparr>sy_args := set_key ''headers'' (JObj (map (\<lambda>(k, v). (k, JStr v)) (sy_headers sy))) (sy_args sy)\<rparr>)"

definition synthetic_receipt :: "platform \<Rightarrow> signature \<Rightarrow> receipt" where
  "synthetic_receipt pf sg =
     (let sy = synthetic_parts sg; args = sy_args sy; txt = (\<lambda>k. str_of (map_of args k));
          action = \<lparr>ac_kind = match_kind_to_action (sg_match sg), ac_name = action_name_from_match pf (sg_match sg), ac_version = None,
                    ac_target = target_from_match pf (sg_match sg) args, ac_locality = External\<rparr>
      in \<lparr>rc_effect_id = ''eff_synthetic'', rc_saga_id = ''sag_synthetic'', rc_seq = 1, rc_action = action, rc_tier = sg_tier sg,
          rc_args = JObj args, rc_result = Some (JObj (sy_result sy)), rc_bindings = sy_bindings sy,
          rc_resource_keys = resource_keys pf
            \<lparr>ki_action = action, ki_bindings = sy_bindings sy, ki_args = Some (JObj args), ki_headers = Some (sy_headers sy),
             ki_dialect = txt ''dialect'', ki_db = None, ki_table = txt ''table'', ki_pk = None, ki_realpath = txt ''realpath'',
             ki_mcp_server = None, ki_mcp_tool = txt ''tool'', ki_primary_binding = None\<rparr>,
          rc_preimage = map_option (\<lambda>k. \<lparr>pi_kind = k, pi_blob_id = (if k = FsBytes then Some ''blob_synthetic'' else None),
             pi_bytes = None, pi_rows = None, pi_truncated = False, pi_meta = None\<rparr>) (sg_preimage sg),
          rc_status = Landed, rc_comp_state = Available, rc_compensator_id = None, rc_leak = sg_leak sg,
          rc_cascade_risk = sg_cascade_risk sg, rc_compensable_until = None\<rparr>)"

section \<open>The gate\<close>

datatype gate_result = GateOk signature plan | GateErr vr_code string | GateThrew

definition validate_manifest_schema :: "signature \<Rightarrow> string option" where
  "validate_manifest_schema sg =
     (if sg_id sg = [] then Some ''id required''
      else case sg_compensator sg of
        Declarative steps _ \<Rightarrow>
          if list_ex (\<lambda>st. case st of JObj kvs \<Rightarrow> map_of kvs ''kind'' = None | _ \<Rightarrow> True) steps then Some ''invalid step'' else None
      | Programmatic module _ \<Rightarrow> if module = [] then Some ''programmatic module required'' else None)"

text \<open>The first reference to a constant or a credential that the manifest does not declare.\<close>

definition unresolved_name :: "signature \<Rightarrow> string \<Rightarrow> string option" where
  "unresolved_name sg r =
     (if starts_with r ''const.'' \<and> drop 6 r \<notin> fst ` set (orelse (sg_constants sg) []) then Some r
      else if starts_with r ''credential.'' \<and> drop 11 r \<notin> set (orelse (sg_credentials sg) []) then Some r else None)"

fun unresolved :: "signature \<Rightarrow> json \<Rightarrow> string option" where
  "unresolved sg (JStr s) = (case scheme_ref s of Some (w, r) \<Rightarrow> unresolved_name sg r | None \<Rightarrow> None)"
| "unresolved sg (JArr vs) = foldr (\<lambda>v r. orelse_opt v r) (map (unresolved sg) vs) None"
| "unresolved sg (JObj kvs) =
     (case ref_of (JObj kvs) of
        Some r \<Rightarrow> unresolved_name sg r
      | None \<Rightarrow> foldr (\<lambda>v r. orelse_opt v r) (map (\<lambda>(k, v). unresolved sg v) kvs) None)"
| "unresolved sg v = None"

definition assert_name_resolution :: "signature \<Rightarrow> (vr_code \<times> string) option" where
  "assert_name_resolution sg =
     (case sg_compensator sg of
        Declarative steps _ \<Rightarrow> map_option (\<lambda>r. (VR3006, ''unresolvable_ref '' @ r)) (unresolved sg (JArr steps))
      | Programmatic _ _ \<Rightarrow> None)"

definition registered_at_or :: "platform \<Rightarrow> int \<Rightarrow> signature \<Rightarrow> signature" where
  "registered_at_or pf now sg = sg\<lparr>sg_registered_at := Some (orelse (sg_registered_at sg) (pf_iso pf now))\<rparr>"

definition gate_compile :: "platform \<Rightarrow> int \<Rightarrow> signature \<Rightarrow> signature \<Rightarrow> gate_result" where
  "gate_compile pf now sg lowered =
     (case compile_plan pf (synthetic_receipt pf sg) lowered
             \<lparr>co_origin = Some (sg_source sg), co_now = now, co_plan_id = None, co_steps = None\<rparr> of
        Compiled p \<Rightarrow> GateOk (registered_at_or pf now sg) p
      | Rejected rj \<Rightarrow> GateErr (rj_code rj) (rj_detail rj)
      | Threw \<Rightarrow> GateThrew)"

definition gate_declarative_manifest :: "platform \<Rightarrow> int \<Rightarrow> signature \<Rightarrow> gate_result" where
  "gate_declarative_manifest pf now sg =
     (case validate_manifest_schema sg of
        Some d \<Rightarrow> GateErr VR3005 d
      | None \<Rightarrow>
          if sg_source sg = Drafted then GateErr VR4005 ''drafted_not_allowed''
          else (case sg_compensator sg of
            Programmatic _ _ \<Rightarrow> GateErr VR3005 ''expected declarative''
          | Declarative _ _ \<Rightarrow>
              (case assert_name_resolution sg of
                 Some (c, d) \<Rightarrow> GateErr c d
               | None \<Rightarrow> gate_compile pf now sg sg)))"

text \<open>
  The export of a programmatic compensator: \<open>None\<close> when the import throws, else what its \<open>n\<close>-th call on a receipt
  returns, or the message of its exception.
\<close>

type_synonym program = "receipt \<Rightarrow> nat \<Rightarrow> string + (json list \<times> postcondition list option)"

type_synonym loader = "string \<Rightarrow> string option \<Rightarrow> program option"

datatype purity = Pure "json list" "postcondition list option" | Impure vr_code string | PurityThrew

definition assert_pure_compensator :: "platform \<Rightarrow> loader \<Rightarrow> signature \<Rightarrow> receipt \<Rightarrow> purity" where
  "assert_pure_compensator pf load sg rc =
     (case sg_compensator sg of
        Declarative _ _ \<Rightarrow> Impure VR3005 ''expected programmatic''
      | Programmatic module export \<Rightarrow>
          (case load module export of
             None \<Rightarrow> PurityThrew
           | Some f \<Rightarrow>
               (case (f rc 0, f rc 1) of
                  (Inl msg, _) \<Rightarrow> Impure VR3012 msg
                | (_, Inl msg) \<Rightarrow> Impure VR3012 msg
                | (Inr (steps, ps), Inr (steps', _)) \<Rightarrow>
                    (case (plan_hash pf (rc_effect_id rc) (sg_id sg) (sg_source sg) steps,
                           plan_hash pf (rc_effect_id rc) (sg_id sg) (sg_source sg) steps') of
                       (Some a, Some b) \<Rightarrow> if a \<noteq> b then Impure VR3012 ''impure_compensator'' else Pure steps ps
                     | _ \<Rightarrow> PurityThrew))))"

definition gate_manifest :: "platform \<Rightarrow> loader \<Rightarrow> int \<Rightarrow> signature \<Rightarrow> gate_result" where
  "gate_manifest pf load now sg =
     (case sg_compensator sg of
        Declarative _ _ \<Rightarrow> gate_declarative_manifest pf now sg
      | Programmatic _ _ \<Rightarrow>
          (case validate_manifest_schema sg of
             Some d \<Rightarrow> GateErr VR3005 d
           | None \<Rightarrow>
               if sg_source sg = Drafted then GateErr VR4005 ''drafted_not_allowed''
               else (case assert_name_resolution sg of
                 Some (c, d) \<Rightarrow> GateErr c d
               | None \<Rightarrow>
                   (case assert_pure_compensator pf load sg (synthetic_receipt pf sg) of
                      PurityThrew \<Rightarrow> GateThrew
                    | Impure c d \<Rightarrow> GateErr c d
                    | Pure steps ps \<Rightarrow> gate_compile pf now sg (sg\<lparr>sg_compensator := Declarative steps ps\<rparr>)))))"

section \<open>The registry\<close>

record comp_row =
  cw_id :: string
  cw_manifest :: signature
  cw_source :: source
  cw_match_kind :: string
  cw_specificity :: nat
  cw_signature :: "string option"
  cw_registered_at :: string
  cw_disabled :: bool

record registry =
  rg_memory :: "(string \<times> comp_row) list"
  rg_store :: "(string \<times> comp_row) list option"
  rg_hosted :: bool

definition match_kind_str :: "matcher \<Rightarrow> string" where
  "match_kind_str m =
     (case m of MHttp _ _ \<Rightarrow> ''http'' | MSql _ _ _ \<Rightarrow> ''sql'' | MFs _ _ \<Rightarrow> ''fs'' | MMcpTool _ _ \<Rightarrow> ''mcp_tool''
        | MSdkFn _ _ \<Rightarrow> ''sdk_fn'' | MShell _ \<Rightarrow> ''shell'' | MStar \<Rightarrow> ''*'')"

definition to_row :: "signature \<Rightarrow> string \<Rightarrow> comp_row" where
  "to_row sg at =
     \<lparr>cw_id = sg_id sg, cw_manifest = sg\<lparr>sg_registered_at := Some at\<rparr>, cw_source = sg_source sg,
      cw_match_kind = match_kind_str (sg_match sg), cw_specificity = specificity_score sg, cw_signature = sg_signature sg,
      cw_registered_at = at, cw_disabled = sg_disabled sg\<rparr>"

definition hydrate :: "registry \<Rightarrow> registry" where
  "hydrate rg = rg\<lparr>rg_memory := foldl (\<lambda>m (k, row). set_key (cw_id row) row m) (rg_memory rg) (orelse (rg_store rg) [])\<rparr>"

text \<open>The outcome of \<^verbatim>\<open>register\<close> and \<^verbatim>\<open>verify\<close>: the ids, or the code and the detail; \<open>RegThrew\<close> is an exception.\<close>

datatype register_result = RegOk "string list" | RegErr vr_code string | RegThrew

definition check_hosted :: "ed_check \<Rightarrow> string option \<Rightarrow> bool \<Rightarrow> signature \<Rightarrow> (vr_code \<times> string) option" where
  "check_hosted ed key hosted sg =
     (if hosted \<and> sg_source sg = Registered then
        if \<not> nonempty (sg_signature sg) then Some (VR6003, ''hosted register requires ActionSignature.signature'')
        else if \<not> verify_manifest_signature ed key sg then Some (VR6003, ''bad_signature'') else None
      else None)"

text \<open>The loop of \<^verbatim>\<open>register\<close>; the memory is written as it goes, \<open>rows\<close> are the ones to store.\<close>

fun register_loop ::
  "platform \<Rightarrow> loader \<Rightarrow> ed_check \<Rightarrow> string option \<Rightarrow> bool \<Rightarrow> int \<Rightarrow> registry \<Rightarrow> comp_row list \<Rightarrow> signature list
     \<Rightarrow> registry \<times> comp_row list \<times> (register_result option)" where
  "register_loop pf load ed key force now rg rows [] = (rg, rows, None)"
| "register_loop pf load ed key force now rg rows (sg # sgs) =
     (case gate_manifest pf load now sg of
        GateThrew \<Rightarrow> (rg, rows, Some RegThrew)
      | GateErr c d \<Rightarrow> (rg, rows, Some (RegErr c d))
      | GateOk sg' p \<Rightarrow>
          (case check_hosted ed key (rg_hosted rg) sg' of
             Some (c, d) \<Rightarrow> (rg, rows, Some (RegErr c d))
           | None \<Rightarrow>
               if \<not> force \<and> map_of (rg_memory rg) (sg_id sg') \<noteq> None
               then (rg, rows, Some (RegErr VR3005 (''already registered: '' @ sg_id sg')))
               else let row = to_row sg' (pf_iso pf now)
                    in register_loop pf load ed key force now (rg\<lparr>rg_memory := set_key (cw_id row) row (rg_memory rg)\<rparr>) (rows @ [row]) sgs))"

definition register :: "platform \<Rightarrow> loader \<Rightarrow> ed_check \<Rightarrow> string option \<Rightarrow> bool \<Rightarrow> int \<Rightarrow> signature list \<Rightarrow> registry \<Rightarrow> registry \<times> register_result" where
  "register pf load ed key force now sgs rg =
     (case register_loop pf load ed key force now rg [] sgs of
        (rg', rows, Some e) \<Rightarrow> (rg', e)
      | (rg', rows, None) \<Rightarrow>
          (rg'\<lparr>rg_store := map_option (\<lambda>st. foldl (\<lambda>m row. set_key (cw_id row) row m) st rows) (rg_store rg')\<rparr>, RegOk (map cw_id rows)))"

definition registry_list :: "(string \<Rightarrow> string) \<Rightarrow> registry \<Rightarrow> registry \<times> signature list" where
  "registry_list collate rg =
     (let rg' = hydrate rg
      in (rg', map cw_manifest (sort_key (\<lambda>r. (cw_registered_at r, collate (cw_id r)))
            (filter (\<lambda>r. \<not> cw_disabled r) (map snd (rg_memory rg'))))))"

text \<open>What \<^verbatim>\<open>match\<close> chooses among.\<close>

definition visible :: "ed_check \<Rightarrow> string option \<Rightarrow> registry \<Rightarrow> signature list" where
  "visible ed key rg =
     filter (\<lambda>m. \<not> rg_hosted rg \<or> sg_source m = Builtin \<or> verify_manifest_signature ed key m)
       (map cw_manifest (filter (\<lambda>r. \<not> cw_disabled r) (map snd (rg_memory rg))))"

definition registry_match :: "platform \<Rightarrow> ed_check \<Rightarrow> string option \<Rightarrow> registry \<Rightarrow> action_ref \<Rightarrow> json \<Rightarrow> json option \<Rightarrow> match_result" where
  "registry_match pf ed key rg a args result = match_compensator pf (visible ed key rg) a args result"

definition registry_get :: "registry \<Rightarrow> string \<Rightarrow> registry \<times> signature option" where
  "registry_get rg k = (let rg' = hydrate rg in (rg', map_option cw_manifest (map_of (rg_memory rg') k)))"

fun verify_rows :: "platform \<Rightarrow> loader \<Rightarrow> ed_check \<Rightarrow> string option \<Rightarrow> bool \<Rightarrow> bool \<Rightarrow> int \<Rightarrow> comp_row list \<Rightarrow> string list \<Rightarrow> register_result" where
  "verify_rows pf load ed key strict hosted now [] ids = RegOk ids"
| "verify_rows pf load ed key strict hosted now (row # rows) ids =
     (let m = cw_manifest row
      in case gate_manifest pf load now m of
           GateThrew \<Rightarrow> RegThrew
         | GateErr c d \<Rightarrow> RegErr c d
         | GateOk _ _ \<Rightarrow>
             if (strict \<or> hosted) \<and> sg_source m = Registered \<and> nonempty (sg_signature m) \<and> \<not> verify_manifest_signature ed key m
             then RegErr VR6003 (''bad_signature '' @ cw_id row)
             else if hosted \<and> sg_source m = Registered \<and> \<not> nonempty (sg_signature m)
             then RegErr VR6003 (''unsigned hosted manifest '' @ cw_id row)
             else verify_rows pf load ed key strict hosted now rows (ids @ [cw_id row]))"

definition registry_verify :: "platform \<Rightarrow> loader \<Rightarrow> ed_check \<Rightarrow> string option \<Rightarrow> bool \<Rightarrow> int \<Rightarrow> registry \<Rightarrow> registry \<times> register_result" where
  "registry_verify pf load ed key strict now rg =
     (let rg' = hydrate rg
      in (rg', verify_rows pf load ed key strict (rg_hosted rg') now (map snd (rg_memory rg')) []))"

section \<open>What the registry holds\<close>

text \<open>
  A row is \<open>gated\<close> when its manifest has passed the gate and, in hosted mode, carries a verified signature unless it
  says that it is built in.
\<close>

definition gated :: "platform \<Rightarrow> loader \<Rightarrow> ed_check \<Rightarrow> string option \<Rightarrow> bool \<Rightarrow> comp_row \<Rightarrow> bool" where
  "gated pf load ed key hosted row \<longleftrightarrow>
     cw_id row = sg_id (cw_manifest row) \<and> cw_id row \<noteq> [] \<and> sg_source (cw_manifest row) \<noteq> Drafted
     \<and> (\<exists>now sg sg' p. gate_manifest pf load now sg = GateOk sg' p \<and> signed_part sg = signed_part (cw_manifest row))
     \<and> (hosted \<and> sg_source (cw_manifest row) = Registered \<longrightarrow> verify_manifest_signature ed key (cw_manifest row))"

definition all_gated :: "platform \<Rightarrow> loader \<Rightarrow> ed_check \<Rightarrow> string option \<Rightarrow> registry \<Rightarrow> bool" where
  "all_gated pf load ed key rg \<longleftrightarrow>
     (\<forall>(k, row) \<in> set (rg_memory rg) \<union> set (orelse (rg_store rg) []). gated pf load ed key (rg_hosted rg) row)"

lemma all_gated_iff:
  "all_gated pf load ed key rg \<longleftrightarrow>
     (\<forall>k row. (k, row) \<in> set (rg_memory rg) \<longrightarrow> gated pf load ed key (rg_hosted rg) row)
     \<and> (\<forall>k row. (k, row) \<in> set (orelse (rg_store rg) []) \<longrightarrow> gated pf load ed key (rg_hosted rg) row)"
  by (auto simp: all_gated_def)

lemma signed_part_updates [simp]:
  "signed_part (m\<lparr>sg_registered_at := t\<rparr>) = signed_part m" "signed_part (registered_at_or pf now m) = signed_part m"
  by (simp_all add: signed_part_def registered_at_or_def)

lemma verify_registered_at [simp]:
  "verify_manifest_signature ed key (m\<lparr>sg_registered_at := t\<rparr>) = verify_manifest_signature ed key m"
  by (simp add: verify_manifest_signature_def)

lemma gate_ok_manifest:
  assumes "gate_manifest pf load now sg = GateOk sg' p"
  shows "sg' = registered_at_or pf now sg \<and> sg_source sg \<noteq> Drafted \<and> sg_id sg \<noteq> []
    \<and> (\<exists>lowered. compile_plan pf (synthetic_receipt pf sg) lowered
          \<lparr>co_origin = Some (sg_source sg), co_now = now, co_plan_id = None, co_steps = None\<rparr> = Compiled p)"
  using assms
  by (auto simp: gate_manifest_def gate_declarative_manifest_def gate_compile_def validate_manifest_schema_def
      split: compensator.splits option.splits if_splits compile_result.splits purity.splits)

lemma set_set_key: "x \<in> set (set_key k v kvs) \<Longrightarrow> x = (k, v) \<or> x \<in> set kvs"
  by (cases x) (auto simp: set_key_def dest: set_alist_update)

lemma set_keys_from: "x \<in> set (foldl (\<lambda>m row. set_key (cw_id row) row m) base new) \<Longrightarrow> x \<in> set base \<or> (\<exists>row \<in> set new. x = (cw_id row, row))"
  by (induction new arbitrary: base) (auto dest: set_set_key)

lemma hydrate_from: "x \<in> set (rg_memory (hydrate rg)) \<Longrightarrow> x \<in> set (rg_memory rg) \<or> (\<exists>(k, row) \<in> set (orelse (rg_store rg) []). x = (cw_id row, row))"
proof -
  have "x \<in> set (foldl (\<lambda>m (k, row). set_key (cw_id row) row m) base kvs) \<Longrightarrow> x \<in> set base \<or> (\<exists>(k, row) \<in> set kvs. x = (cw_id row, row))" for base kvs
    by (induction kvs arbitrary: base) (auto dest: set_set_key)
  then show "x \<in> set (rg_memory (hydrate rg)) \<Longrightarrow> ?thesis" by (auto simp: hydrate_def)
qed

lemma gated_row:
  assumes gate: "gate_manifest pf load now sg = GateOk sg' p" and host: "check_hosted ed key hosted sg' = None"
  shows "gated pf load ed key hosted (to_row sg' at)"
proof -
  have sg': "sg' = registered_at_or pf now sg" "sg_source sg \<noteq> Drafted" "sg_id sg \<noteq> []" using gate_ok_manifest [OF gate] by blast+
  then have "signed_part sg = signed_part (cw_manifest (to_row sg' at))" by (simp add: to_row_def)
  with sg' gate host show ?thesis
    by (fastforce simp: gated_def to_row_def registered_at_or_def check_hosted_def split: if_splits)
qed

lemma register_loop_gated:
  assumes "register_loop pf load ed key force now rg rows sgs = (rg', rows', e)" "all_gated pf load ed key rg"
    "\<forall>row \<in> set rows. gated pf load ed key (rg_hosted rg) row"
  shows "all_gated pf load ed key rg' \<and> rg_hosted rg' = rg_hosted rg \<and> rg_store rg' = rg_store rg
    \<and> (\<forall>row \<in> set rows'. gated pf load ed key (rg_hosted rg) row) \<and> (e = None \<longrightarrow> map cw_id rows' = map cw_id rows @ map sg_id sgs)"
  using assms
proof (induction sgs arbitrary: rg rows)
  case Nil
  then show ?case by auto
next
  case (Cons sg sgs)
  show ?case
  proof (cases "gate_manifest pf load now sg")
    case (GateOk sg' p)
    let ?row = "to_row sg' (pf_iso pf now)" let ?rg = "rg\<lparr>rg_memory := set_key (cw_id ?row) ?row (rg_memory rg)\<rparr>"
    show ?thesis
    proof (cases "check_hosted ed key (rg_hosted rg) sg' = None \<and> \<not> (\<not> force \<and> map_of (rg_memory rg) (sg_id sg') \<noteq> None)")
      case True
      with GateOk have row: "gated pf load ed key (rg_hosted rg) ?row" by (auto intro: gated_row)
      have "all_gated pf load ed key ?rg" using Cons.prems(2) row by (auto simp: all_gated_def dest!: set_set_key)
      moreover have "register_loop pf load ed key force now ?rg (rows @ [?row]) sgs = (rg', rows', e)"
        using Cons.prems(1) GateOk True by (auto simp: Let_def split: if_splits)
      moreover have "cw_id ?row = sg_id sg" using gate_ok_manifest [OF GateOk] by (simp add: to_row_def registered_at_or_def)
      ultimately show ?thesis using Cons.IH [of ?rg "rows @ [?row]"] Cons.prems(3) row by auto
    next
      case False
      then have "rg' = rg \<and> rows' = rows \<and> e \<noteq> None"
        using Cons.prems(1) GateOk by (auto simp: Let_def split: if_splits option.splits)
      then show ?thesis using Cons.prems(2,3) by auto
    qed
  qed (use Cons.prems in auto)
qed

section \<open>Runs of the registry\<close>

text \<open>The calls that change the registry; the last three only read the store into memory.\<close>

inductive registry_step :: "platform \<Rightarrow> loader \<Rightarrow> ed_check \<Rightarrow> string option \<Rightarrow> registry \<Rightarrow> registry \<Rightarrow> bool"
  for pf load ed key where
  registers: "register pf load ed key force now sgs rg = (rg', res) \<Longrightarrow> registry_step pf load ed key rg rg'"
| lists: "registry_list collate rg = (rg', ms) \<Longrightarrow> registry_step pf load ed key rg rg'"
| gets: "registry_get rg k = (rg', m) \<Longrightarrow> registry_step pf load ed key rg rg'"
| verifies: "registry_verify pf load ed key strict now rg = (rg', res) \<Longrightarrow> registry_step pf load ed key rg rg'"

definition empty_registry :: "bool \<Rightarrow> bool \<Rightarrow> registry" where
  "empty_registry stored hosted = \<lparr>rg_memory = [], rg_store = (if stored then Some [] else None), rg_hosted = hosted\<rparr>"

lemma hydrate_gated:
  "all_gated pf load ed key rg \<Longrightarrow> all_gated pf load ed key (hydrate rg) \<and> rg_hosted (hydrate rg) = rg_hosted rg" (is "_ \<Longrightarrow> ?thesis")
proof -
  assume ok: "all_gated pf load ed key rg"
  have other: "rg_hosted (hydrate rg) = rg_hosted rg" "rg_store (hydrate rg) = rg_store rg" by (simp_all add: hydrate_def)
  have "gated pf load ed key (rg_hosted rg) row" if "(k, row) \<in> set (rg_memory (hydrate rg))" for k row
    using hydrate_from [OF that] ok by (auto simp: all_gated_def)
  then show ?thesis using ok by (simp add: all_gated_iff other)
qed

lemma register_gated:
  assumes "register pf load ed key force now sgs rg = (rg', res)" "all_gated pf load ed key rg"
  shows "all_gated pf load ed key rg' \<and> rg_hosted rg' = rg_hosted rg \<and> (\<forall>ids. res = RegOk ids \<longrightarrow> ids = map sg_id sgs)"
proof -
  obtain rg1 rows e where loop: "register_loop pf load ed key force now rg [] sgs = (rg1, rows, e)" by (metis surj_pair)
  from register_loop_gated [OF loop assms(2)] have l: "all_gated pf load ed key rg1" "rg_hosted rg1 = rg_hosted rg"
    "\<forall>row \<in> set rows. gated pf load ed key (rg_hosted rg) row" "e = None \<longrightarrow> map cw_id rows = map sg_id sgs" by auto
  have ids: "e \<noteq> Some (RegOk ids)" for ids
  proof -
    have "register_loop pf load ed key force now rg rs gs = (rg1, rows, e) \<Longrightarrow> e \<noteq> Some (RegOk ids)" for rg rs gs
      by (induction gs arbitrary: rg rs) (auto simp: Let_def split: gate_result.splits option.splits if_splits)
    with loop show ?thesis by blast
  qed
  show ?thesis
  proof (cases e)
    case (Some r)
    with assms(1) loop l ids show ?thesis by (auto simp: register_def)
  next
    case None
    let ?st = "map_option (\<lambda>st. foldl (\<lambda>m row. set_key (cw_id row) row m) st rows) (rg_store rg1)"
    have "gated pf load ed key (rg_hosted rg1) row" if "(k, row) \<in> set (orelse ?st [])" for k row
    proof (cases "rg_store rg1")
      case (Some st)
      with that set_keys_from [of "(k, row)" st rows] l show ?thesis by (force simp: all_gated_def)
    qed (use that in simp)
    then have "all_gated pf load ed key (rg1\<lparr>rg_store := ?st\<rparr>)" using l(1) by (simp add: all_gated_iff)
    with assms(1) loop None l show ?thesis by (auto simp: register_def)
  qed
qed

lemma registry_step_gated:
  "registry_step pf load ed key rg rg' \<Longrightarrow> all_gated pf load ed key rg \<Longrightarrow> all_gated pf load ed key rg' \<and> rg_hosted rg' = rg_hosted rg"
  by (induction rule: registry_step.induct)
    (auto simp: registry_list_def registry_get_def registry_verify_def Let_def dest: hydrate_gated register_gated)

lemma registry_run_gated:
  "(registry_step pf load ed key)\<^sup>*\<^sup>* (empty_registry stored hosted) rg \<Longrightarrow> all_gated pf load ed key rg \<and> rg_hosted rg = hosted"
proof (induction rule: rtranclp_induct)
  case base
  show ?case by (simp add: all_gated_def empty_registry_def)
next
  case (step y z)
  then show ?case using registry_step_gated by blast
qed

lemma matched_member:
  "mr_matched (match_compensator pf reg a args result) = Some m \<Longrightarrow> m \<in> set reg" (is "_ \<Longrightarrow> ?thesis")
proof -
  assume "mr_matched (match_compensator pf reg a args result) = Some m"
  then have "m \<in> set (sort_key rank_key (filter (applicable pf a args result) reg))"
    by (cases "sort_key rank_key (filter (applicable pf a args result) reg)") (simp_all add: match_compensator_simps)
  then show ?thesis by simp
qed


definition sample_manifest :: "string \<Rightarrow> json \<Rightarrow> signature" where
  "sample_manifest k step = (builtin_signature k (MSdkFn ''m'' ''f'') T2 ([step], []))\<lparr>sg_source := Registered, sg_signature := Some ''s''\<rparr>"

definition noop_step :: json where
  "noop_step = JObj [(''kind'', JStr ''noop''), (''reason'', JStr ''none'')]"

definition sample_sdk_action :: action_ref where
  "sample_sdk_action = \<lparr>ac_kind = ASdkFn, ac_name = ''sdk.m.f'', ac_version = None, ac_target = None, ac_locality = External\<rparr>"

definition sample_register :: "signature list \<Rightarrow> registry \<times> register_result" where
  "sample_register sgs = register sample_platform (\<lambda>_ _. None) (\<lambda>_ _ _. True) (Some ''k'') False 0 sgs (empty_registry True True)"


text \<open>
  A batch with a manifest that is refused answers with an error and no ids, and leaves the manifests before it in
  memory, though not in the store: they match until the process ends.
\<close>

lemma refused_batch_stays:
  "snd (sample_register [sample_manifest ''c'' noop_step, sample_manifest [] noop_step]) = RegErr VR3005 ''id required''"
  "map fst (rg_memory (fst (sample_register [sample_manifest ''c'' noop_step, sample_manifest [] noop_step]))) = [''c'']"
  "rg_store (fst (sample_register [sample_manifest ''c'' noop_step, sample_manifest [] noop_step])) = Some []"
  by code_simp+

text \<open>In hosted mode a manifest that says that it is built in needs no signature, neither to be registered nor to match.\<close>

lemma builtin_needs_no_signature:
  "check_hosted ed key hosted (m\<lparr>sg_source := Builtin\<rparr>) = None"
  "rg_memory rg = [(k, row)] \<Longrightarrow> \<not> cw_disabled row \<Longrightarrow> sg_source (cw_manifest row) = Builtin \<Longrightarrow> visible ed key rg = [cw_manifest row]"
  by (simp_all add: check_hosted_def visible_def)

end
