(* ===== verification/Writes.thy ===== *)
theory Writes
  imports Engine
begin

text \<open>
  What \<^verbatim>\<open>appendChained\<close> does to the memory ledger: an append that returns has written its event and nothing else
  to the rows, one that throws has left the ledger as it was, and one on an open ledger throws only for a payload
  with a non-finite number.
\<close>

section \<open>Values with a canonical text\<close>

definition emits :: "json \<Rightarrow> bool" where
  "emits v \<longleftrightarrow> emit v \<noteq> None"

lemma those_total: "those xs \<noteq> None \<longleftrightarrow> None \<notin> set xs"
  by (induction xs) (auto split: option.split)

lemma emits_simps [simp]:
  "emits JNull" "emits (JBool b)" "emits (JInt i)" "emits (JFrac s)" "emits (JStr s)" "\<not> emits (JNonFinite s)"
  "emits (JArr vs) \<longleftrightarrow> list_all emits vs" "emits (JObj kvs) \<longleftrightarrow> list_all (\<lambda>(k, v). emits v) kvs"
proof -
  show "emits (JArr vs) \<longleftrightarrow> list_all emits vs"
    using those_total [of "map emit vs"] by (auto simp: emits_def list_all_iff image_iff) (metis not_None_eq)
  have "None \<in> (\<lambda>(k, v). map_option (\<lambda>t. json_string k @ '':'' @ t) (emit v)) ` set kvs \<longleftrightarrow> (\<exists>(k, v) \<in> set kvs. emit v = None)"
    by (force simp: image_iff)
  then show "emits (JObj kvs) \<longleftrightarrow> list_all (\<lambda>(k, v). emits v) kvs"
    using those_total [of "map (\<lambda>(k, v). map_option (\<lambda>t. json_string k @ '':'' @ t) (emit v)) (sort_key fst kvs)"]
    by (auto simp: emits_def list_all_iff)
qed (simp_all add: emits_def)

section \<open>One append\<close>

abbreviation effect_rows :: "mem_ledger \<Rightarrow> (string \<times> effect) list" where
  "effect_rows l \<equiv> pj_effects (ml_pj l)"

text \<open>What an event does to the rows.\<close>

definition rows_after :: "event \<Rightarrow> (string \<times> effect) list \<Rightarrow> (string \<times> effect) list" where
  "rows_after ev es =
     (if ev_type ev = ''effect_opened'' then AList.update (the (touched ev)) (opened_effect ev (payload_of ev)) es
      else case touched ev of None \<Rightarrow> es | Some k \<Rightarrow> on_effect (effect_change ev (payload_of ev)) k es)"

lemma apply_event_rows: "pj_effects (apply_event pf pj ev) = rows_after ev (pj_effects pj)"
  by (simp add: apply_event_effects rows_after_def)

lemma rows_after_anchor: "ev_type ev = ''ledger_anchored'' \<Longrightarrow> rows_after ev es = es"
  by (simp add: rows_after_def touched_anchor)

lemma mem_append_rows:
  assumes "mem_append pf cfg ev req ident now l = (l', None)"
  shows "effect_rows l' = rows_after ev (effect_rows l) \<and> (\<exists>more. ml_events l' = ml_events l @ ev # more) \<and> \<not> ml_closed l"
proof -
  have "\<not> ml_closed l" using assms by (auto simp: mem_append_def)
  moreover have "effect_rows l' = rows_after ev (effect_rows l) \<and> (\<exists>more. ml_events l' = ml_events l @ ev # more)"
    using assms
  proof (cases rule: mem_append_cases)
    case (3 a l1)
    then have "rows_after a es = es" for es using anchor_event_type rows_after_anchor by blast
    with 3 show ?thesis by (simp add: apply_event_rows)
  qed (simp_all add: apply_event_rows)
  ultimately show ?thesis by blast
qed

lemma mem_append_closed: "mem_append pf cfg ev req ident now l = (l', err) \<Longrightarrow> ml_closed l' = ml_closed l \<and> (err = None \<longleftrightarrow> \<not> ml_closed l) \<and> (err \<noteq> None \<longrightarrow> l' = l)"
  by (auto simp: mem_append_def maybe_tick_anchor_def fire_anchor_def Let_def split: if_splits option.splits)

text \<open>The event that an append of the given type and payload writes.\<close>

definition is_event :: "string \<Rightarrow> string \<Rightarrow> json \<Rightarrow> string option \<Rightarrow> event \<Rightarrow> bool" where
  "is_event sid ty pl eid ev \<longleftrightarrow>
     ev_saga_id ev = sid \<and> ev_type ev = ty \<and> ev_payload ev = pl \<and> ev_effect_id ev = (if eid = Some [] then None else eid)"

definition wrote :: "event \<Rightarrow> mem_ledger \<Rightarrow> mem_ledger \<Rightarrow> bool" where
  "wrote ev l l' \<longleftrightarrow> effect_rows l' = rows_after ev (effect_rows l) \<and> (\<exists>more. ml_events l' = ml_events l @ ev # more) \<and> \<not> ml_closed l \<and> \<not> ml_closed l'"

lemma bind_draw: "bind (draw f) g s = g (f (en_draws s)) (s\<lparr>en_draws := Suc (en_draws s)\<rparr>)"
  by (simp add: bind_def draw_def)

lemma two_draws:
  "en_draws (s\<lparr>en_draws := m\<rparr>) = m" "s\<lparr>en_draws := m, en_draws := n\<rparr> = s\<lparr>en_draws := n\<rparr>"
  by simp_all

lemma ledger_append_cases:
  assumes "ledger_append h ev fs s = (s', r)"
  shows "r = Inr () \<and> wrote ev (en_ledger s) (en_ledger s') \<or> (\<exists>e. r = Inl e) \<and> en_ledger s' = en_ledger s \<and> ml_closed (en_ledger s)"
proof -
  let ?s = "s\<lparr>en_draws := Suc (Suc (en_draws s))\<rparr>"
  obtain l err where app: "mem_append (eh_pf h) (eh_ledger h) ev fs (eh_id h (en_draws s)) (eh_clock h (Suc (en_draws s))) (en_ledger s) = (l, err)"
    by (metis surj_pair)
  then have eq: "(s', r) = (?s\<lparr>en_ledger := l\<rparr>, case err of None \<Rightarrow> Inr () | Some e \<Rightarrow> Inl (ledger_exception e))"
    using assms by (auto simp: ledger_append_def bind_def new_id_def clock_def draw_def split: option.splits)
  show ?thesis
  proof (cases err)
    case None
    with mem_append_rows [of _ _ ev] mem_append_closed [OF app] app eq show ?thesis by (auto simp: wrote_def)
  next
    case (Some e)
    with mem_append_closed [OF app] eq show ?thesis by auto
  qed
qed

lemma append_chained_cases:
  assumes run: "append_chained h sid ty pl eid fs s = (s', r)"
  obtains (wrote) ev where "r = Inr ev" "is_event sid ty pl eid ev" "wrote ev (en_ledger s) (en_ledger s')"
  | (threw) e where "r = Inl e" "en_ledger s' = en_ledger s" "ml_closed (en_ledger s) \<or> \<not> emits pl"
proof -
  let ?s = "s\<lparr>en_draws := Suc (Suc (en_draws s))\<rparr>" and ?saga = "mem_get_saga (en_ledger s) sid"
  let ?prev = "case ?saga of Some g \<Rightarrow> sa_chain_head g | None \<Rightarrow> genesis_hash (eh_pf h) sid"
  let ?body = "\<lparr>ev_id = eh_id h (en_draws s), ev_type = ty, ev_ts = pf_iso (eh_pf h) (eh_clock h (Suc (en_draws s))), ev_saga_id = sid,
     ev_chain_seq = (case ?saga of Some g \<Rightarrow> sa_chain_len g | None \<Rightarrow> 0) + 1, ev_effect_id = (if eid = Some [] then None else eid),
     ev_actor_kind = fst (actor_of h), ev_actor_id = snd (actor_of h), ev_payload = pl, ev_prev_hash = ?prev, ev_hash = None, ev_sig = None\<rparr>"
  have step: "append_chained h sid ty pl eid fs s =
     (case chain_event (eh_pf h) ?body ?prev of None \<Rightarrow> throw (HostError ''canonicalize'') | Some ev \<Rightarrow> bind (ledger_append h ev fs) (\<lambda>_. give ev)) ?s"
    by (simp only: append_chained_def of_ledger_def bind_simps new_id_def clock_def bind_draw Let_def two_draws)
  show thesis
  proof (cases "chain_event (eh_pf h) ?body ?prev")
    case None
    then have "canonicalize (event_body (?body\<lparr>ev_prev_hash := ?prev\<rparr>)) = None" using chain_event_total by blast
    then have "\<not> emits (event_body (?body\<lparr>ev_prev_hash := ?prev\<rparr>))" by (simp add: canonicalize_def emits_def)
    then have "\<not> emits pl" by (simp add: event_body_def split: option.splits if_splits)
    moreover have "s' = ?s" "r = Inl (HostError ''canonicalize'')" using run step None by (simp_all add: throw_def)
    ultimately show thesis using threw by simp
  next
    case (Some ev)
    then have ev: "is_event sid ty pl eid ev" by (auto simp: is_event_def chain_event_def Let_def)
    obtain s1 r1 where app: "ledger_append h ev fs ?s = (s1, r1)" by (metis surj_pair)
    from ledger_append_cases [OF app] show thesis
    proof (elim disjE conjE exE)
      assume "r1 = Inr ()" and w: "wrote ev (en_ledger ?s) (en_ledger s1)"
      then have "s' = s1" "r = Inr ev" using run step Some app by (simp_all add: bind_def give_def)
      with ev w wrote show thesis by simp
    next
      fix e assume "r1 = Inl e" "en_ledger s1 = en_ledger ?s" "ml_closed (en_ledger ?s)"
      moreover from this have "s' = s1" "r = Inl e" using run step Some app by (simp_all add: bind_def)
      ultimately show thesis using threw by simp
    qed
  qed
qed

lemma append_chained_writes:
  "\<not> ml_closed (en_ledger s) \<Longrightarrow> emits pl \<Longrightarrow>
     \<exists>s' ev. append_chained h sid ty pl eid fs s = (s', Inr ev) \<and> is_event sid ty pl eid ev \<and> wrote ev (en_ledger s) (en_ledger s')"
  by (cases "append_chained h sid ty pl eid fs s") (metis append_chained_cases)

lemma raise_escalation_writes:
  assumes "\<not> ml_closed (en_ledger s)"
  shows "\<exists>s' x. raise_escalation h sid eid reason b s = (s', Inr x) \<and> \<not> ml_closed (en_ledger s')"
proof -
  let ?s = "s\<lparr>en_draws := Suc (en_draws s)\<rparr>" and ?pl = "JObj ([(''reason_code'', JStr reason)]
     @ (if nonempty b then [(''approval_binds_to'', JStr (the b))] else [])
     @ [(''priority'', JStr (orelse (escalation_priority reason) ''high'')), (''escalation_id'', JStr (eh_id h (en_draws s)))])"
  have "emits ?pl" by simp
  then obtain s' ev where "append_chained h sid ''escalation_raised'' ?pl eid None ?s = (s', Inr ev)" "wrote ev (en_ledger ?s) (en_ledger s')"
    using append_chained_writes [of ?s ?pl] assms by fastforce
  then show ?thesis by (auto simp: raise_escalation_def bind_def new_id_def draw_def give_def wrote_def)
qed

section \<open>Rows under events\<close>

lemma rows_after_other: "touched ev \<noteq> Some k \<Longrightarrow> map_of (rows_after ev es) k = map_of es k"
  by (auto simp: rows_after_def on_effect_map_of update_conv' touched_def Let_def split: option.splits if_splits)

lemma rows_after_changed:
  "ev_type ev \<noteq> ''effect_opened'' \<Longrightarrow> touched ev = Some k \<Longrightarrow>
     map_of (rows_after ev es) k = map_option (effect_change ev (payload_of ev)) (map_of es k)"
  by (simp add: rows_after_def on_effect_map_of)

lemma rows_after_opened:
  "ev_type ev = ''effect_opened'' \<Longrightarrow> touched ev = Some k \<Longrightarrow> map_of (rows_after ev es) k = Some (opened_effect ev (payload_of ev))"
  by (simp add: rows_after_def update_conv')

lemma upsert_row [simp]:
  "mem_get_effect (mem_upsert_effect e l) k = (if k = ef_effect_id e then Some e else mem_get_effect l k)"
  "ml_events (mem_upsert_effect e l) = ml_events l" "ml_closed (mem_upsert_effect e l) = ml_closed l"
  by (simp_all add: mem_get_effect_def mem_upsert_effect_def update_conv')

end
