(* ===== verification/Inbox.thy ===== *)
theory Inbox
  imports Undo Redact Shield Writes
begin

text \<open>
  The VekInbox bridge, \<^verbatim>\<open>sdk-ts/src/escalate/vekinbox.ts\<close>: an escalation is stored with the plan it proposes and
  the hash the approval binds to, and a signed webhook resolves it: a person marks the effect resolved, declines, or
  approves the plan, which is then executed.

  The host supplies the HTTP call, the HMAC, the parser of the webhook's body and the options of the execution.
  A receipt is kept as the row it is a copy of; \<^verbatim>\<open>projectionToReceipt\<close> reads it when the code looks into it.
\<close>

section \<open>State and host\<close>

record stored =
  es_id :: string
  es_key :: string
  es_reason :: string
  es_payload :: json
  es_binds_to :: string
  es_plan :: "plan option"
  es_receipt :: effect
  es_signature :: "signature option"
  es_saga_id :: string
  es_effect_id :: string
  es_request_id :: "string option"

record 'w inbox =
  ib_engine :: "'w engine"
  ib_store :: "(string \<times> stored) list"
  ib_by_id :: "(string \<times> stored) list"

text \<open>
  \<open>ih_post\<close> is the call of the inbox: \<open>None\<close> when it throws, else the \<^verbatim>\<open>id\<close> of the answer, if it has one.
  \<open>ih_match\<close> is the match of the host's registry and \<open>ih_verification\<close> the verification \<^verbatim>\<open>executePlan\<close> finds.
\<close>

record 'w inbox_host =
  ih_engine :: engine_host
  ih_exec :: "'w exec_opts"
  ih_redact :: redact_config
  ih_match :: "(receipt \<Rightarrow> signature option) option"
  ih_base_url :: "string option"
  ih_api_key :: "string option"
  ih_workspace :: "string option"
  ih_resume_url :: "string option"
  ih_post :: "string \<Rightarrow> (string \<times> string) list \<Rightarrow> json \<Rightarrow> string option option"
  ih_secret :: string
  ih_hmac :: "string \<Rightarrow> string \<Rightarrow> string"
  ih_parse :: "string \<Rightarrow> json option"
  ih_verification :: "plan \<Rightarrow> verification option"

definition in_engine :: "('w engine, 'a) action \<Rightarrow> ('w inbox, 'a) action" where
  "in_engine m = zoom ib_engine (\<lambda>t s. s\<lparr>ib_engine := t\<rparr>) m"

definition ih_pf :: "'w inbox_host \<Rightarrow> platform" where
  "ih_pf h = eh_pf (ih_engine h)"

definition stored_escalation :: "'w inbox \<Rightarrow> string \<Rightarrow> stored option" where
  "stored_escalation s k = orelse_opt (map_of (ib_store s) k) (map_of (ib_by_id s) k)"

definition list_stored :: "'w inbox \<Rightarrow> stored list" where
  "list_stored s = map snd (ib_by_id s)"

section \<open>Raising\<close>

definition offered_actions :: "string \<Rightarrow> string list option" where
  "offered_actions reason = map_of
     [(''t4_irreversible'', [''mark_manually_resolved'', ''decline'']),
      (''verifier_rejected'', [''approve_compensation'', ''decline'', ''request_changes'']),
      (''compile_rejected'', [''decline'', ''request_changes'']),
      (''compensation_failed'', [''approve_compensation'', ''mark_manually_resolved'', ''decline'']),
      (''unresolved_in_doubt'', [''mark_manually_resolved'', ''decline'']),
      (''lease_unavailable'', [''approve_compensation'', ''decline'']),
      (''window_expired'', [''mark_manually_resolved'', ''decline'']),
      (''cascade_risk'', [''approve_compensation'', ''decline'']),
      (''drafted_not_allowed'', [''approve_compensation'', ''decline''])] reason"

definition trim_base_url :: "string option \<Rightarrow> string option" where
  "trim_base_url u =
     (case u of Some (c # cs) \<Rightarrow> Some (if ends_with (c # cs) ''/'' then butlast (c # cs) else c # cs) | _ \<Rightarrow> None)"

definition title_for :: "string \<Rightarrow> string \<Rightarrow> string" where
  "title_for reason name =
     (if reason = ''t4_irreversible'' then ''Irreversible action needs review: '' @ name else ''Undo failed: '' @ name)"

definition description_for :: "string list \<Rightarrow> string list \<Rightarrow> string" where
  "description_for steps missing =
     (let bullets = (\<lambda>xs. js_join newline (map (\<lambda>x. ''- '' @ x) xs))
      in ''## Proposed compensation'' @ newline @ newline @ (if steps = [] then ''- (no compiled steps)'' else bullets steps) @ newline @ newline
         @ ''## What undo does not fix'' @ newline @ newline @ bullets missing @ newline)"

definition row_action_json :: "effect \<Rightarrow> json" where
  "row_action_json e = JObj ([(''kind'', JStr (ef_action_kind e)), (''name'', JStr (ef_action_name e))]
     @ opt_member ''target'' (ef_action_target e) @ [(''locality'', JStr (ef_locality e))])"

definition escalation_effect :: "effect \<Rightarrow> json \<Rightarrow> json" where
  "escalation_effect e observed =
     JObj ([(''effect_id'', JStr (ef_effect_id e)), (''seq'', JInt (ef_seq e)), (''action'', row_action_json e), (''tier'', JStr (ef_tier e)),
            (''opened_at'', JStr (ef_opened_at e))] @ opt_member ''closed_at'' (ef_closed_at e)
       @ [(''status'', JStr (ef_status e)), (''args_observed'', observed), (''args_hash'', JStr (ef_args_hash e))]
       @ (case ef_result_observed e of Some v \<Rightarrow> [(''result_observed'', v)] | None \<Rightarrow> [])
       @ [(''bindings'', ef_bindings e), (''resource_keys'', ef_resource_keys e), (''capture_fidelity'', JStr (ef_capture_fidelity e))])"

definition risk_str :: "risk \<Rightarrow> string" where
  "risk_str r = (case r of NoRisk \<Rightarrow> ''none'' | LowRisk \<Rightarrow> ''low'' | HighRisk \<Rightarrow> ''high'')"

definition proposed_plan :: "plan \<Rightarrow> json" where
  "proposed_plan p =
     JObj [(''plan_id'', JStr (pl_plan_id p)), (''plan_hash'', JStr (pl_hash p)), (''compensator_id'', JStr (pl_compensator_id p)),
           (''origin'', JStr (source_str (pl_origin p))), (''rendered_steps'', JArr [JStr (pl_summary p)]),
           (''reversal_completeness'', JStr (completeness_str (pl_completeness p))), (''leak'', JStr (leak_str (pl_leak p))),
           (''cascade_risk'', JStr (risk_str (pl_cascade_risk p)))]"

definition not_fixed :: "plan option \<Rightarrow> receipt \<Rightarrow> string list" where
  "not_fixed plan rc =
     (case plan of Some p \<Rightarrow> what_undo_does_not_fix (pl_leak p) (pl_cascade_risk p) (pl_completeness p)
        | None \<Rightarrow> what_undo_does_not_fix (rc_leak rc) (rc_cascade_risk rc) BestEffort)"

definition binds_to :: "plan option \<Rightarrow> string" where
  "binds_to plan = (case plan of Some p \<Rightarrow> pl_hash p | None \<Rightarrow> [])"

definition escalation_payload ::
  "string \<Rightarrow> string \<Rightarrow> effect \<Rightarrow> receipt \<Rightarrow> json \<Rightarrow> plan option \<Rightarrow> string \<Rightarrow> string list \<Rightarrow> json" where
  "escalation_payload reason saga_id e rc observed plan head event_ids =
     JObj ([(''v'', JStr ''vekrevert/v1''), (''reason_code'', JStr reason), (''saga_id'', JStr saga_id),
            (''effect'', escalation_effect e observed)]
       @ (case plan of Some p \<Rightarrow> [(''proposed_plan'', proposed_plan p)] | None \<Rightarrow> [])
       @ [(''risk'', JObj [(''summary'', JStr (reason @ '' on '' @ ef_action_name e)), (''blast_radius'', ef_resource_keys e),
             (''what_undo_does_not_fix'', JArr (map JStr (not_fixed plan rc))),
             (''reversible_if_approved'', JBool (case plan of Some p \<Rightarrow> pl_origin p \<noteq> Drafted \<and> rc_tier rc \<noteq> T4 | None \<Rightarrow> False))]),
          (''ledger'', JObj [(''chain_head'', JStr head), (''receipt_events'', JArr (map JStr event_ids))]),
          (''approval_binds_to'', JStr (binds_to plan))])"

record raise_opts =
  ro_saga_id :: string
  ro_effect_id :: string
  ro_reason :: string
  ro_plan :: "plan option"
  ro_receipt :: "effect option"
  ro_signature :: "signature option"

text \<open>The plan to propose: the given one, or what the registry's match compiles to.\<close>

definition propose :: "'w inbox_host \<Rightarrow> raise_opts \<Rightarrow> receipt \<Rightarrow> ('w inbox, plan option \<times> signature option) action" where
  "propose h ro rc =
     (case (ro_plan ro, ih_match h) of
        (None, Some match) \<Rightarrow>
          (case match rc of
             None \<Rightarrow> give (None, ro_signature ro)
           | Some sg \<Rightarrow>
               bind (in_engine (clock (ih_engine h))) (\<lambda>now.
                 case compile_plan (ih_pf h) rc sg \<lparr>co_origin = Some (sg_source sg), co_now = now, co_plan_id = None, co_steps = None\<rparr> of
                   Compiled p \<Rightarrow> give (Some p, Some sg) | Rejected _ \<Rightarrow> give (None, Some sg) | Threw \<Rightarrow> throw type_error))
      | (plan, _) \<Rightarrow> give (plan, ro_signature ro))"

definition inbox_body :: "'w inbox_host \<Rightarrow> stored \<Rightarrow> string \<Rightarrow> string list \<Rightarrow> json" where
  "inbox_body h es name missing =
     JObj (opt_member ''workspace_id'' (ih_workspace h)
       @ [(''title'', JStr (title_for (es_reason es) name)),
          (''description'', JStr (description_for (case es_plan es of Some p \<Rightarrow> [pl_summary p] | None \<Rightarrow> []) missing)),
          (''priority'', JStr (orelse (escalation_priority (es_reason es)) ''high''))]
       @ (case offered_actions (es_reason es) of Some as \<Rightarrow> [(''actions'', JArr (map JStr as))] | None \<Rightarrow> [])
       @ [(''key'', JStr (es_key es)), (''metadata'', es_payload es)] @ opt_member ''resume_webhook_url'' (ih_resume_url h))"

definition sink_raise :: "'w inbox_host \<Rightarrow> stored \<Rightarrow> ('w inbox, unit) action" where
  "sink_raise h es =
     bind (in_engine (raise_escalation (ih_engine h) (es_saga_id es) (Some (es_effect_id es)) (es_reason es) (Some (es_binds_to es)))) (\<lambda>_. give ())"

definition raised_event :: "'w inbox_host \<Rightarrow> stored \<Rightarrow> string option \<Rightarrow> ('w inbox, unit) action" where
  "raised_event h es request_id =
     bind (in_engine (append_chained (ih_engine h) (es_saga_id es) ''escalation_raised''
       (JObj ([(''reason_code'', JStr (es_reason es))]
          @ (if nonempty request_id then opt_member ''vekinbox_request_id'' request_id else [])
          @ [(''approval_binds_to'', JStr (es_binds_to es)), (''priority'', JStr (orelse (escalation_priority (es_reason es)) ''high'')),
             (''escalation_id'', JStr (es_id es)), (''key'', JStr (es_key es))]))
       (Some (es_effect_id es)) None)) (\<lambda>_. give ())"

text \<open>The call of the inbox with its fallback to the ledger's own sink; the result is the id of the request.\<close>

definition announce_escalation :: "'w inbox_host \<Rightarrow> stored \<Rightarrow> string \<Rightarrow> string list \<Rightarrow> ('w inbox, string option) action" where
  "announce_escalation h es name missing =
     (case trim_base_url (ih_base_url h) of
        None \<Rightarrow> bind (sink_raise h es) (\<lambda>_. give None)
      | Some url \<Rightarrow>
          (let answer = ih_post h (url @ ''/requests'')
                 ([(''content-type'', ''application/json'')]
                  @ (if nonempty (ih_api_key h) then [(''authorization'', ''Bearer '' @ the (ih_api_key h))] else []))
                 (inbox_body h es name missing)
           in case answer of
                None \<Rightarrow> bind (sink_raise h es) (\<lambda>_. give None)
              | Some request_id \<Rightarrow>
                  bind (catching (raised_event h es request_id) (\<lambda>_. sink_raise h es)) (\<lambda>_. give request_id)))"

definition keep_escalation :: "stored \<Rightarrow> ('w inbox, unit) action" where
  "keep_escalation es = modifies (\<lambda>s. s\<lparr>ib_store := set_key (es_key es) es (ib_store s), ib_by_id := set_key (es_id es) es (ib_by_id s)\<rparr>)"

definition raise_for :: "'w inbox_host \<Rightarrow> raise_opts \<Rightarrow> effect \<Rightarrow> json \<Rightarrow> receipt \<Rightarrow> ('w inbox, stored) action" where
  "raise_for h ro e observed rc =
     bind (propose h ro rc) (\<lambda>(plan, sg).
     bind (in_engine (of_ledger (\<lambda>l. (mem_get_saga l (ro_saga_id ro), map ev_id (mem_read_saga l (ro_saga_id ro)))))) (\<lambda>(saga, event_ids).
     bind (in_engine (new_id (ih_engine h))) (\<lambda>escalation_id.
       let es = \<lparr>es_id = escalation_id,
             es_key = ''vekrevert.'' @ ro_saga_id ro @ ''.'' @ show_int (ef_seq e) @ ''.'' @ ro_reason ro, es_reason = ro_reason ro,
             es_payload = escalation_payload (ro_reason ro) (ro_saga_id ro) e rc observed plan
               (case saga of Some s \<Rightarrow> sa_chain_head s | None \<Rightarrow> []) event_ids,
             es_binds_to = binds_to plan, es_plan = plan, es_receipt = e, es_signature = sg, es_saga_id = ro_saga_id ro,
             es_effect_id = ro_effect_id ro, es_request_id = None\<rparr>
       in bind (announce_escalation h es (ef_action_name e) (not_fixed plan rc)) (\<lambda>request_id.
          bind (keep_escalation (es\<lparr>es_request_id := request_id\<rparr>)) (\<lambda>_. give (es\<lparr>es_request_id := request_id\<rparr>))))))"

definition raise_inbox :: "'w inbox_host \<Rightarrow> raise_opts \<Rightarrow> ('w inbox, stored) action" where
  "raise_inbox h ro =
     bind (in_engine (of_ledger (\<lambda>l. mem_get_effect l (ro_effect_id ro)))) (\<lambda>row.
       case row of
         None \<Rightarrow> throw (vr VR3001 (''unknown effect '' @ ro_effect_id ro))
       | Some e0 \<Rightarrow>
           (let e = orelse (ro_receipt ro) e0
            in case redact_args (ih_pf h) (ih_redact h) (ef_args_observed e) of
                 None \<Rightarrow> throw (HostError ''canonicalize'')
               | Some red \<Rightarrow>
                   (case projection_to_receipt e of None \<Rightarrow> throw type_error | Some rc \<Rightarrow> raise_for h ro e (rd_observed red) rc)))"

section \<open>The webhook\<close>

text \<open>
  The value of a decimal text as a fraction of a power of ten.  Other texts that \<^verbatim>\<open>Number\<close> reads (an exponent,
  hexadecimal digits, blanks) are refused here.
\<close>

definition decimal_text :: "string \<Rightarrow> (int \<times> nat) option" where
  "decimal_text s =
     (let t = js_trim s; neg = starts_with t ''-''; u = (if neg \<or> starts_with t ''+'' then tl t else t);
          ip = takeWhile is_digit u; r = dropWhile is_digit u; sign = (\<lambda>n. if neg then - int n else int n)
      in if r = [] \<and> ip \<noteq> [] then Some (sign (read_nat ip), 0)
         else if starts_with r ''.'' \<and> list_all is_digit (tl r) \<and> ip @ tl r \<noteq> [] then Some (sign (read_nat (ip @ tl r)), length (tl r))
         else None)"

definition within_skew :: "int \<Rightarrow> int \<times> nat \<Rightarrow> bool" where
  "within_skew now t = (\<bar>now * 10 ^ snd t - fst t * 1000\<bar> \<le> webhook_max_skew_ms * 10 ^ snd t)"

definition verify_webhook_signature :: "(string \<Rightarrow> string \<Rightarrow> string) \<Rightarrow> string \<Rightarrow> string \<Rightarrow> string \<Rightarrow> string \<Rightarrow> int \<Rightarrow> bool" where
  "verify_webhook_signature hmac secret timestamp raw sig now \<longleftrightarrow>
     secret \<noteq> [] \<and> timestamp \<noteq> [] \<and> sig \<noteq> []
     \<and> (case decimal_text timestamp of None \<Rightarrow> False | Some t \<Rightarrow> within_skew now t)
     \<and> sig = ''sha256='' @ hmac secret (timestamp @ ''.'' @ raw)"

definition webhook_signature :: "(string \<times> string) list \<Rightarrow> string" where
  "webhook_signature headers = orelse (orelse_opt (map_of headers ''x-vekinbox-signature'') (map_of headers ''X-VekInbox-Signature'')) []"

definition webhook_timestamp :: "(string \<times> string) list \<Rightarrow> string" where
  "webhook_timestamp headers = orelse (orelse_opt (map_of headers ''x-vekinbox-timestamp'') (map_of headers ''X-VekInbox-Timestamp'')) []"

definition authentic :: "'w inbox_host \<Rightarrow> (string \<times> string) list \<Rightarrow> string \<Rightarrow> int \<Rightarrow> bool" where
  "authentic h headers raw now \<longleftrightarrow>
     verify_webhook_signature (ih_hmac h) (ih_secret h) (webhook_timestamp headers) raw (webhook_signature headers) now"

section \<open>Resuming\<close>

record resume_result =
  rs_ok :: bool
  rs_error :: "string option"
  rs_executed :: "bool option"

definition refused :: "string \<Rightarrow> resume_result" where
  "refused code = \<lparr>rs_ok = False, rs_error = Some code, rs_executed = None\<rparr>"

definition body_text :: "json \<Rightarrow> string list \<Rightarrow> string \<Rightarrow> string" where
  "body_text body ks other = (case first_field body ks of Some v \<Rightarrow> js_string v | None \<Rightarrow> other)"

definition resume_action :: "json \<Rightarrow> string" where
  "resume_action body = body_text body [''action'', ''type''] ''approve_compensation''"

definition resume_key :: "json \<Rightarrow> string" where
  "resume_key body = body_text body [''key'', ''escalation_id''] []"

definition resume_actor :: "json \<Rightarrow> string" where
  "resume_actor body = body_text body [''actor_id'', ''resolved_by''] ''human''"

definition claimed_hash :: "json \<Rightarrow> stored \<Rightarrow> string" where
  "claimed_hash body es = body_text body [''plan_hash''] (es_binds_to es)"

definition resolved_event :: "'w inbox_host \<Rightarrow> stored \<Rightarrow> string \<Rightarrow> string \<Rightarrow> string \<Rightarrow> bool \<Rightarrow> ('w inbox, unit) action" where
  "resolved_event h es action actor hash executed =
     bind (in_engine (append_chained (ih_engine h) (es_saga_id es) ''escalation_resolved''
       (JObj [(''action'', JStr action), (''resolved_by'', JStr actor), (''plan_hash'', JStr hash), (''executed'', JBool executed)])
       (Some (es_effect_id es)) None)) (\<lambda>_. give ())"

definition mark_manually_resolved :: "'w inbox_host \<Rightarrow> stored \<Rightarrow> string \<Rightarrow> ('w inbox, resume_result) action" where
  "mark_manually_resolved h es actor =
     bind (in_engine (on_ledger (\<lambda>l. case mem_get_effect l (es_effect_id es) of
        Some e \<Rightarrow> mem_upsert_effect (e\<lparr>ef_comp_state := ''manually_resolved''\<rparr>) l | None \<Rightarrow> l))) (\<lambda>_.
     bind (resolved_event h es ''mark_manually_resolved'' actor (es_binds_to es) False) (\<lambda>_.
       give \<lparr>rs_ok = True, rs_error = None, rs_executed = Some False\<rparr>))"

definition decline :: "'w inbox_host \<Rightarrow> stored \<Rightarrow> string \<Rightarrow> ('w inbox, resume_result) action" where
  "decline h es actor =
     bind (resolved_event h es ''decline'' actor (es_binds_to es) False) (\<lambda>_.
       give \<lparr>rs_ok = False, rs_error = Some ''VR6006'', rs_executed = Some False\<rparr>)"

text \<open>\<^verbatim>\<open>resolveDeep\<close> and \<^verbatim>\<open>assertScope\<close> on the stored plan, when its signature is known; the rejection is thrown.\<close>

definition recheck_scope :: "platform \<Rightarrow> stored \<Rightarrow> plan \<Rightarrow> engine_error option" where
  "recheck_scope pf es p =
     (case es_signature es of
        None \<Rightarrow> None
      | Some sg \<Rightarrow>
          (case projection_to_receipt (es_receipt es) of
             None \<Rightarrow> Some type_error
           | Some rc \<Rightarrow>
               (case resolve_steps (pl_steps p) rc sg (pl_origin p) of
                  Inl rj \<Rightarrow> Some (vr (rj_code rj) (rj_detail rj))
                | Inr resolved \<Rightarrow> map_option (\<lambda>rj. vr (rj_code rj) (rj_detail rj)) (assert_scope pf (pl_steps p) resolved rc sg (pl_origin p)))))"

definition hash_again :: "platform \<Rightarrow> plan \<Rightarrow> string option" where
  "hash_again pf p = plan_hash pf (pl_effect_id p) (pl_compensator_id p) (pl_origin p) (pl_steps p)"

definition run_approved :: "'w inbox_host \<Rightarrow> stored \<Rightarrow> string \<Rightarrow> plan \<Rightarrow> ('w inbox, resume_result) action" where
  "run_approved h es actor p =
     bind (in_engine (append_chained (ih_engine h) (es_saga_id es) ''approval_granted''
        (JObj [(''plan_hash'', JStr (pl_hash p)), (''actor_id'', JStr actor)]) (Some (es_effect_id es)) None)) (\<lambda>_.
     bind (in_engine (on_ledger (mem_put_plan p))) (\<lambda>_.
     bind (in_engine (execute_plan (ih_engine h) (ih_exec h) p (ih_verification h p))) (\<lambda>_.
     bind (resolved_event h es ''approve_compensation'' actor (pl_hash p) True) (\<lambda>_.
       give \<lparr>rs_ok = True, rs_error = None, rs_executed = Some True\<rparr>))))"

definition approve :: "'w inbox_host \<Rightarrow> json \<Rightarrow> stored \<Rightarrow> ('w inbox, resume_result) action" where
  "approve h body es =
     (case es_plan es of
        None \<Rightarrow> give (refused ''VR3001'')
      | Some p \<Rightarrow>
          (case hash_again (ih_pf h) p of
             None \<Rightarrow> throw (HostError ''canonicalize'')
           | Some again \<Rightarrow>
               if again \<noteq> es_binds_to es \<or> claimed_hash body es \<noteq> es_binds_to es then
                 bind (raise_inbox h \<lparr>ro_saga_id = es_saga_id es, ro_effect_id = es_effect_id es, ro_reason = es_reason es,
                    ro_plan = Some p, ro_receipt = Some (es_receipt es), ro_signature = es_signature es\<rparr>) (\<lambda>_.
                 throw (vr VR6004 ''plan_hash_mismatch''))
               else (case assert_provenance (pl_steps p) of
                 Some rj \<Rightarrow> throw (vr (rj_code rj) (rj_detail rj))
               | None \<Rightarrow>
                   (case recheck_scope (ih_pf h) es p of
                      Some e \<Rightarrow> throw e
                    | None \<Rightarrow> run_approved h es (resume_actor body) p))))"

text \<open>Every answer that is neither a resolution by hand nor a refusal approves.\<close>

definition resume_stored :: "'w inbox_host \<Rightarrow> json \<Rightarrow> stored \<Rightarrow> ('w inbox, resume_result) action" where
  "resume_stored h body es =
     (if resume_action body = ''mark_manually_resolved'' then mark_manually_resolved h es (resume_actor body)
      else if resume_action body = ''decline'' then decline h es (resume_actor body)
      else approve h body es)"

definition on_resume :: "'w inbox_host \<Rightarrow> (string \<times> string) list \<Rightarrow> string \<Rightarrow> int \<Rightarrow> ('w inbox, resume_result) action" where
  "on_resume h headers raw now =
     (if \<not> authentic h headers raw now then give (refused ''VR6003'')
      else case ih_parse h raw of
        None \<Rightarrow> give (refused ''VR6003'')
      | Some body \<Rightarrow>
          if body = JNull then throw type_error
          else bind (reads (\<lambda>s. stored_escalation s (resume_key body))) (\<lambda>found.
            case found of None \<Rightarrow> give (refused ''VR6003'') | Some es \<Rightarrow> resume_stored h body es))"

section \<open>What an approval can do\<close>

definition same_world :: "'w inbox \<Rightarrow> 'w inbox \<Rightarrow> bool" where
  "same_world s t \<longleftrightarrow> en_world (ib_engine t) = en_world (ib_engine s)"

interpretation sw: preserved same_world
  by unfold_locales (simp_all add: same_world_def)

lemma in_engine_same_world: "keeps world_fixed m \<Longrightarrow> keeps same_world (in_engine m)"
  unfolding in_engine_def by (erule zoom_keeps) (simp add: world_fixed_def same_world_def)

lemma on_ledger_world [intro, simp]: "keeps world_fixed (on_ledger g)"
  by (simp add: on_ledger_def keeps_def modifies_def world_fixed_def)

lemma engine_calls_same_world [intro, simp]:
  "keeps same_world (in_engine (append_chained h sid ty pl eid fs))"
  "keeps same_world (in_engine (raise_escalation h sid eid reason b))"
  "keeps same_world (in_engine (new_id h))" "keeps same_world (in_engine (clock h))"
  "keeps same_world (in_engine (of_ledger f))" "keeps same_world (in_engine (on_ledger g))"
  by (intro in_engine_same_world events_only_world append_chained_events_only raise_events_only ids_events_only of_ledger_events_only on_ledger_world)+

lemma raising_same_world [intro, simp]:
  "keeps same_world (sink_raise h es)" "keeps same_world (raised_event h es q)" "keeps same_world (keep_escalation es)"
  "keeps same_world (resolved_event h es a actor hash x)"
  unfolding sink_raise_def raised_event_def keep_escalation_def resolved_event_def
  by (intro sw.bind sw.give engine_calls_same_world sw.modifies; simp add: same_world_def)+

lemma announce_same_world [intro, simp]: "keeps same_world (announce_escalation h es name missing)"
  unfolding announce_escalation_def Let_def
  by (intro sw.case_option_action sw.bind sw.catching sw.give raising_same_world)

lemma propose_same_world [intro, simp]: "keeps same_world (propose h ro rc)"
  unfolding propose_def
  by (auto split: option.split compile_result.split intro!: sw.bind)

lemma raise_inbox_same_world [intro, simp]: "keeps same_world (raise_inbox h ro)"
  unfolding raise_inbox_def raise_for_def Let_def
  by (intro sw.bind sw.case_option_action sw.case_prod_action sw.give sw.throw engine_calls_same_world propose_same_world
      announce_same_world raising_same_world)

lemma refusals_same_world [intro, simp]:
  "keeps same_world (mark_manually_resolved h es actor)" "keeps same_world (decline h es actor)"
  unfolding mark_manually_resolved_def decline_def
  by (intro sw.bind sw.give engine_calls_same_world raising_same_world)+

lemma run_approved_world:
  assumes run: "run_approved h es actor p s = (s', r)"
  shows "same_world s s' \<and> (\<forall>rs. r = Inr rs \<longrightarrow> rs_executed rs \<noteq> Some True)
    \<or> (\<exists>t t' x. en_world t = en_world (ib_engine s) \<and> execute_plan (ih_engine h) (ih_exec h) p (ih_verification h p) t = (t', x)
        \<and> en_world t' = en_world (ib_engine s'))"
proof -
  let ?grant = "in_engine (append_chained (ih_engine h) (es_saga_id es) ''approval_granted''
        (JObj [(''plan_hash'', JStr (pl_hash p)), (''actor_id'', JStr actor)]) (Some (es_effect_id es)) None)"
  obtain s1 r1 where grant: "?grant s = (s1, r1)" by (cases "?grant s")
  then have w1: "same_world s s1" using engine_calls_same_world(1) by (blast dest: keepsD)
  show ?thesis
  proof (cases r1)
    case (Inl e)
    with run grant have "s' = s1 \<and> r = Inl e" unfolding run_approved_def by (simp add: bind_Inl)
    with w1 show ?thesis by simp
  next
    case (Inr a)
    let ?s2 = "s1\<lparr>ib_engine := (ib_engine s1)\<lparr>en_ledger := mem_put_plan p (en_ledger (ib_engine s1))\<rparr>\<rparr>"
    obtain t' x where ex: "execute_plan (ih_engine h) (ih_exec h) p (ih_verification h p) (ib_engine ?s2) = (t', x)"
      by (cases "execute_plan (ih_engine h) (ih_exec h) p (ih_verification h p) (ib_engine ?s2)")
    have put: "in_engine (on_ledger (mem_put_plan p)) s1 = (?s2, Inr ())"
      by (simp add: in_engine_def zoom_def on_ledger_def modifies_def)
    have exec: "in_engine (execute_plan (ih_engine h) (ih_exec h) p (ih_verification h p)) ?s2 = (?s2\<lparr>ib_engine := t'\<rparr>, x)"
      using ex by (simp add: in_engine_def zoom_def)
    have "same_world (?s2\<lparr>ib_engine := t'\<rparr>) s'"
    proof (cases x)
      case (Inl e)
      have "run_approved h es actor p s = (?s2\<lparr>ib_engine := t'\<rparr>, Inl e)"
        unfolding run_approved_def using grant Inr put exec Inl by (simp only: bind_def prod.case sum.case)
      with run show ?thesis by (simp add: same_world_def)
    next
      case (Inr b)
      let ?rest = "bind (resolved_event h es ''approve_compensation'' actor (pl_hash p) True)
        (\<lambda>_. give \<lparr>rs_ok = True, rs_error = None, rs_executed = Some True\<rparr>)"
      have "run_approved h es actor p s = ?rest (?s2\<lparr>ib_engine := t'\<rparr>)"
        unfolding run_approved_def using grant \<open>r1 = Inr a\<close> put exec Inr by (simp only: bind_def prod.case sum.case)
      moreover have "keeps same_world ?rest" by (intro sw.bind sw.give raising_same_world)
      ultimately show ?thesis using run by (metis keepsD)
    qed
    then have "en_world t' = en_world (ib_engine s')" by (simp add: same_world_def)
    moreover have "en_world (ib_engine ?s2) = en_world (ib_engine s)" using w1 by (simp add: same_world_def)
    ultimately show ?thesis using ex by blast
  qed
qed


section \<open>An approval that is refused\<close>

text \<open>
  \<open>execute_plan\<close> escalates a plan of high cascade risk again instead of running it, and the answer to its approval
  says that it was executed.
\<close>

lemma high_risk_refused:
  assumes "\<not> ml_closed (en_ledger s)" "pl_cascade_risk p = HighRisk" "pl_origin p \<noteq> Drafted"
    and gate: "execute_gate_rejection (eh_pf h) p v (orelse (xo_mode xo) (eh_mode h)) (eh_clock h (en_draws s)) = None"
    and rc: "mem_get_effect (en_ledger s) (pl_effect_id p) = Some e" "projection_to_receipt e = Some rc" "rc_tier rc \<noteq> T4"
    and steps: "\<not> list_ex is_manual_step (pl_steps p)"
  shows "\<exists>s' res. execute_plan h xo p v s = (s', Inr res) \<and> \<not> xr_ok res \<and> \<not> ml_closed (en_ledger s')"
proof -
  let ?s = "s\<lparr>en_draws := Suc (en_draws s)\<rparr>"
  have load: "load_receipt (pl_effect_id p) ?s = (?s, Inr rc)"
    using rc by (simp add: load_receipt_def of_ledger_def give_def)
  have "execute_plan h xo p v s = bind (raise_plan h p ''cascade_risk'')
     (\<lambda>_. result_now h p (eh_clock h (en_draws s)) False [] (Some ''VR1010'')) ?s"
    using assms by (simp add: execute_plan_def clock_def bind_draw Let_def bind_Inr [where m = "load_receipt _", OF load])
  moreover obtain s1 x where "raise_escalation h (pl_saga_id p) (Some (pl_effect_id p)) ''cascade_risk'' (Some (pl_hash p)) ?s = (s1, Inr x)"
    "\<not> ml_closed (en_ledger s1)"
    using raise_escalation_writes [of ?s] assms(1) by fastforce
  ultimately show ?thesis
    by (auto simp: raise_plan_def give_def result_now_def clock_def make_result_def bind_def draw_def)
qed

lemma approved_high_risk:
  assumes "\<not> ml_closed (en_ledger (ib_engine s))" "pl_cascade_risk p = HighRisk" "pl_origin p \<noteq> Drafted"
    and gate: "\<And>now. execute_gate_rejection (ih_pf h) p (ih_verification h p) (orelse (xo_mode (ih_exec h)) (eh_mode (ih_engine h))) now = None"
    and rc: "mem_get_effect (en_ledger (ib_engine s)) (pl_effect_id p) = Some e" "projection_to_receipt e = Some rc" "rc_tier rc \<noteq> T4"
    and steps: "\<not> list_ex is_manual_step (pl_steps p)"
  shows "\<exists>s'. run_approved h es actor p s = (s', Inr \<lparr>rs_ok = True, rs_error = None, rs_executed = Some True\<rparr>)"
proof -
  let ?lift = "\<lambda>t. s\<lparr>ib_engine := t\<rparr>" and ?granted = "JObj [(''plan_hash'', JStr (pl_hash p)), (''actor_id'', JStr actor)]"
  let ?grant = "append_chained (ih_engine h) (es_saga_id es) ''approval_granted''
        (JObj [(''plan_hash'', JStr (pl_hash p)), (''actor_id'', JStr actor)]) (Some (es_effect_id es)) None :: ('a engine, event) action"
  obtain t1 ev where g: "?grant (ib_engine s) = (t1, Inr ev)" "wrote ev (en_ledger (ib_engine s)) (en_ledger t1)"
    "is_event (es_saga_id es) ''approval_granted'' (JObj [(''plan_hash'', JStr (pl_hash p)), (''actor_id'', JStr actor)]) (Some (es_effect_id es)) ev"
    using append_chained_writes [OF assms(1), of ?granted] by fastforce
  let ?t2 = "t1\<lparr>en_ledger := mem_put_plan p (en_ledger t1)\<rparr>"
  have "touched ev = None" using g(3) by (simp add: is_event_def touched_def effect_events_def Let_def)
  then have t2: "\<not> ml_closed (en_ledger ?t2)" "mem_get_effect (en_ledger ?t2) (pl_effect_id p) = Some e"
    using g(2,3) rc(1) by (simp_all add: wrote_def rows_after_def mem_put_plan_def mem_get_effect_def is_event_def)
  from high_risk_refused [OF t2(1) assms(2,3) _ t2(2) rc(2,3) steps] gate obtain t3 res where
    x: "execute_plan (ih_engine h) (ih_exec h) p (ih_verification h p) ?t2 = (t3, Inr res)" "\<not> ml_closed (en_ledger t3)"
    unfolding ih_pf_def by blast
  obtain t4 ev4 where r: "append_chained (ih_engine h) (es_saga_id es) ''escalation_resolved''
       (JObj [(''action'', JStr ''approve_compensation''), (''resolved_by'', JStr actor), (''plan_hash'', JStr (pl_hash p)), (''executed'', JBool True)])
       (Some (es_effect_id es)) None t3 = (t4, Inr ev4)"
    using append_chained_writes [OF x(2), of "JObj [(''action'', JStr ''approve_compensation''), (''resolved_by'', JStr actor),
      (''plan_hash'', JStr (pl_hash p)), (''executed'', JBool True)]"] by fastforce
  have "run_approved h es actor p s = (?lift t4, Inr \<lparr>rs_ok = True, rs_error = None, rs_executed = Some True\<rparr>)"
    using g(1) x(1) r by (simp add: run_approved_def resolved_event_def bind_def in_engine_def zoom_def on_ledger_def modifies_def give_def)
  then show ?thesis by blast
qed

text \<open>An answer that asks for changes to the plan is taken as an approval.\<close>

lemma changes_approve: "resume_action body = ''request_changes'' \<Longrightarrow> resume_stored h body es = approve h body es"
  by (simp add: resume_stored_def)

text \<open>A stored escalation of the given plan, and a webhook that answers it.\<close>

definition sample_approval :: "risk \<Rightarrow> plan" where
  "sample_approval risk = sample_exec_plan\<lparr>pl_steps := [JObj [(''kind'', JStr ''noop''), (''reason'', JStr ''none'')]], pl_cascade_risk := risk\<rparr>"

definition sample_stored :: "risk \<Rightarrow> stored" where
  "sample_stored risk = \<lparr>es_id = ''E'', es_key = ''K'', es_reason = ''cascade_risk'', es_payload = JNull,
     es_binds_to = the (hash_again sample_platform (sample_approval risk)), es_plan = Some (sample_approval risk),
     es_receipt = opened_effect sample_effect_event (payload_of sample_effect_event), es_signature = None,
     es_saga_id = ''s'', es_effect_id = ''e'', es_request_id = None\<rparr>"

definition sample_inbox :: "risk \<Rightarrow> sample_world inbox" where
  "sample_inbox risk = \<lparr>ib_engine = sample_engine, ib_store = [(''K'', sample_stored risk)], ib_by_id = [(''E'', sample_stored risk)]\<rparr>"

definition sample_inbox_host :: "string \<Rightarrow> sample_world inbox_host" where
  "sample_inbox_host answer = \<lparr>ih_engine = sample_host, ih_exec = sample_exec_opts, ih_redact = sample_redact, ih_match = None, ih_base_url = None,
     ih_api_key = None, ih_workspace = None, ih_resume_url = None, ih_post = (\<lambda>_ _ _. None), ih_secret = ''k'', ih_hmac = (\<lambda>k m. m),
     ih_parse = (\<lambda>_. Some (JObj [(''key'', JStr ''K''), (''action'', JStr answer)])), ih_verification = (\<lambda>_. None)\<rparr>"

definition sample_headers :: "(string \<times> string) list" where
  "sample_headers = [(''x-vekinbox-timestamp'', ''1''), (''x-vekinbox-signature'', ''sha256=1.b'')]"

lemma sample_resumed:
  "\<exists>s'. on_resume (sample_inbox_host ''approve_compensation'') sample_headers ''b'' 1000 (sample_inbox HighRisk)
     = (s', Inr \<lparr>rs_ok = True, rs_error = None, rs_executed = Some True\<rparr>)"
proof -
  let ?h = "sample_inbox_host ''approve_compensation''" and ?s = "sample_inbox HighRisk" and ?es = "sample_stored HighRisk"
    and ?body = "JObj [(''key'', JStr ''K''), (''action'', JStr ''approve_compensation'')]"
  have auth: "authentic ?h sample_headers ''b'' 1000" by code_simp
  have body: "ih_parse ?h ''b'' = Some ?body"
    by (simp add: sample_inbox_host_def)
  have again: "hash_again sample_platform (sample_approval HighRisk) = Some (es_binds_to ?es)" by code_simp
  have checks: "assert_provenance (pl_steps (sample_approval HighRisk)) = None" "recheck_scope sample_platform ?es (sample_approval HighRisk) = None"
    by code_simp+
  have steps: "\<not> list_ex is_manual_step (pl_steps (sample_approval HighRisk))" by code_simp
  have e: "mem_get_effect (en_ledger (ib_engine ?s)) ''e'' = Some (es_receipt ?es)" "projection_to_receipt (es_receipt ?es) \<noteq> None"
    "map_option rc_tier (projection_to_receipt (es_receipt ?es)) = Some T1" "\<not> ml_closed (en_ledger (ib_engine ?s))" by code_simp+
  then obtain rc where rc: "projection_to_receipt (es_receipt ?es) = Some rc" "rc_tier rc \<noteq> T4" by auto
  have gate: "execute_gate_rejection (ih_pf ?h) (sample_approval HighRisk) (ih_verification ?h (sample_approval HighRisk))
      (orelse (xo_mode (ih_exec ?h)) (eh_mode (ih_engine ?h))) now = None" for now
    by (simp add: sample_inbox_host_def sample_exec_opts_def sample_host_def sample_approval_def sample_exec_plan_def
        execute_gate_rejection_def execute_requires_verification_gate_def)
  have "\<exists>s'. run_approved ?h ?es ''human'' (sample_approval HighRisk) ?s = (s', Inr \<lparr>rs_ok = True, rs_error = None, rs_executed = Some True\<rparr>)"
    by (rule approved_high_risk [OF e(4) _ _ gate _ rc steps]) (simp_all add: sample_approval_def sample_exec_plan_def e(1))
  moreover have "resume_key ?body = ''K''" "resume_action ?body = ''approve_compensation''" "resume_actor ?body = ''human''"
    "claimed_hash ?body ?es = es_binds_to ?es" by code_simp+
  moreover have "stored_escalation ?s ''K'' = Some ?es" "es_plan ?es = Some (sample_approval HighRisk)" "ih_pf ?h = sample_platform"
    by (simp_all add: stored_escalation_def sample_inbox_def sample_stored_def ih_pf_def sample_inbox_host_def sample_host_def)
  ultimately show ?thesis using auth body again checks
    by (simp add: on_resume_def resume_stored_def approve_def)
qed


end
