(* ===== verification/Capture.thy ===== *)
theory Capture
  imports Registry Redact Shield Taxonomy Writes
begin

text \<open>
  The capture of an effect, \<^verbatim>\<open>sdk-ts/src/effect.ts\<close> with \<^verbatim>\<open>preimage/store.ts\<close> and \<^verbatim>\<open>capture/inflight.ts\<close>: \<^verbatim>\<open>openEffect\<close>
  writes the effect to the ledger before the action runs, \<^verbatim>\<open>closeEffect\<close> seals what was observed of it, and
  \<^verbatim>\<open>reconcileOpenedAsInDoubt\<close> marks what was opened and never closed.

  The ledger is the memory ledger; events hold the objects they are given, so a reason that is added to a
  classification later shows in the events and the row that share it (\<open>share_reason\<close>).  What an action returns
  and throws is a JSON value, on which \<^verbatim>\<open>toJson\<close> only maps non-finite numbers to null; a signature is complete
  or absent.
\<close>

section \<open>Preimages\<close>

record preimage_input =
  pn_kind :: preimage_kind
  pn_bytes :: "string option"
  pn_rows :: "json list option"
  pn_meta :: "(string \<times> json) list option"
  pn_max_bytes :: "int option"
  pn_max_rows :: "int option"

text \<open>\<^verbatim>\<open>TextEncoder\<close>: the UTF-8 bytes of a text.\<close>

definition utf8 :: "string \<Rightarrow> string" where
  "utf8 s = concat (map (\<lambda>c. let n = of_char c :: nat in if n < 128 then [c] else [char_of (192 + n div 64), char_of (128 + n mod 64)]) s)"

definition max_preimage_bytes :: int where "max_preimage_bytes = 8388608"

definition put_blob :: "engine_host \<Rightarrow> string \<Rightarrow> ('w engine, string) action" where
  "put_blob h bytes =
     bind (clock h) (\<lambda>now s. case mem_put_blob (eh_pf h) bytes now (en_ledger s) of (l, k) \<Rightarrow> (s\<lparr>en_ledger := l\<rparr>, Inr k))"

text \<open>Over the caps nothing is stored and the reference is marked truncated.\<close>

definition put_capped :: "engine_host \<Rightarrow> preimage_input \<Rightarrow> string \<Rightarrow> int option \<Rightarrow> bool \<Rightarrow> ('w engine, preimage_ref) action" where
  "put_capped h x bytes rows over =
     (let ref = \<lparr>pi_kind = pn_kind x, pi_blob_id = None, pi_bytes = Some (int (length bytes)), pi_rows = rows, pi_truncated = over,
                 pi_meta = pn_meta x\<rparr>
      in if over then give ref else bind (put_blob h bytes) (\<lambda>k. give (ref\<lparr>pi_blob_id := Some k\<rparr>)))"

definition put_preimage :: "engine_host \<Rightarrow> preimage_input \<Rightarrow> ('w engine, preimage_ref) action" where
  "put_preimage h x =
     (let max_bytes = orelse (pn_max_bytes x) max_preimage_bytes; max_rows = orelse (pn_max_rows x) max_preimage_rows
      in if pn_kind x = FsAbsent \<or> pn_kind x = NoPreimage then
           give \<lparr>pi_kind = pn_kind x, pi_blob_id = None, pi_bytes = None, pi_rows = None, pi_truncated = False, pi_meta = pn_meta x\<rparr>
         else if pn_kind x = SqlRows then
           (let rows = orelse (pn_rows x) []; encoded = utf8 (json_stringify (JArr rows))
            in put_capped h x encoded (Some (int (length rows))) (int (length rows) > max_rows \<or> int (length encoded) > max_bytes))
         else (let bytes = orelse (pn_bytes x) [] in put_capped h x bytes None (int (length bytes) > max_bytes)))"

section \<open>State and host\<close>

record inflight =
  if_effect_id :: string
  if_fidelity :: fidelity
  if_intent_key :: string

record 'w capture =
  cp_engine :: "'w engine"
  cp_inflight :: "(string \<times> inflight) list"
  cp_failures :: nat
  cp_models :: model_cache

record 'w capture_host =
  ch_engine :: engine_host
  ch_has_ledger :: bool
  ch_context :: "string option"
  ch_redact :: redact_config
  ch_roots :: "string list option"
  ch_internal_hosts :: "string list"
  ch_max_bytes :: "int option"
  ch_max_rows :: "int option"
  ch_record_t1 :: bool
  ch_block_t4 :: bool
  ch_shield :: shield_world
  ch_shield_env :: shield_env
  ch_classifier :: "classifier_opts option"
  ch_hosted :: bool
  ch_key :: "string option"
  ch_ed :: ed_check
  ch_match :: "(action_ref \<Rightarrow> json \<Rightarrow> json \<Rightarrow> signature option) option"

definition ch_pf :: "'w capture_host \<Rightarrow> platform" where
  "ch_pf h = eh_pf (ch_engine h)"

definition in_core :: "('w engine, 'a) action \<Rightarrow> ('w capture, 'a) action" where
  "in_core m = zoom cp_engine (\<lambda>t s. s\<lparr>cp_engine := t\<rparr>) m"

definition fidelity_rank :: "fidelity \<Rightarrow> nat" where
  "fidelity_rank f = (case f of FFull \<Rightarrow> 4 | FToolOnly \<Rightarrow> 3 | FHttpOnly \<Rightarrow> 2 | FDegraded \<Rightarrow> 1)"

definition find_inflight :: "string \<Rightarrow> 'w capture \<Rightarrow> inflight option" where
  "find_inflight k s = map_of (cp_inflight s) k"

definition begin_inflight :: "inflight \<Rightarrow> 'w capture \<Rightarrow> 'w capture" where
  "begin_inflight row s =
     (if if_intent_key row = [] \<or> if_effect_id row = [] then s
      else s\<lparr>cp_inflight := set_key (if_intent_key row) row (cp_inflight s)\<rparr>)"

definition end_inflight :: "string \<Rightarrow> 'w capture \<Rightarrow> 'w capture" where
  "end_inflight k s = s\<lparr>cp_inflight := AList.delete k (cp_inflight s)\<rparr>"

section \<open>Errors and JSON forms\<close>

definition vr_messages :: "(string \<times> string) list" where
  "vr_messages =
     [(''VR1001'', ''unknown_action_kind''), (''VR1004'', ''scope_violation''), (''VR1007'', ''shell_unclassifiable''),
      (''VR1010'', ''t4_blocked''), (''VR1012'', ''classifier_timeout''), (''VR2001'', ''memory_ledger_in_production''),
      (''VR2002'', ''wal_write_failed''), (''VR2005'', ''preimage_too_large''), (''VR2006'', ''preimage_unreadable''),
      (''VR2011'', ''binding_missing''), (''VR2015'', ''chain_broken''), (''VR2020'', ''unresolved_in_doubt''),
      (''VR2022'', ''projection_divergence''), (''VR3001'', ''no_compensator_match''), (''VR3005'', ''schema_invalid''),
      (''VR3006'', ''unresolvable_ref''), (''VR3007'', ''unprovenanced_literal''), (''VR3008'', ''scope_violation''),
      (''VR3009'', ''unsafe_statement''), (''VR3010'', ''const_ref_in_drafted_plan''), (''VR3011'', ''plan_too_large''),
      (''VR3012'', ''impure_compensator''), (''VR3014'', ''predicate_error''), (''VR4001'', ''verifier_fail''),
      (''VR4002'', ''verifier_unsure''), (''VR4003'', ''verifier_timeout''), (''VR4004'', ''overreach_detected''),
      (''VR4005'', ''drafted_not_allowed''), (''VR5001'', ''step_failed''), (''VR5002'', ''postcondition_failed''),
      (''VR5005'', ''lease_unavailable''), (''VR5006'', ''concurrent_modification''), (''VR5007'', ''window_expired''),
      (''VR5009'', ''identity_changed''), (''VR5010'', ''fenced''), (''VR5011'', ''in_doubt_blocks_undo''),
      (''VR5012'', ''illegal_transition''), (''VR5014'', ''credential_scope_denied''), (''VR6001'', ''vekinbox_unreachable''),
      (''VR6003'', ''bad_signature''), (''VR6004'', ''plan_hash_mismatch''), (''VR6006'', ''escalation_declined'')]"

text \<open>\<^verbatim>\<open>err.message\<close>.\<close>

definition error_message :: "engine_error \<Rightarrow> string" where
  "error_message e =
     (case e of HostError m \<Rightarrow> m
      | VrError c d \<Rightarrow> c @ '' '' @ orelse (map_of vr_messages c) ''undefined'' @ (if d = [] then [] else '': '' @ d))"

definition class_source_str :: "class_source \<Rightarrow> string" where
  "class_source_str s = (case s of Structural \<Rightarrow> ''structural'' | Locality \<Rightarrow> ''locality'' | Manifest \<Rightarrow> ''manifest'' | Model \<Rightarrow> ''model'')"

definition strings :: "string list \<Rightarrow> json" where
  "strings xs = JArr (map JStr xs)"

definition classification_members :: "classification \<Rightarrow> (string \<times> json) list" where
  "classification_members cl =
     [(''tier'', JStr (tier_str (cl_tier cl))),
      (''sources'', JArr (map (\<lambda>s. JObj [(''source'', JStr (class_source_str (cs_source s))), (''tier'', JStr (tier_str (cs_tier s))),
          (''reasons'', strings (cs_reasons s))]) (cl_sources cl))),
      (''reasons'', strings (cl_reasons cl)),
      (''candidates'', JArr (map (\<lambda>c. JObj [(''id'', JStr (cd_id c)), (''score'', JInt (int (cd_score c))),
          (''source'', JStr (source_str (cd_source c)))]) (cl_candidates cl))),
      (''scope_violation'', JBool (cl_scope_violation cl))]"

definition classification_json :: "classification \<Rightarrow> json" where
  "classification_json cl = JObj (classification_members cl)"

definition classified_payload :: "action_ref \<Rightarrow> classification \<Rightarrow> json" where
  "classified_payload a cl = JObj ((''action'', action_json a) # classification_members cl)"

definition preimage_kind_str :: "preimage_kind \<Rightarrow> string" where
  "preimage_kind_str k = (case k of FsBytes \<Rightarrow> ''fs_bytes'' | FsAbsent \<Rightarrow> ''fs_absent'' | SqlRows \<Rightarrow> ''sql_rows'' | HttpBody \<Rightarrow> ''http_body''
     | NoPreimage \<Rightarrow> ''none'')"

definition opt_json :: "string \<Rightarrow> json option \<Rightarrow> (string \<times> json) list" where
  "opt_json k v = (case v of Some x \<Rightarrow> [(k, x)] | None \<Rightarrow> [])"

definition preimage_json :: "preimage_ref \<Rightarrow> json" where
  "preimage_json p =
     JObj ([(''kind'', JStr (preimage_kind_str (pi_kind p)))] @ opt_member ''blob_id'' (pi_blob_id p)
       @ opt_json ''rows'' (map_option JInt (pi_rows p)) @ opt_json ''bytes'' (map_option JInt (pi_bytes p))
       @ [(''truncated'', JBool (pi_truncated p))] @ opt_json ''meta'' (map_option JObj (pi_meta p)))"

definition fidelity_str :: "fidelity \<Rightarrow> string" where
  "fidelity_str f = (case f of FFull \<Rightarrow> ''full'' | FToolOnly \<Rightarrow> ''tool_only'' | FHttpOnly \<Rightarrow> ''http_only'' | FDegraded \<Rightarrow> ''degraded'')"

section \<open>Opening\<close>

record 'w effect_spec =
  sp_action :: action_ref
  sp_args :: json
  sp_signature :: "signature option"
  sp_capture :: "('w, preimage_input) action option"
  sp_fidelity :: "fidelity option"
  sp_interceptor :: "string option"

record opened =
  oe_effect_id :: string
  oe_saga_id :: string
  oe_seq :: int
  oe_action :: action_ref
  oe_args :: json
  oe_args_hash :: string
  oe_observed :: json
  oe_commitments :: "(string \<times> json) list"
  oe_intent_key :: string
  oe_classification :: classification
  oe_preimage :: "preimage_ref option"
  oe_opened_at :: string
  oe_redactions :: "string list"
  oe_recorded :: bool
  oe_signature :: "signature option"
  oe_sibling :: "(string \<times> int) option"
  oe_parent :: "string option"
  oe_warnings :: "string list"
  oe_fidelity :: fidelity
  oe_interceptor :: string

definition spec_fidelity :: "'w effect_spec \<Rightarrow> fidelity" where
  "spec_fidelity sp = orelse (sp_fidelity sp) FFull"

definition s1_manifest :: "'w capture_host \<Rightarrow> signature option \<Rightarrow> signature option" where
  "s1_manifest h sg =
     (case sg of None \<Rightarrow> None
      | Some m \<Rightarrow> if sg_id m = [] then Some m else signature_verified_for_s1 (ch_ed h) (ch_key h) (ch_hosted h) m)"

definition classify_base :: "'w capture_host \<Rightarrow> classify_ctx" where
  "classify_base h =
     \<lparr>cx_result = None, cx_status = None, cx_headers = None, cx_preimage = None, cx_matched = None, cx_manifest = None,
      cx_roots = ch_roots h, cx_internal_hosts = ch_internal_hosts h, cx_transport_error = False, cx_timeout = False,
      cx_recreate = False, cx_pk = None, cx_rows = None, cx_max_rows = Some (orelse (ch_max_rows h) max_preimage_rows),
      cx_remote_mount = False, cx_escapes = False, cx_candidates = None, cx_model = None, cx_scope_violation = None, cx_fidelity = None\<rparr>"

text \<open>The classification of a specification, on a preimage and a tier the model proposes, when there are any.\<close>

definition classify_spec :: "'w capture_host \<Rightarrow> 'w effect_spec \<Rightarrow> preimage_ref option \<Rightarrow> tier option \<Rightarrow> classification" where
  "classify_spec h sp pre model =
     classify_action (ch_pf h) (sp_action sp) (sp_args sp)
       ((classify_base h)\<lparr>cx_preimage := pre, cx_manifest := s1_manifest h (sp_signature sp), cx_model := model,
          cx_fidelity := Some (spec_fidelity sp)\<rparr>)"

definition needs_preimage_capture :: "action_ref \<Rightarrow> tier \<Rightarrow> signature option \<Rightarrow> bool" where
  "needs_preimage_capture a t sg \<longleftrightarrow>
     ac_kind a = AFs \<or> ac_kind a = ASql \<or> t = T2
     \<or> (case sg of Some m \<Rightarrow> sg_preimage m \<noteq> None \<and> sg_preimage_required m | None \<Rightarrow> False)"

definition now_iso :: "'w capture_host \<Rightarrow> ('w capture, string) action" where
  "now_iso h = bind (in_core (clock (ch_engine h))) (\<lambda>now. give (pf_iso (ch_pf h) now))"

definition chained :: "'w capture_host \<Rightarrow> string \<Rightarrow> string \<Rightarrow> json \<Rightarrow> string option \<Rightarrow> ('w capture, event) action" where
  "chained h saga_id type payload effect_id = in_core (append_chained (ch_engine h) saga_id type payload effect_id None)"

text \<open>The preimage of the action with the warnings of its capture.\<close>

definition capture_preimage :: "'w capture_host \<Rightarrow> 'w effect_spec \<Rightarrow> tier \<Rightarrow> ('w capture, preimage_ref option \<times> string list) action" where
  "capture_preimage h sp t =
     (case sp_capture sp of
        None \<Rightarrow> give (None, [])
      | Some grab \<Rightarrow>
          if \<not> needs_preimage_capture (sp_action sp) t (sp_signature sp) then give (None, [])
          else catching
            (bind (in_core (in_world grab)) (\<lambda>x.
             bind (in_core (put_preimage (ch_engine h)
                (x\<lparr>pn_max_bytes := orelse_opt (ch_max_bytes h) (pn_max_bytes x), pn_max_rows := orelse_opt (ch_max_rows h) (pn_max_rows x)\<rparr>))) (\<lambda>p.
             give (Some p, []))))
            (\<lambda>e. give (None, [''preimage_unreadable:'' @ error_message e])))"

text \<open>\<^verbatim>\<open>findRestoreSibling\<close>: the first effect of the same intent that was opened before the last restore boundary.\<close>

definition last_boundary :: "event list \<Rightarrow> int" where
  "last_boundary evs = foldl (\<lambda>b ev. if ev_type ev = ''restore_boundary'' then ev_chain_seq ev else b) (- 1) evs"

definition opened_at_seq :: "event list \<Rightarrow> string \<Rightarrow> int" where
  "opened_at_seq evs k =
     foldl (\<lambda>n ev. if ev_type ev = ''effect_opened'' \<and> ev_effect_id ev = Some k \<and> k \<noteq> [] then ev_chain_seq ev else n) 0 evs"

definition find_restore_sibling :: "mem_ledger \<Rightarrow> string \<Rightarrow> string \<Rightarrow> (string \<times> int) option" where
  "find_restore_sibling l saga_id intent_key =
     (let evs = mem_read_saga l saga_id; b = last_boundary evs
      in if b < 0 then None
         else map_option (\<lambda>e. (ef_effect_id e, b))
           (List.find (\<lambda>e. opened_at_seq evs (ef_effect_id e) < b)
             (sort_key ef_seq (filter (\<lambda>e. ef_intent_key e = intent_key) (mem_list_effects l saga_id)))))"

text \<open>What is returned of a call that is not recorded.\<close>

definition unrecorded :: "'w effect_spec \<Rightarrow> string \<Rightarrow> classification \<Rightarrow> string \<Rightarrow> string list \<Rightarrow> opened" where
  "unrecorded sp saga_id cl at warnings =
     \<lparr>oe_effect_id = [], oe_saga_id = saga_id, oe_seq = 0, oe_action = sp_action sp, oe_args = sp_args sp, oe_args_hash = [],
      oe_observed = sp_args sp, oe_commitments = [], oe_intent_key = [], oe_classification = cl, oe_preimage = None,
      oe_opened_at = at, oe_redactions = [], oe_recorded = False, oe_signature = sp_signature sp, oe_sibling = None, oe_parent = None,
      oe_warnings = warnings, oe_fidelity = spec_fidelity sp, oe_interceptor = orelse (sp_interceptor sp) ''sdk-ts''\<rparr>"

definition bypass_classification :: classification where
  "bypass_classification = \<lparr>cl_tier = T1, cl_sources = [], cl_reasons = [''compensation_bypass''], cl_candidates = [], cl_scope_violation = False\<rparr>"

definition open_bypassed :: "'w capture_host \<Rightarrow> string \<Rightarrow> string \<Rightarrow> 'w effect_spec \<Rightarrow> ('w capture, opened) action" where
  "open_bypassed h attempt_id saga_id sp =
     bind (catching
        (bind (in_core (append_chained (ch_engine h) saga_id ''compensation_side_effect''
           (JObj [(''compensation_of'', JStr attempt_id), (''action'', action_json (sp_action sp))]) None (Some False))) (\<lambda>_. give ()))
        (\<lambda>_. give ())) (\<lambda>_.
     bind (now_iso h) (\<lambda>at. give (unrecorded sp saga_id bypass_classification at [''compensation_side_effect''])))"

definition intent_of :: "'w capture_host \<Rightarrow> 'w effect_spec \<Rightarrow> string option" where
  "intent_of h sp = derive_intent_key (ch_pf h) (ac_name (sp_action sp))
     (strip_volatile (sp_args sp) (case sp_signature sp of Some m \<Rightarrow> sg_volatile m | None \<Rightarrow> None))"

definition with_hashes :: "redacted \<Rightarrow> string \<Rightarrow> opened \<Rightarrow> opened" where
  "with_hashes red key oe = oe\<lparr>oe_args_hash := rd_args_hash red, oe_observed := rd_observed red, oe_intent_key := key, oe_redactions := rd_redactions red\<rparr>"

text \<open>A read-only action is only classified.\<close>

definition open_t1 :: "'w capture_host \<Rightarrow> string \<Rightarrow> 'w effect_spec \<Rightarrow> redacted \<Rightarrow> classification \<Rightarrow> ('w capture, opened) action" where
  "open_t1 h saga_id sp red cl =
     bind (chained h saga_id ''reversibility_classified'' (classified_payload (sp_action sp) cl) None) (\<lambda>_.
       case intent_of h sp of
         None \<Rightarrow> throw (HostError ''canonicalize'')
       | Some key \<Rightarrow> bind (now_iso h) (\<lambda>at. give (with_hashes red key (unrecorded sp saga_id cl at []))))"

definition opened_payload :: "opened \<Rightarrow> json" where
  "opened_payload oe =
     JObj ([(''effect_id'', JStr (oe_effect_id oe)), (''seq'', JInt (oe_seq oe)), (''action'', action_json (oe_action oe)),
            (''tier'', JStr (tier_str (cl_tier (oe_classification oe)))), (''args_hash'', JStr (oe_args_hash oe)),
            (''intent_key'', JStr (oe_intent_key oe))]
       @ opt_json ''preimage'' (map_option preimage_json (oe_preimage oe)) @ [(''args_observed'', oe_observed oe)]
       @ (if oe_commitments oe = [] then [] else [(''args_commitments'', JObj (oe_commitments oe))])
       @ [(''classification'', classification_json (oe_classification oe)), (''opened_at'', JStr (oe_opened_at oe))]
       @ opt_member ''restore_sibling_of'' (map_option fst (oe_sibling oe)) @ [(''redactions'', strings (oe_redactions oe))])"

text \<open>The two events that precede the action; whatever goes wrong is a failure to write ahead.\<close>

definition wal_error :: "engine_error \<Rightarrow> engine_error" where
  "wal_error e = (case e of VrError c d \<Rightarrow> if c = ''VR2002'' then e else vr VR2002 (error_message e) | HostError m \<Rightarrow> vr VR2002 m)"

definition in_doubt_payload :: "string \<Rightarrow> json" where
  "in_doubt_payload reason = JObj [(''reason'', JStr reason), (''probe_scheduled'', JBool False)]"

definition ignoring :: "('s, 'a) action \<Rightarrow> ('s, unit) action" where
  "ignoring m = catching (bind m (\<lambda>_. give ())) (\<lambda>_. give ())"

definition write_ahead :: "'w capture_host \<Rightarrow> opened \<Rightarrow> ('w capture, string \<times> string) action" where
  "write_ahead h oe =
     catching
       (bind (chained h (oe_saga_id oe) ''reversibility_classified'' (classified_payload (oe_action oe) (oe_classification oe)) None) (\<lambda>e1.
        bind (chained h (oe_saga_id oe) ''effect_opened'' (opened_payload oe) (Some (oe_effect_id oe))) (\<lambda>e2.
        give (ev_id e1, ev_id e2))))
       (\<lambda>e. bind (in_core (of_ledger (\<lambda>l. mem_get_effect l (oe_effect_id oe)))) (\<lambda>existing.
            bind (only_if (existing \<noteq> None)
                   (ignoring (chained h (oe_saga_id oe) ''effect_in_doubt'' (in_doubt_payload ''opened_never_closed'') (Some (oe_effect_id oe))))) (\<lambda>_.
            throw (wal_error e))))"

definition row_classified :: "classification \<Rightarrow> effect \<Rightarrow> effect" where
  "row_classified cl e = e\<lparr>ef_classification := classification_json cl, ef_tier := tier_str (cl_tier cl)\<rparr>"

definition row_preimage :: "preimage_ref \<Rightarrow> effect \<Rightarrow> effect" where
  "row_preimage p e =
     e\<lparr>ef_preimage_kind := Some (preimage_kind_str (pi_kind p)), ef_preimage_blob_id := pi_blob_id p,
       ef_preimage_bytes := map_option JInt (pi_bytes p), ef_preimage_rows := map_option JInt (pi_rows p),
       ef_preimage_truncated := (if pi_truncated p then 1 else 0), ef_preimage_meta := map_option JObj (pi_meta p)\<rparr>"

definition row_opened :: "opened \<Rightarrow> effect \<Rightarrow> effect" where
  "row_opened oe e =
     (let e1 = e\<lparr>ef_args_observed := oe_observed oe, ef_intent_key := oe_intent_key oe, ef_args_hash := oe_args_hash oe,
            ef_redactions := Some (strings (oe_redactions oe)),
            ef_args_commitments := (if oe_commitments oe = [] then ef_args_commitments e else Some (JObj (oe_commitments oe))),
            ef_restore_sibling_of := (case oe_sibling oe of Some (k, _) \<Rightarrow> Some k | None \<Rightarrow> ef_restore_sibling_of e),
            ef_capture_interceptor := oe_interceptor oe, ef_capture_fidelity := fidelity_str (oe_fidelity oe)\<rparr>;
          e2 = (case oe_preimage oe of Some p \<Rightarrow> row_preimage p e1 | None \<Rightarrow> e1)
      in row_classified (oe_classification oe) e2)"

definition put_row :: "effect \<Rightarrow> ('w capture, unit) action" where
  "put_row e = in_core (on_ledger (mem_upsert_effect e))"

definition get_row :: "string \<Rightarrow> ('w capture, effect option) action" where
  "get_row k = in_core (of_ledger (\<lambda>l. mem_get_effect l k))"

definition fill_row :: "opened \<Rightarrow> ('w capture, effect option) action" where
  "fill_row oe =
     bind (get_row (oe_effect_id oe)) (\<lambda>row.
       case row of None \<Rightarrow> give None | Some e \<Rightarrow> bind (put_row (row_opened oe e)) (\<lambda>_. give (Some (row_opened oe e))))"

text \<open>
  A reason pushed on a classification that the two events and the row hold: \<open>i\<close> is the id of the event that
  holds its list of reasons, \<open>j\<close> of the one that holds the classification.
\<close>

definition push_reason :: "string \<Rightarrow> json \<Rightarrow> json" where
  "push_reason r v =
     (case v of JObj kvs \<Rightarrow> JObj (map (\<lambda>(k, x). (k, case x of JArr rs \<Rightarrow> if k = ''reasons'' then JArr (rs @ [JStr r]) else x | _ \<Rightarrow> x)) kvs) | _ \<Rightarrow> v)"

definition push_reason_event :: "string \<Rightarrow> string \<Rightarrow> string \<Rightarrow> event \<Rightarrow> event" where
  "push_reason_event i j r ev =
     (if ev_id ev = i then ev\<lparr>ev_payload := push_reason r (ev_payload ev)\<rparr>
      else if ev_id ev = j then
        ev\<lparr>ev_payload := (case ev_payload ev of
             JObj kvs \<Rightarrow> JObj (map (\<lambda>(k, x). (k, if k = ''classification'' then push_reason r x else x)) kvs) | v \<Rightarrow> v)\<rparr>
      else ev)"

definition share_reason :: "string \<times> string \<Rightarrow> string \<Rightarrow> string \<Rightarrow> mem_ledger \<Rightarrow> mem_ledger" where
  "share_reason ids eid r l =
     l\<lparr>ml_events := map (push_reason_event (fst ids) (snd ids) r) (ml_events l),
       ml_pj := (ml_pj l)\<lparr>pj_effects := on_effect (\<lambda>e. e\<lparr>ef_classification := push_reason r (ef_classification e)\<rparr>) eid (pj_effects (ml_pj l))\<rparr>\<rparr>"

text \<open>The model's tier, asked for when irreversible actions are blocked and a classifier is configured.\<close>

definition ask_model :: "'w capture_host \<Rightarrow> action_ref \<Rightarrow> json \<Rightarrow> ('w capture, model_verdict option) action" where
  "ask_model h a args =
     (case ch_classifier h of
        None \<Rightarrow> give None
      | Some co \<Rightarrow>
          bind (in_core (clock (ch_engine h))) (\<lambda>now s.
            case classify_model (ch_pf h) (co\<lparr>cm_enabled := Some True\<rparr>) now a args (cp_models s) of
              (cache, v) \<Rightarrow> (s\<lparr>cp_models := cache\<rparr>, Inr v)))"

definition model_stage :: "'w capture_host \<Rightarrow> 'w effect_spec \<Rightarrow> ('w capture, classification option) action" where
  "model_stage h sp =
     (if ch_block_t4 h then
        bind (ask_model h (sp_action sp) (sp_args sp)) (\<lambda>v.
          give (map_option (\<lambda>m. classify_spec h sp None (Some (mv_tier m))) v))
      else give None)"

text \<open>The policy on the classification; \<open>newer\<close> is the one of the model's stage, which nothing else holds.\<close>

definition policy_stage ::
  "'w capture_host \<Rightarrow> 'w effect_spec \<Rightarrow> opened \<Rightarrow> string \<times> string \<Rightarrow> effect option \<Rightarrow> classification option \<Rightarrow> ('w capture, classification) action" where
  "policy_stage h sp oe ids row newer =
     (let cl = orelse newer (oe_classification oe);
          (cl', err) = preflight_policy (ch_shield h) (ch_shield_env h) (ch_block_t4 h) cl (Some (sp_action sp))
      in bind (only_if (newer = None \<and> cl' \<noteq> cl)
             (in_core (on_ledger (share_reason ids (oe_effect_id oe) (last (cl_reasons cl')))))) (\<lambda>_.
         case err of
           Some e \<Rightarrow> throw e
         | None \<Rightarrow>
             bind (case row of Some e \<Rightarrow> only_if (newer \<noteq> None) (put_row (row_classified cl' e)) | None \<Rightarrow> give ()) (\<lambda>_. give cl')))"

definition open_new :: "'w capture_host \<Rightarrow> 'w effect_spec \<Rightarrow> opened \<Rightarrow> ('w capture, opened) action" where
  "open_new h sp oe0 =
     bind (in_core (of_ledger (\<lambda>l. find_restore_sibling l (oe_saga_id oe0) (oe_intent_key oe0)))) (\<lambda>sibling.
     bind (now_iso h) (\<lambda>at.
       let oe = oe0\<lparr>oe_sibling := sibling, oe_opened_at := at\<rparr>
       in bind (write_ahead h oe) (\<lambda>ids.
          bind (fill_row oe) (\<lambda>row.
          bind (model_stage h sp) (\<lambda>newer.
          bind (policy_stage h sp oe ids row newer) (\<lambda>cl.
          bind (modifies (begin_inflight \<lparr>if_effect_id = oe_effect_id oe, if_fidelity = oe_fidelity oe, if_intent_key = oe_intent_key oe\<rparr>)) (\<lambda>_.
          give (oe\<lparr>oe_classification := cl\<rparr>))))))))"

definition open_recorded ::
  "'w capture_host \<Rightarrow> string \<Rightarrow> 'w effect_spec \<Rightarrow> redacted \<Rightarrow> classification \<Rightarrow> preimage_ref option \<Rightarrow> string list \<Rightarrow> ('w capture, opened) action" where
  "open_recorded h saga_id sp red cl pre warnings =
     bind (in_core (of_ledger (\<lambda>l. mem_get_saga l saga_id))) (\<lambda>saga.
       case intent_of h sp of
         None \<Rightarrow> throw (HostError ''canonicalize'')
       | Some key \<Rightarrow>
           bind (reads (find_inflight key)) (\<lambda>linked.
             let seq = (case saga of Some s \<Rightarrow> sa_next_seq s | None \<Rightarrow> 1);
                 base = with_hashes red key (unrecorded sp saga_id cl [] warnings);
                 eid = derive_effect_id (ch_pf h) saga_id seq (ac_name (sp_action sp)) (rd_args_hash red)
             in case linked of
                  Some x \<Rightarrow>
                    if fidelity_rank (spec_fidelity sp) \<le> fidelity_rank (if_fidelity x) then
                      bind (now_iso h) (\<lambda>at. give (base\<lparr>oe_effect_id := if_effect_id x, oe_opened_at := at,
                        oe_parent := Some (if_effect_id x), oe_warnings := [''linked_duplicate'']\<rparr>))
                    else open_new h sp (base\<lparr>oe_effect_id := eid, oe_seq := seq, oe_preimage := pre, oe_commitments := rd_commitments red, oe_recorded := True\<rparr>)
                | None \<Rightarrow> open_new h sp (base\<lparr>oe_effect_id := eid, oe_seq := seq, oe_preimage := pre, oe_commitments := rd_commitments red, oe_recorded := True\<rparr>)))"

definition open_effect :: "'w capture_host \<Rightarrow> string \<Rightarrow> 'w effect_spec \<Rightarrow> ('w capture, opened) action" where
  "open_effect h saga_id sp =
     (if \<not> ch_has_ledger h then throw (vr VR2002 ''ledger not open'')
      else case ch_context h of
        Some attempt_id \<Rightarrow> open_bypassed h attempt_id saga_id sp
      | None \<Rightarrow>
          (case redact_args (ch_pf h) (ch_redact h) (sp_args sp) of
             None \<Rightarrow> throw (HostError ''canonicalize'')
           | Some red \<Rightarrow>
               (let cl = classify_spec h sp None None
                in if cl_tier cl = T1 \<and> \<not> ch_record_t1 h then open_t1 h saga_id sp red cl
                   else bind (capture_preimage h sp (cl_tier cl)) (\<lambda>(pre, warnings).
                     open_recorded h saga_id sp red (if pre = None then cl else classify_spec h sp pre None) pre warnings))))"

section \<open>Observing the call\<close>

text \<open>An error the action threw: its fields, and whether it is an \<^verbatim>\<open>Error\<close> with a message.\<close>

record call_error =
  ce_fields :: json
  ce_is_error :: bool
  ce_message :: string

record observed_call =
  ob_status :: "int option"
  ob_headers :: "(string \<times> string) list"
  ob_body :: json
  ob_timeout :: bool
  ob_transport :: bool
  ob_raw :: json

definition header_map :: "json option \<Rightarrow> (string \<times> string) list" where
  "header_map raw =
     (case raw of None \<Rightarrow> []
      | Some v \<Rightarrow> map (\<lambda>(k, x). (k, case x of JStr s \<Rightarrow> s | _ \<Rightarrow> js_string x)) (filter (\<lambda>(k, x). x \<noteq> JNull)
          (case v of JObj kvs \<Rightarrow> kvs | JArr vs \<Rightarrow> entries v | _ \<Rightarrow> [])))"

definition first_given :: "json option list \<Rightarrow> json option" where
  "first_given vs = (case filter (\<lambda>v. \<not> nullish v) vs of [] \<Rightarrow> None | v # _ \<Rightarrow> v)"

definition says :: "call_error option \<Rightarrow> string \<Rightarrow> bool" where
  "says err word \<longleftrightarrow> (case err of Some e \<Rightarrow> ce_is_error e \<and> includes_str (to_lower (ce_message e)) word | None \<Rightarrow> False)"

definition reserved_fields :: "string list" where
  "reserved_fields = [''status'', ''statusCode'', ''headers'', ''timeout'', ''transportError'']"

definition observe_result :: "json option \<Rightarrow> call_error option \<Rightarrow> observed_call" where
  "observe_result result err =
     (let from_err = (case err of Some e \<Rightarrow> as_record (Some (ce_fields e)) | None \<Rightarrow> []);
          rec = as_record result;
          code = str_of (map_of from_err ''code'');
          status = (case first_given [map_of rec ''status'', map_of rec ''statusCode'', map_of from_err ''status'', map_of from_err ''statusCode'']
                    of Some (JInt i) \<Rightarrow> Some i | _ \<Rightarrow> None)
      in \<lparr>ob_status = status,
          ob_headers = header_map (first_given [map_of rec ''headers'', map_of from_err ''headers'']),
          ob_body = (case (map_of rec ''body'', result) of
             (Some b, _) \<Rightarrow> snapshot b
           | (None, None) \<Rightarrow> JNull
           | (None, Some v) \<Rightarrow>
               if status \<noteq> None \<or> \<not> nullish (map_of rec ''headers'')
               then snapshot (JObj (filter (\<lambda>(k, x). k \<notin> set reserved_fields) rec)) else snapshot v),
          ob_timeout = (truthy (map_of from_err ''timeout'') \<or> truthy (map_of rec ''timeout'') \<or> code = Some ''ETIMEDOUT'' \<or> code = Some ''TIMEOUT''
            \<or> says err ''timeout''),
          ob_transport = (truthy (map_of from_err ''transportError'') \<or> truthy (map_of rec ''transportError'')
            \<or> code = Some ''ECONNRESET'' \<or> code = Some ''ECONNREFUSED'' \<or> says err ''transport''),
          ob_raw = snapshot (orelse result JNull)\<rparr>)"

section \<open>Bindings\<close>

datatype path_token = NameToken string | IndexToken "nat option"

definition bracket_token :: "string \<Rightarrow> path_token" where
  "bracket_token inner =
     (let s = js_trim inner
      in if (starts_with s [CHR 0x27] \<and> ends_with s [CHR 0x27]) \<or> (starts_with s [CHR 0x22] \<and> ends_with s [CHR 0x22])
         then NameToken (butlast (tl s)) else IndexToken (js_index s))"

function path_tokens :: "string \<Rightarrow> path_token list" where
  "path_tokens [] = []"
| "path_tokens (c # cs) =
     (if c = CHR ''.'' then path_tokens cs
      else if c = CHR ''['' then
        (if CHR '']'' \<in> set cs
         then bracket_token (takeWhile (\<lambda>d. d \<noteq> CHR '']'') cs) # path_tokens (tl (dropWhile (\<lambda>d. d \<noteq> CHR '']'') cs))
         else [])
      else NameToken (c # takeWhile (\<lambda>d. d \<notin> set ''.['') cs) # path_tokens (dropWhile (\<lambda>d. d \<notin> set ''.['') cs))"
  by pat_completeness auto

termination path_tokens
  by (relation "measure length") (auto simp: le_imp_less_Suc length_dropWhile_le less_imp_diff_less)

definition drop_root :: "string \<Rightarrow> string" where
  "drop_root p = (if starts_with p ''$.'' then drop 2 p else if starts_with p ''$'' then drop 1 p else p)"

fun follow_tokens :: "json option \<Rightarrow> path_token list \<Rightarrow> json option" where
  "follow_tokens cur [] = cur"
| "follow_tokens cur (t # ts) =
     (case (cur, t) of
        (Some (JArr vs), IndexToken i) \<Rightarrow> follow_tokens (case i of Some n \<Rightarrow> nth_opt vs n | None \<Rightarrow> None) ts
      | (Some (JArr vs), NameToken k) \<Rightarrow> follow_tokens (from_key (JArr vs) k) ts
      | (Some (JObj kvs), NameToken k) \<Rightarrow> follow_tokens (map_of kvs k) ts
      | _ \<Rightarrow> None)"

definition get_at_path :: "json \<Rightarrow> string \<Rightarrow> json option" where
  "get_at_path root path =
     (if includes_str path ''..'' \<or> includes_str path ''?('' \<or> includes_str path ''@.'' then None
      else follow_tokens (Some root) (path_tokens (drop_root path)))"

datatype bind_source = FromArgs | FromResult | FromHeader | FromStatus

definition parse_from :: "string \<Rightarrow> bind_source \<times> string" where
  "parse_from from =
     (if from = ''status'' then (FromStatus, [])
      else if starts_with from ''header.'' then (FromHeader, drop_root (drop 7 from))
      else if starts_with from ''args.'' then (FromArgs, drop 5 from)
      else if starts_with from ''result.'' then (FromResult, drop 7 from)
      else (FromResult, from))"

definition extracted_value :: "bind_source \<times> string \<Rightarrow> json \<Rightarrow> observed_call \<Rightarrow> json option" where
  "extracted_value sp args ob =
     (case sp of
        (FromStatus, _) \<Rightarrow> Some (case ob_status ob of Some i \<Rightarrow> JInt i | None \<Rightarrow> JNull)
      | (FromHeader, path) \<Rightarrow> map_option (\<lambda>(k, v). JStr v) (List.find (\<lambda>(k, v). to_lower k = to_lower path) (ob_headers ob))
      | (FromArgs, path) \<Rightarrow> get_at_path args path
      | (FromResult, path) \<Rightarrow>
          (let v = get_at_path (ob_body ob) path in if nullish v then get_at_path (ob_raw ob) path else v))"

definition extract_one :: "regexps \<Rightarrow> binding_extractor \<Rightarrow> json \<Rightarrow> observed_call \<Rightarrow> json option" where
  "extract_one rx bx args ob =
     (case extracted_value (parse_from (bx_from bx)) args ob of
        None \<Rightarrow> None
      | Some v \<Rightarrow>
          if nonempty (bx_pattern bx) \<and> (case v of JStr s \<Rightarrow> \<not> hits rx (the (bx_pattern bx)) s | _ \<Rightarrow> True) then None else Some v)"

type_synonym bound = "(string \<times> json) list \<times> (string \<times> json) list"

definition bind_name :: "string \<Rightarrow> json \<Rightarrow> string \<Rightarrow> bound \<Rightarrow> bound" where
  "bind_name k v path = (\<lambda>(b, p). (set_key k v b, set_key k (JStr path) p))"

text \<open>The names that are \<^verbatim>\<open>in\<close> every object.\<close>

definition object_prototype :: "string list" where
  "object_prototype = [''constructor'', ''__defineGetter__'', ''__defineSetter__'', ''hasOwnProperty'', ''__lookupGetter__'', ''__lookupSetter__'',
     ''isPrototypeOf'', ''propertyIsEnumerable'', ''toString'', ''valueOf'', ''__proto__'', ''toLocaleString'']"

definition scalar_bind_max :: nat where "scalar_bind_max = 512"

definition default_bindings :: "observed_call \<Rightarrow> bound" where
  "default_bindings ob =
     (let b0 = foldl (\<lambda>b (k, v). if to_lower k = ''location'' then bind_name ''Location'' (JStr v) ''header.Location'' b else b) ([], [])
            (ob_headers ob)
      in case ob_body ob of
           JObj kvs \<Rightarrow>
             (let b1 = foldl (\<lambda>b k. case map_of kvs k of Some v \<Rightarrow> bind_name k v (''result.$.'' @ k) b | None \<Rightarrow> b) b0
                    [''id'', ''name'', ''key'', ''uuid'']
              in foldl (\<lambda>b (k, v). if k \<in> set object_prototype \<or> map_of (fst b) k \<noteq> None \<or> v = JNull \<or> (case v of JArr _ \<Rightarrow> True | JObj _ \<Rightarrow> True | _ \<Rightarrow> False)
                          \<or> length (utf8 (js_string v)) > scalar_bind_max then b else bind_name k v (''result.$.'' @ k) b) b1 kvs)
         | _ \<Rightarrow> b0)"

text \<open>The declared bindings, and whether a required one is missing.\<close>

definition declared_bindings :: "regexps \<Rightarrow> (string \<times> binding_extractor) list \<Rightarrow> json \<Rightarrow> observed_call \<Rightarrow> bound \<times> bool" where
  "declared_bindings rx binds args ob =
     foldl (\<lambda>(b, missing) (name, bx). case extract_one rx bx args ob of
        None \<Rightarrow> (b, missing \<or> bx_required bx) | Some v \<Rightarrow> (bind_name name v (bx_from bx) b, missing)) (([], []), False) binds"

definition resource_url_binding :: "platform \<Rightarrow> string option \<Rightarrow> bound \<Rightarrow> bound" where
  "resource_url_binding pf base b =
     (case str_of (map_of (fst b) ''resource_url'') of
        Some loc \<Rightarrow> (set_key ''resource_url'' (JStr (case pf_url pf loc base of Some u \<Rightarrow> pf_href pf u | None \<Rightarrow> loc)) (fst b), snd b)
      | None \<Rightarrow>
          if nullish (map_of (fst b) ''id'') \<or> \<not> nonempty base then b
          else (set_key ''resource_url'' (JStr (the base @ (if ends_with (the base) ''/'' then [] else ''/'') @ js_string (the (map_of (fst b) ''id'')))) (fst b),
                set_key ''resource_url'' (orelse (map_of (snd b) ''id'') (JStr ''result.$.id'')) (snd b)))"

section \<open>Closing\<close>

definition compensation_for :: "tier \<Rightarrow> bool \<Rightarrow> bool \<Rightarrow> bool \<Rightarrow> string" where
  "compensation_for t matched truncated missing =
     (if t = T1 then ''none_required''
      else if truncated \<or> missing \<or> t = T4 \<or> (t = T3 \<and> \<not> matched) then ''unavailable'' else ''available'')"

text \<open>The number before the unit letter, and what follows it.\<close>

definition take_unit :: "char \<Rightarrow> string \<Rightarrow> nat \<times> string" where
  "take_unit c s =
     (let ds = takeWhile is_digit s; r = dropWhile is_digit s
      in if ds \<noteq> [] \<and> starts_with r [c] then (read_nat ds, tl r) else (0, s))"

definition take_seconds :: "string \<Rightarrow> nat \<times> string" where
  "take_seconds s =
     (let ds = takeWhile is_digit s; r = dropWhile is_digit s; fs = takeWhile is_digit (tl r); q = dropWhile is_digit (tl r)
      in if ds \<noteq> [] \<and> starts_with r ''S'' then (1000 * read_nat ds, tl r)
         else if ds \<noteq> [] \<and> starts_with r ''.'' \<and> fs \<noteq> [] \<and> starts_with q ''S''
         then (1000 * read_nat (ds @ fs) div 10 ^ length fs, tl q) else (0, s))"

text \<open>The milliseconds of an ISO 8601 duration of days, hours, minutes and seconds.\<close>

definition duration_ms :: "string \<Rightarrow> int option" where
  "duration_ms w =
     (if \<not> starts_with w ''P'' then None
      else
        let (d, r) = take_unit (CHR ''D'') (tl w)
        in if r = [] then Some (int (d * 86400000))
           else if \<not> starts_with r ''T'' then None
           else
             let (hh, r1) = take_unit (CHR ''H'') (tl r); (mm, r2) = take_unit (CHR ''M'') r1; (ms, r3) = take_seconds r2
             in if r3 = [] then Some (int (((d * 24 + hh) * 60 + mm) * 60000 + ms)) else None)"

text \<open>\<^verbatim>\<open>addDuration\<close>: no text of a window that is no duration, and an exception of \<^verbatim>\<open>toISOString\<close> for an unreadable start.\<close>

definition add_duration :: "platform \<Rightarrow> string \<Rightarrow> string \<Rightarrow> engine_error + string option" where
  "add_duration pf from window =
     (case duration_ms window of
        None \<Rightarrow> Inr None
      | Some ms \<Rightarrow> (case pf_date_parse pf from of Some t \<Rightarrow> Inr (Some (pf_iso pf (t + ms))) | None \<Rightarrow> Inl (HostError ''Invalid time value'')))"

record close_opts =
  cq_result :: "json option"
  cq_value :: "json option"
  cq_error :: "call_error option"
  cq_status :: "string option"

record closing =
  cg_observed :: observed_call
  cg_signature :: "signature option"
  cg_classification :: classification
  cg_status :: string
  cg_bindings :: "(string \<times> json) list"
  cg_paths :: "(string \<times> json) list"
  cg_missing :: bool
  cg_truncated :: bool
  cg_state :: string
  cg_keys :: "string list"

definition arg_text :: "opened \<Rightarrow> string \<Rightarrow> string option" where
  "arg_text oe k = str_of (map_of (as_record (Some (oe_args oe))) k)"

definition close_ctx :: "'w capture_host \<Rightarrow> opened \<Rightarrow> observed_call \<Rightarrow> signature option \<Rightarrow> classify_ctx" where
  "close_ctx h oe ob sg =
     (classify_base h)\<lparr>cx_result := Some (ob_body ob), cx_status := ob_status ob, cx_headers := Some (ob_headers ob), cx_preimage := oe_preimage oe,
        cx_transport_error := ob_transport ob, cx_timeout := ob_timeout ob, cx_manifest := sg, cx_fidelity := Some (oe_fidelity oe)\<rparr>"

text \<open>A signature without an id is none for the purposes of closing.\<close>

definition with_id :: "signature option \<Rightarrow> bool" where
  "with_id sg \<longleftrightarrow> (case sg of Some m \<Rightarrow> sg_id m \<noteq> [] | None \<Rightarrow> False)"

definition close_signature :: "'w capture_host \<Rightarrow> opened \<Rightarrow> observed_call \<Rightarrow> signature option" where
  "close_signature h oe ob =
     (if with_id (oe_signature oe) then oe_signature oe
      else case ch_match h of
        None \<Rightarrow> oe_signature oe
      | Some match \<Rightarrow> orelse_opt (match (oe_action oe) (oe_args oe) (ob_raw ob)) (oe_signature oe))"

definition is_mutating :: "'w capture_host \<Rightarrow> action_ref \<Rightarrow> json \<Rightarrow> bool" where
  "is_mutating h a args \<longleftrightarrow>
     st_tier (classify_structural (ch_pf h) a args ((classify_base h)\<lparr>cx_roots := None, cx_internal_hosts := [], cx_max_rows := None\<rparr>)) \<noteq> T1"

definition server_error :: "observed_call \<Rightarrow> bool" where
  "server_error ob \<longleftrightarrow> (case ob_status ob of Some i \<Rightarrow> i \<ge> 500 | None \<Rightarrow> False)"

definition close_status :: "bool \<Rightarrow> bool \<Rightarrow> observed_call \<Rightarrow> close_opts \<Rightarrow> string" where
  "close_status mutates doubtful ob cq =
     (let s0 = orelse (cq_status cq) ''landed'';
          s1 = (if cq_error cq \<noteq> None \<and> s0 = ''landed'' then ''failed'' else s0);
          s2 = (if mutates \<and> (ob_timeout ob \<or> ob_transport ob \<or> server_error ob \<or> doubtful) then ''in_doubt'' else s1)
      in if cq_error cq \<noteq> None \<and> \<not> ob_timeout ob \<and> \<not> ob_transport ob \<and> \<not> server_error ob \<and> s2 \<noteq> ''in_doubt'' then ''failed'' else s2)"

definition is_insert :: "opened \<Rightarrow> bool" where
  "is_insert oe \<longleftrightarrow> ac_kind (oe_action oe) = ASql \<and>
     (case arg_text oe ''statement'' of Some s \<Rightarrow> to_upper s = ''INSERT''
      | None \<Rightarrow> sq_kind (classify_sql (orelse (arg_text oe ''sql'') [])) = INSERT)"

definition worst_case :: "string \<Rightarrow> classification \<Rightarrow> classification" where
  "worst_case reason cl = cl\<lparr>cl_tier := T4, cl_reasons := cl_reasons cl @ [reason]\<rparr>"

definition close_bindings :: "'w capture_host \<Rightarrow> opened \<Rightarrow> observed_call \<Rightarrow> signature option \<Rightarrow> bound \<times> bool" where
  "close_bindings h oe ob sg =
     (let binds = (case sg of Some m \<Rightarrow> sg_binds m | None \<Rightarrow> []);
          (b, missing) = (if binds \<noteq> [] then declared_bindings (rd_rx (ch_redact h)) binds (oe_args oe) ob else (default_bindings ob, False))
      in (resource_url_binding (ch_pf h) (arg_text oe ''url'') b, missing))"

definition close_keys :: "'w capture_host \<Rightarrow> opened \<Rightarrow> observed_call \<Rightarrow> (string \<times> json) list \<Rightarrow> string list" where
  "close_keys h oe ob bindings =
     resource_keys (ch_pf h)
       \<lparr>ki_action = oe_action oe, ki_bindings = bindings, ki_args = Some (oe_args oe), ki_headers = Some (ob_headers ob),
        ki_dialect = arg_text oe ''dialect'', ki_db = None, ki_table = arg_text oe ''table'', ki_pk = None,
        ki_realpath = orelse_opt (arg_text oe ''realpath'') (arg_text oe ''path''), ki_mcp_server = None, ki_mcp_tool = None,
        ki_primary_binding = None\<rparr>"

definition settle :: "'w capture_host \<Rightarrow> opened \<Rightarrow> close_opts \<Rightarrow> closing" where
  "settle h oe cq =
     (let ob = observe_result (if nullish (cq_result cq) then cq_value cq else cq_result cq) (cq_error cq);
          sg = close_signature h oe ob;
          ctx = close_ctx h oe ob sg;
          cl0 = classify_action (ch_pf h) (oe_action oe) (oe_args oe) (ctx\<lparr>cx_matched := Some (with_id sg)\<rparr>);
          cl1 = foldl (\<lambda>cl r. if starts_with r ''lexshield_'' then add_reason r cl else cl) cl0 (cl_reasons (oe_classification oe));
          status = close_status (is_mutating h (oe_action oe) (oe_args oe))
            (st_in_doubt (classify_structural (ch_pf h) (oe_action oe) (oe_args oe) ctx)) ob cq;
          (b, missing) = close_bindings h oe ob sg;
          no_pk = is_insert oe \<and> nullish (map_of (fst b) ''pk'') \<and> nullish (map_of (fst b) ''id'');
          sg' = (if no_pk then None else sg);
          truncated = (case oe_preimage oe of Some p \<Rightarrow> pi_truncated p | None \<Rightarrow> False);
          cl2 = (if no_pk then worst_case ''insert_no_pk'' cl1 else cl1);
          cl3 = (if truncated then worst_case ''preimage_truncated'' cl2 else cl2)
      in \<lparr>cg_observed = ob, cg_signature = sg', cg_classification = cl3, cg_status = status, cg_bindings = fst b, cg_paths = snd b,
          cg_missing = missing, cg_truncated = truncated, cg_state = compensation_for (cl_tier cl3) (with_id sg') truncated missing,
          cg_keys = close_keys h oe ob (fst b)\<rparr>)"

definition close_leak :: "closing \<Rightarrow> string" where
  "close_leak cg = (case cg_signature cg of Some m \<Rightarrow> leak_str (sg_leak m) | None \<Rightarrow> ''none'')"

definition risk_text :: "risk \<Rightarrow> string" where
  "risk_text r = (case r of NoRisk \<Rightarrow> ''none'' | LowRisk \<Rightarrow> ''low'' | HighRisk \<Rightarrow> ''high'')"

definition close_risk :: "closing \<Rightarrow> string" where
  "close_risk cg = (case cg_signature cg of Some m \<Rightarrow> risk_text (sg_cascade_risk m) | None \<Rightarrow> ''none'')"

definition close_until :: "'w capture_host \<Rightarrow> opened \<Rightarrow> closing \<Rightarrow> engine_error + string option" where
  "close_until h oe cg =
     (case cg_signature cg of
        Some m \<Rightarrow> (case sg_window m of Some w \<Rightarrow> add_duration (ch_pf h) (oe_opened_at oe) w | None \<Rightarrow> Inr None)
      | None \<Rightarrow> Inr None)"

definition close_fidelity :: "opened \<Rightarrow> string" where
  "close_fidelity oe = (if oe_warnings oe \<noteq> [] then ''degraded'' else fidelity_str (oe_fidelity oe))"

text \<open>\<^verbatim>\<open>Math.max(0, Date.parse(closed) - Date.parse(opened))\<close>.\<close>

definition close_duration :: "platform \<Rightarrow> string \<Rightarrow> string \<Rightarrow> json" where
  "close_duration pf opened_at closed_at =
     (case (pf_date_parse pf opened_at, pf_date_parse pf closed_at) of
        (Some a, Some b) \<Rightarrow> JInt (max 0 (b - a)) | _ \<Rightarrow> JNonFinite ''NaN'')"

definition receipt_json :: "opened \<Rightarrow> closing \<Rightarrow> string \<Rightarrow> string option \<Rightarrow> string \<Rightarrow> json \<Rightarrow> json" where
  "receipt_json oe cg result_hash until closed_at duration =
     JObj ([(''v'', JStr ''vekrevert/v1''), (''effect_id'', JStr (oe_effect_id oe)), (''saga_id'', JStr (oe_saga_id oe)), (''seq'', JInt (oe_seq oe))]
       @ opt_member ''restore_sibling_of'' (map_option fst (oe_sibling oe))
       @ [(''action'', action_json (oe_action oe)), (''tier'', JStr (tier_str (cl_tier (cg_classification cg)))),
          (''classification'', classification_json (cg_classification cg)), (''args_observed'', oe_observed oe), (''args_hash'', JStr (oe_args_hash oe))]
       @ (if oe_commitments oe = [] then [] else [(''args_commitments'', JObj (oe_commitments oe))])
       @ [(''intent_key'', JStr (oe_intent_key oe)), (''result_observed'', ob_raw (cg_observed cg)), (''result_hash'', JStr result_hash),
          (''bindings'', JObj (cg_bindings cg)), (''binding_paths'', JObj (cg_paths cg)), (''resource_keys'', strings (cg_keys cg))]
       @ opt_json ''preimage'' (map_option preimage_json (oe_preimage oe))
       @ [(''status'', JStr (cg_status cg)), (''compensation_state'', JStr (cg_state cg))]
       @ (if with_id (cg_signature cg) then opt_member ''compensator_id'' (map_option sg_id (cg_signature cg)) else [])
       @ [(''capture'', JObj [(''fidelity'', JStr (close_fidelity oe)), (''interceptor'', JStr (oe_interceptor oe)),
             (''sdk_version'', JStr ''0.1.0''), (''warnings'', strings (oe_warnings oe))]),
          (''leak'', JStr (close_leak cg)), (''cascade_risk'', JStr (close_risk cg))]
       @ opt_member ''compensable_until'' until
       @ [(''opened_at'', JStr (oe_opened_at oe)), (''closed_at'', JStr closed_at), (''duration_ms'', duration),
          (''redactions'', strings (oe_redactions oe)), (''sealed'', JBool True)])"

record sealed =
  se_receipt :: json
  se_result_hash :: string
  se_seal :: string
  se_until :: "string option"
  se_closed_at :: string
  se_duration :: json

text \<open>The sealed receipt, or the exception on the way to it.\<close>

definition seal_receipt :: "'w capture_host \<Rightarrow> opened \<Rightarrow> closing \<Rightarrow> string \<Rightarrow> string \<Rightarrow> engine_error + sealed" where
  "seal_receipt h oe cg rh closed_at =
     (case close_until h oe cg of
        Inl e \<Rightarrow> Inl e
      | Inr until \<Rightarrow>
          (let d = close_duration (ch_pf h) (oe_opened_at oe) closed_at; rc = receipt_json oe cg rh until closed_at d
           in case seal_hash (ch_pf h) rc of
                None \<Rightarrow> Inl (HostError ''canonicalize'')
              | Some seal \<Rightarrow> Inr \<lparr>se_receipt = rc, se_result_hash = rh, se_seal = seal, se_until = until, se_closed_at = closed_at, se_duration = d\<rparr>))"

text \<open>The events beside the closing one.\<close>

definition effect_event :: "'w capture_host \<Rightarrow> opened \<Rightarrow> string \<Rightarrow> json \<Rightarrow> ('w capture, unit) action" where
  "effect_event h oe type payload = bind (chained h (oe_saga_id oe) type payload (Some (oe_effect_id oe))) (\<lambda>_. give ())"

definition unavailable_reason :: "closing \<Rightarrow> string" where
  "unavailable_reason cg = (if cg_truncated cg then ''VR2005'' else if cg_missing cg then ''VR2011'' else ''VR3001'')"

definition doubt_reason :: "observed_call \<Rightarrow> string" where
  "doubt_reason ob = (if ob_timeout ob then ''timeout'' else if ob_transport ob then ''transportError'' else ''http_5xx_or_opened'')"

definition emit_side :: "'w capture_host \<Rightarrow> opened \<Rightarrow> closing \<Rightarrow> ('w capture, unit) action" where
  "emit_side h oe cg =
     bind (case oe_sibling oe of
        Some (k, b) \<Rightarrow> only_if (k \<noteq> []) (effect_event h oe ''effect_duplicate_suspected''
          (JObj [(''intent_key'', JStr (oe_intent_key oe)), (''restore_sibling_of'', JStr k), (''restore_boundary_seq'', JInt b)]))
      | None \<Rightarrow> give ()) (\<lambda>_.
     bind (only_if (cg_status cg = ''in_doubt'') (effect_event h oe ''effect_in_doubt'' (in_doubt_payload (doubt_reason (cg_observed cg))))) (\<lambda>_.
     bind (only_if (cg_state cg = ''unavailable'') (effect_event h oe ''compensation_unavailable''
        (JObj [(''reason_code'', JStr (unavailable_reason cg)), (''candidates_considered'', JInt (int (length (cl_candidates (cg_classification cg)))))]))) (\<lambda>_.
     only_if (cg_state cg = ''none_required'') (effect_event h oe ''compensation_skipped'' (JObj [(''reason'', JStr ''t1'')])))))"

definition closed_payload :: "closing \<Rightarrow> sealed \<Rightarrow> json" where
  "closed_payload cg se =
     JObj [(''status'', JStr (cg_status cg)), (''result_hash'', JStr (se_result_hash se)), (''bindings'', JObj (cg_bindings cg)),
           (''resource_keys'', strings (cg_keys cg)), (''duration_ms'', se_duration se), (''seal_hash'', JStr (se_seal se)),
           (''result_observed'', ob_raw (cg_observed cg)), (''binding_paths'', JObj (cg_paths cg)), (''compensation_state'', JStr (cg_state cg))]"

definition write_close :: "'w capture_host \<Rightarrow> opened \<Rightarrow> closing \<Rightarrow> sealed \<Rightarrow> ('w capture, unit) action" where
  "write_close h oe cg se =
     bind (emit_side h oe cg) (\<lambda>_.
     bind (effect_event h oe ''effect_closed'' (closed_payload cg se)) (\<lambda>_.
     effect_event h oe ''receipt_issued'' (JObj [(''effect_id'', JStr (oe_effect_id oe)), (''seal_hash'', JStr (se_seal se))])))"

definition row_closed :: "opened \<Rightarrow> closing \<Rightarrow> sealed \<Rightarrow> effect \<Rightarrow> effect" where
  "row_closed oe cg se e =
     row_classified (cg_classification cg)
       (e\<lparr>ef_result_observed := Some (ob_raw (cg_observed cg)), ef_result_hash := Some (se_result_hash se), ef_bindings := JObj (cg_bindings cg),
          ef_binding_paths := JObj (cg_paths cg), ef_resource_keys := strings (cg_keys cg), ef_status := cg_status cg, ef_comp_state := cg_state cg,
          ef_sealed := 1, ef_seal_hash := Some (se_seal se), ef_closed_at := Some (se_closed_at se), ef_duration_ms := Some (se_duration se),
          ef_capture_fidelity := close_fidelity oe, ef_capture_interceptor := oe_interceptor oe, ef_leak := close_leak cg,
          ef_cascade_risk := close_risk cg, ef_compensable_until := se_until se,
          ef_restore_sibling_of := (case oe_sibling oe of Some (k, _) \<Rightarrow> Some k | None \<Rightarrow> ef_restore_sibling_of e),
          ef_compensator_id := (if with_id (cg_signature cg) then map_option sg_id (cg_signature cg) else ef_compensator_id e)\<rparr>)"

record closed =
  cz_receipt :: "json option"
  cz_degraded :: bool
  cz_status :: string
  cz_recorded :: bool

definition degraded_receipt :: "json \<Rightarrow> json" where
  "degraded_receipt v =
     (case v of JObj kvs \<Rightarrow> JObj (map (\<lambda>(k, x). (k, case x of JObj cs \<Rightarrow> if k = ''capture'' then
          JObj (set_key ''warnings'' (strings [''ep2_write_failed'']) (set_key ''fidelity'' (JStr ''degraded'') cs)) else x | _ \<Rightarrow> x)) kvs) | _ \<Rightarrow> v)"

definition count_failure :: "('w capture, unit) action" where
  "count_failure = modifies (\<lambda>s. s\<lparr>cp_failures := Suc (cp_failures s)\<rparr>)"

definition row_degraded :: "opened \<Rightarrow> effect \<Rightarrow> effect" where
  "row_degraded oe e =
     e\<lparr>ef_capture_fidelity := ''degraded'', ef_capture_warnings := Some (strings [''ep2_write_failed'']),
       ef_restore_sibling_of := (case oe_sibling oe of Some (k, _) \<Rightarrow> Some k | None \<Rightarrow> ef_restore_sibling_of e)\<rparr>"

definition close_degraded :: "'w capture_host \<Rightarrow> opened \<Rightarrow> sealed \<Rightarrow> ('w capture, closed) action" where
  "close_degraded h oe se =
     bind count_failure (\<lambda>_.
     bind (ignoring (effect_event h oe ''capture_degraded''
        (JObj [(''effect_id'', JStr (oe_effect_id oe)), (''warnings'', strings [''ep2_write_failed'']), (''fidelity'', JStr ''degraded'')]))) (\<lambda>_.
     bind (get_row (oe_effect_id oe)) (\<lambda>row.
     bind (case row of Some e \<Rightarrow> put_row (row_degraded oe e) | None \<Rightarrow> give ()) (\<lambda>_.
       give \<lparr>cz_receipt = Some (degraded_receipt (se_receipt se)), cz_degraded = True,
             cz_status = (case row of Some e \<Rightarrow> ef_status e | None \<Rightarrow> ''opened''), cz_recorded = True\<rparr>))))"

definition with_seal :: "sealed \<Rightarrow> json" where
  "with_seal se = (case se_receipt se of JObj kvs \<Rightarrow> JObj (kvs @ [(''seal_hash'', JStr (se_seal se))]) | v \<Rightarrow> v)"

definition close_written :: "opened \<Rightarrow> closing \<Rightarrow> sealed \<Rightarrow> ('w capture, closed) action" where
  "close_written oe cg se =
     bind (get_row (oe_effect_id oe)) (\<lambda>row.
     bind (case row of Some e \<Rightarrow> put_row (row_closed oe cg se e) | None \<Rightarrow> give ()) (\<lambda>_.
       give \<lparr>cz_receipt = Some (with_seal se), cz_degraded = False, cz_status = cg_status cg, cz_recorded = True\<rparr>))"

definition succeeds :: "('s, 'a) action \<Rightarrow> ('s, bool) action" where
  "succeeds m = catching (bind m (\<lambda>_. give True)) (\<lambda>_. give False)"

definition close_recorded :: "'w capture_host \<Rightarrow> opened \<Rightarrow> closing \<Rightarrow> ('w capture, closed) action" where
  "close_recorded h oe cg =
     (case hash_jcs (ch_pf h) (ob_raw (cg_observed cg)) of
        None \<Rightarrow> throw (HostError ''canonicalize'')
      | Some rh \<Rightarrow>
          bind (now_iso h) (\<lambda>closed_at.
            case seal_receipt h oe cg rh closed_at of
              Inl e \<Rightarrow> throw e
            | Inr se \<Rightarrow> bind (succeeds (write_close h oe cg se)) (\<lambda>ok. if ok then close_written oe cg se else close_degraded h oe se)))"

definition close_opened_effect :: "'w capture_host \<Rightarrow> opened \<Rightarrow> close_opts \<Rightarrow> ('w capture, closed) action" where
  "close_opened_effect h oe cq =
     bind (only_if (oe_intent_key oe \<noteq> []) (modifies (end_inflight (oe_intent_key oe)))) (\<lambda>_.
       if \<not> oe_recorded oe then give \<lparr>cz_receipt = None, cz_degraded = False, cz_status = ''landed'', cz_recorded = False\<rparr>
       else if \<not> ch_has_ledger h then
         bind count_failure (\<lambda>_. give \<lparr>cz_receipt = None, cz_degraded = True, cz_status = ''in_doubt'', cz_recorded = True\<rparr>)
       else close_recorded h oe (settle h oe cq))"

section \<open>Later passes\<close>

text \<open>
  The classifier off the path of the call, once the model has answered; its exceptions are dropped.  A model can
  only raise the tier of the row.
\<close>

definition raise_row_tier :: "'w capture_host \<Rightarrow> opened \<Rightarrow> model_verdict \<Rightarrow> tier \<Rightarrow> effect \<Rightarrow> ('w capture, unit) action" where
  "raise_row_tier h oe v raised e =
     (if (case text_value tiers (ef_tier e) of Some t \<Rightarrow> tier_rank raised \<le> tier_rank t | None \<Rightarrow> False) then give ()
      else
        bind (put_row (e\<lparr>ef_tier := tier_str raised\<rparr>)) (\<lambda>_.
        effect_event h oe ''reversibility_classified''
          (JObj [(''action'', action_json (oe_action oe)), (''tier'', JStr (tier_str raised)),
             (''sources'', JArr [JObj [(''source'', JStr ''model''), (''tier'', JStr (tier_str (mv_tier v))), (''reasons'', strings (mv_reasons v))]]),
             (''reasons'', strings (mv_reasons v)), (''candidates'', JArr []), (''scope_violation'', JBool False)])))"

definition off_path_classifier :: "'w capture_host \<Rightarrow> opened \<Rightarrow> tier \<Rightarrow> ('w capture, unit) action" where
  "off_path_classifier h oe current =
     ignoring (bind (ask_model h (oe_action oe) (oe_args oe)) (\<lambda>v.
       case v of
         None \<Rightarrow> give ()
       | Some mv \<Rightarrow>
           (let raised = escalate_only current (Some (mv_tier mv))
            in if tier_rank raised \<le> tier_rank current then give ()
               else bind (get_row (oe_effect_id oe)) (\<lambda>row.
                 case row of None \<Rightarrow> give () | Some e \<Rightarrow> raise_row_tier h oe mv raised e))))"

definition reconcile_one :: "'w capture_host \<Rightarrow> string \<Rightarrow> string \<Rightarrow> ('w capture, unit) action" where
  "reconcile_one h saga_id k =
     bind (get_row k) (\<lambda>row.
       case row of
         None \<Rightarrow> give ()
       | Some e \<Rightarrow>
           if ef_status e = ''opened'' \<and> ef_sealed e = 0 then
             bind (catching (bind (chained h saga_id ''effect_in_doubt'' (in_doubt_payload ''opened_never_closed'') (Some k)) (\<lambda>_. give ()))
                (\<lambda>_. bind (get_row k) (\<lambda>cur. put_row ((orelse cur e)\<lparr>ef_status := ''in_doubt''\<rparr>)))) (\<lambda>_.
             only_if (ef_intent_key e \<noteq> []) (modifies (end_inflight (ef_intent_key e))))
           else give ())"

definition reconcile_opened :: "'w capture_host \<Rightarrow> string \<Rightarrow> ('w capture, unit) action" where
  "reconcile_opened h saga_id =
     (if \<not> ch_has_ledger h then give ()
      else bind (in_core (of_ledger (\<lambda>l. map ef_effect_id (mem_list_effects l saga_id)))) (\<lambda>ks. each (reconcile_one h saga_id) ks))"

end
