(* ===== verification/Captured.thy ===== *)
theory Captured
  imports Capture Execute
begin

text \<open>
  What the capture of effects guarantees: an opened effect is in the ledger before its action runs, closing it never
  throws and seals its row unless the ledger is closed, the sealed row reads back as a receipt, and the pass over
  effects that were never closed leaves none of them open.
\<close>

section \<open>Events of the capture\<close>

abbreviation led :: "'w capture \<Rightarrow> mem_ledger" where
  "led s \<equiv> en_ledger (cp_engine s)"

abbreviation row_of :: "'w capture \<Rightarrow> string \<Rightarrow> effect option" where
  "row_of s k \<equiv> mem_get_effect (led s) k"

text \<open>The parts of the state beside the engine.\<close>

definition same_rest :: "'w capture \<Rightarrow> 'w capture \<Rightarrow> bool" where
  "same_rest s t \<longleftrightarrow> cp_inflight t = cp_inflight s \<and> cp_failures t = cp_failures s \<and> cp_models t = cp_models s"

lemma in_core_run: "in_core m s = (case m (cp_engine s) of (t, r) \<Rightarrow> (s\<lparr>cp_engine := t\<rparr>, r))"
  by (simp add: in_core_def zoom_def)

lemma core_calls:
  "in_core (of_ledger f) s = (s, Inr (f (led s)))"
  "get_row k s = (s, Inr (row_of s k))"
  "put_row e s = (s\<lparr>cp_engine := (cp_engine s)\<lparr>en_ledger := mem_upsert_effect e (led s)\<rparr>\<rparr>, Inr ())"
  "now_iso h s = (s\<lparr>cp_engine := (cp_engine s)\<lparr>en_draws := Suc (en_draws (cp_engine s))\<rparr>\<rparr>,
     Inr (pf_iso (ch_pf h) (eh_clock (ch_engine h) (en_draws (cp_engine s)))))"
  by (simp_all add: in_core_run of_ledger_def reads_def get_row_def put_row_def on_ledger_def modifies_def now_iso_def bind_def clock_def draw_def give_def)

lemma chained_cases:
  assumes "chained h sid ty pl eid s = (s', r)"
  obtains (wrote) ev where "r = Inr ev" "is_event sid ty pl eid ev" "wrote ev (led s) (led s')" "same_rest s s'"
  | (threw) e where "r = Inl e" "led s' = led s" "ml_closed (led s) \<or> \<not> emits pl" "same_rest s s'"
proof -
  obtain t where t: "append_chained (ch_engine h) sid ty pl eid None (cp_engine s) = (t, r)" "s' = s\<lparr>cp_engine := t\<rparr>"
    using assms by (auto simp: chained_def in_core_run split: prod.splits)
  from t(1) show thesis by (cases rule: append_chained_cases) (use t(2) that in \<open>auto simp: same_rest_def\<close>)
qed

lemma wrote_row:
  "wrote ev l l' \<Longrightarrow> mem_get_effect l' k = map_of (rows_after ev (effect_rows l)) k"
  by (simp add: wrote_def mem_get_effect_def)

lemma is_event_touched:
  "is_event sid ty pl (Some k) ev \<Longrightarrow> k \<noteq> [] \<Longrightarrow> ty \<in> set effect_events \<Longrightarrow> touched ev = Some k"
  by (auto simp: is_event_def touched_def effect_events_def event_effect_id_def Let_def)

lemma is_event_untouched:
  "is_event sid ty pl eid ev \<Longrightarrow> ty \<notin> set effect_events \<Longrightarrow> ty \<noteq> ''effect_opened'' \<Longrightarrow> touched ev = None"
  by (auto simp: is_event_def touched_def Let_def)

lemma effect_id_nonempty [simp]: "derive_effect_id pf sid n a k \<noteq> []"
  by (simp add: derive_effect_id_def)

section \<open>Opening\<close>

text \<open>A row that has been opened and not closed, with what the opening knows of the effect.\<close>

definition opened_row_of :: "opened \<Rightarrow> effect \<Rightarrow> bool" where
  "opened_row_of oe e \<longleftrightarrow>
     ef_effect_id e = oe_effect_id oe \<and> ef_saga_id e = oe_saga_id oe \<and> ef_seq e = oe_seq oe \<and> ef_status e = ''opened'' \<and> ef_sealed e = 0
     \<and> ef_intent_key e = oe_intent_key oe \<and> ef_args_hash e = oe_args_hash oe \<and> ef_args_observed e = oe_observed oe
     \<and> ef_action_kind e = action_kind_str (ac_kind (oe_action oe)) \<and> ef_action_name e = ac_name (oe_action oe)
     \<and> ef_action_target e = ac_target (oe_action oe) \<and> ef_locality e = locality_str (ac_locality (oe_action oe))"

lemma action_members:
  "pstr (as_record (Some (action_json a))) ''kind'' d = action_kind_str (ac_kind a)"
  "pstr (as_record (Some (action_json a))) ''name'' d = ac_name a"
  "pstr_opt (as_record (Some (action_json a))) ''target'' = ac_target a"
  "pstr (as_record (Some (action_json a))) ''locality'' d = locality_str (ac_locality a)"
  by (cases "ac_version a"; cases "ac_target a"; simp add: action_json_def opt_member_def as_record_def pstr_def pstr_opt_def pget_def)+

text \<open>The row an \<^verbatim>\<open>effect_opened\<close> event makes of the payload of the opening.\<close>

lemma opened_row:
  assumes ev: "is_event (oe_saga_id oe) ''effect_opened'' (opened_payload oe) (Some (oe_effect_id oe)) ev" and id: "oe_effect_id oe \<noteq> []"
  shows "touched ev = Some (oe_effect_id oe) \<and> opened_row_of oe (row_opened oe (opened_effect ev (payload_of ev)))"
proof -
  let ?e = "opened_effect ev (payload_of ev)"
  have p: "pget (payload_of ev) ''action'' = Some (action_json (oe_action oe))" "pstr (payload_of ev) ''effect_id'' d = oe_effect_id oe"
    "pget (payload_of ev) ''seq'' = Some (JInt (oe_seq oe))" for d
    using ev by (simp_all add: is_event_def opened_payload_def as_record_def pget_def pstr_def action_json_def)
  then have "ef_effect_id ?e = oe_effect_id oe" using id by (simp add: opened_effect_def empty_effect_def Let_def)
  moreover have "ef_saga_id ?e = oe_saga_id oe \<and> ef_seq ?e = oe_seq oe \<and> ef_status ?e = ''opened'' \<and> ef_sealed ?e = 0
     \<and> ef_action_kind ?e = action_kind_str (ac_kind (oe_action oe)) \<and> ef_action_name ?e = ac_name (oe_action oe)
     \<and> ef_action_target ?e = ac_target (oe_action oe) \<and> ef_locality ?e = locality_str (ac_locality (oe_action oe))"
    using ev p by (simp add: opened_effect_def empty_effect_def Let_def action_members is_event_def js_int_def)
  moreover have "touched ev = Some (ef_effect_id ?e)" using ev by (simp add: touched_opened is_event_def)
  ultimately show ?thesis
    by (simp add: opened_row_of_def row_opened_def row_classified_def row_preimage_def Let_def split: option.split)
qed

lemma write_ahead_wrote:
  assumes run: "write_ahead h oe s = (s', Inr ids)" and id: "oe_effect_id oe \<noteq> []"
  shows "same_rest s s' \<and> (\<exists>ev. ev \<in> set (ml_events (led s')) \<and> is_event (oe_saga_id oe) ''effect_opened'' (opened_payload oe) (Some (oe_effect_id oe)) ev
    \<and> row_of s' (oe_effect_id oe) = Some (opened_effect ev (payload_of ev)))"
proof -
  from run obtain s1 e1 ev where 1: "chained h (oe_saga_id oe) ''reversibility_classified'' (classified_payload (oe_action oe) (oe_classification oe)) None s = (s1, Inr e1)"
    and 2: "chained h (oe_saga_id oe) ''effect_opened'' (opened_payload oe) (Some (oe_effect_id oe)) s1 = (s', Inr ev)"
    unfolding write_ahead_def catching_Inr_iff by (auto simp: bind_Inr_iff throw_def give_def)
  from 1 have r1: "same_rest s s1" by (cases rule: chained_cases) auto
  from 2 show ?thesis
  proof (cases rule: chained_cases)
    case (wrote ev')
    then have row: "row_of s' (oe_effect_id oe) = Some (opened_effect ev (payload_of ev))"
      using opened_row [of oe ev] id wrote_row [OF wrote(3)] rows_after_opened [of ev "oe_effect_id oe"] by (simp add: is_event_def)
    have "ev \<in> set (ml_events (led s'))" using wrote(1,3) by (auto simp: wrote_def)
    with wrote row r1 show ?thesis by (auto simp: same_rest_def)
  qed simp
qed

text \<open>The stages between writing ahead and the answer keep the row that has been opened.\<close>

lemma fill_row_runs:
  assumes "row_of s (oe_effect_id oe) = Some e" "opened_row_of oe (row_opened oe e)"
  shows "\<exists>s'. fill_row oe s = (s', Inr (Some (row_opened oe e))) \<and> row_of s' (oe_effect_id oe) = Some (row_opened oe e)
    \<and> ml_events (led s') = ml_events (led s) \<and> same_rest s s'"
  using assms
  by (simp add: fill_row_def bind_def core_calls give_def opened_row_of_def same_rest_def)

lemma model_stage_keeps:
  "model_stage h sp s = (s', r) \<Longrightarrow> led s' = led s \<and> cp_inflight s' = cp_inflight s \<and> cp_failures s' = cp_failures s"
  by (auto simp: model_stage_def ask_model_def give_def bind_def in_core_run clock_def draw_def split: if_splits option.splits prod.splits)

lemma opened_row_classified [simp]: "opened_row_of oe (row_classified cl e) = opened_row_of oe e"
  "opened_row_of oe (e\<lparr>ef_classification := v\<rparr>) = opened_row_of oe e"
  by (simp_all add: opened_row_of_def row_classified_def)

lemma pushed_event [simp]:
  "ev_type (push_reason_event i j r ev) = ev_type ev" "ev_effect_id (push_reason_event i j r ev) = ev_effect_id ev"
  "ev_saga_id (push_reason_event i j r ev) = ev_saga_id ev"
  by (simp_all add: push_reason_event_def)

text \<open>That the effect has been announced, whatever reasons were pushed on its payload since.\<close>

definition announced :: "string \<Rightarrow> string \<Rightarrow> mem_ledger \<Rightarrow> bool" where
  "announced sid k l \<longleftrightarrow> (\<exists>ev \<in> set (ml_events l). ev_type ev = ''effect_opened'' \<and> ev_saga_id ev = sid \<and> ev_effect_id ev = Some k)"

lemma announced_share [simp]: "announced sid k (share_reason ids eid r l) = announced sid k l"
  by (auto simp: announced_def share_reason_def)

lemma policy_stage_keeps:
  assumes run: "policy_stage h sp oe ids row newer s = (s', Inr cl)"
    and row: "row_of s (oe_effect_id oe) = Some e" "opened_row_of oe e" "ef_tier e = tier_str (cl_tier (oe_classification oe))" "row = Some e"
    and ann: "announced (oe_saga_id oe) (oe_effect_id oe) (led s)"
  shows "cp_inflight s' = cp_inflight s \<and> announced (oe_saga_id oe) (oe_effect_id oe) (led s')
    \<and> preflight_policy (ch_shield h) (ch_shield_env h) (ch_block_t4 h) (orelse newer (oe_classification oe)) (Some (sp_action sp)) = (cl, None)
    \<and> (\<exists>e'. row_of s' (oe_effect_id oe) = Some e' \<and> opened_row_of oe e' \<and> ef_tier e' = tier_str (cl_tier cl))"
proof -
  let ?cl = "orelse newer (oe_classification oe)"
  obtain cl' err where p: "preflight_policy (ch_shield h) (ch_shield_env h) (ch_block_t4 h) ?cl (Some (sp_action sp)) = (cl', err)" by fastforce
  have tier: "cl_tier cl' = cl_tier ?cl" using p by (auto simp: preflight_policy_def Let_def split: if_splits option.splits prod.splits)
  have id: "ef_effect_id e = oe_effect_id oe" using row(2) by (simp add: opened_row_of_def)
  show ?thesis
  proof (cases newer)
    case None
    let ?s = "if cl' \<noteq> ?cl then s\<lparr>cp_engine := (cp_engine s)\<lparr>en_ledger := share_reason ids (oe_effect_id oe) (last (cl_reasons cl')) (led s)\<rparr>\<rparr> else s"
    have "policy_stage h sp oe ids row newer s = (case err of Some e \<Rightarrow> throw e | None \<Rightarrow> give cl') ?s"
      using p None row(4) by (simp add: policy_stage_def Let_def only_if_def in_core_run on_ledger_def modifies_def bind_def give_def split: option.split)
    with run have *: "err = None" "cl = cl'" "s' = ?s" by (auto simp: throw_def give_def split: option.splits)
    have "row_of ?s (oe_effect_id oe) = Some (if cl' \<noteq> ?cl then e\<lparr>ef_classification := push_reason (last (cl_reasons cl')) (ef_classification e)\<rparr> else e)"
      using row(1) by (simp add: share_reason_def mem_get_effect_def on_effect_map_of)
    with * p None tier row ann show ?thesis by auto
  next
    case (Some n)
    let ?s = "s\<lparr>cp_engine := (cp_engine s)\<lparr>en_ledger := mem_upsert_effect (row_classified cl' e) (led s)\<rparr>\<rparr>"
    have "policy_stage h sp oe ids row newer s = (case err of Some x \<Rightarrow> (s, Inl x) | None \<Rightarrow> (?s, Inr cl'))"
      using p Some row(4) by (simp add: policy_stage_def Let_def only_if_def bind_def give_def throw_def core_calls split: option.split)
    with run have *: "err = None" "cl = cl'" "s' = ?s" by (auto split: option.splits)
    have "row_of ?s (oe_effect_id oe) = Some (row_classified cl' e)"
      using id by (simp add: row_classified_def)
    moreover have "ef_tier (row_classified cl' e) = tier_str (cl_tier cl')" by (simp add: row_classified_def)
    ultimately show ?thesis using * p row ann by (auto simp: announced_def)
  qed
qed

lemma row_opened_tier: "ef_tier (row_opened oe e) = tier_str (cl_tier (oe_classification oe))"
  by (simp add: row_opened_def row_classified_def Let_def)

text \<open>What holds when an opening returns: the announcement, the row and the policy's consent.\<close>

definition written_ahead :: "'w capture_host \<Rightarrow> 'w effect_spec \<Rightarrow> opened \<Rightarrow> 'w capture \<Rightarrow> bool" where
  "written_ahead h sp oe s \<longleftrightarrow>
     announced (oe_saga_id oe) (oe_effect_id oe) (led s)
     \<and> (\<exists>e. row_of s (oe_effect_id oe) = Some e \<and> opened_row_of oe e \<and> ef_tier e = tier_str (cl_tier (oe_classification oe)))
     \<and> (\<exists>cl. preflight_policy (ch_shield h) (ch_shield_env h) (ch_block_t4 h) cl (Some (sp_action sp)) = (oe_classification oe, None))
     \<and> (oe_intent_key oe \<noteq> [] \<longrightarrow> find_inflight (oe_intent_key oe) s
          = Some \<lparr>if_effect_id = oe_effect_id oe, if_fidelity = oe_fidelity oe, if_intent_key = oe_intent_key oe\<rparr>)"

lemma open_new_writes:
  assumes run: "open_new h sp oe0 s = (s', Inr oe)" and id: "oe_effect_id oe0 \<noteq> []"
  shows "written_ahead h sp oe s' \<and> (\<exists>sib at cl. oe = oe0\<lparr>oe_sibling := sib, oe_opened_at := at, oe_classification := cl\<rparr>)"
proof -
  from run obtain oe1 sib at s1 ids s2 row s3 newer s4 cl s5 where oe1: "oe1 = oe0\<lparr>oe_sibling := sib, oe_opened_at := at\<rparr>"
    and wal: "write_ahead h oe1 s1 = (s2, Inr ids)" and fill: "fill_row oe1 s2 = (s3, Inr row)"
    and model: "model_stage h sp s3 = (s4, Inr newer)" and policy: "policy_stage h sp oe1 ids row newer s4 = (s5, Inr cl)"
    and fin: "s' = begin_inflight \<lparr>if_effect_id = oe_effect_id oe1, if_fidelity = oe_fidelity oe1, if_intent_key = oe_intent_key oe1\<rparr> s5"
      "oe = oe1\<lparr>oe_classification := cl\<rparr>"
    by (auto simp: open_new_def bind_Inr_iff core_calls Let_def modifies_def give_def)
  have id1: "oe_effect_id oe1 \<noteq> []" using id oe1 by simp
  from write_ahead_wrote [OF wal id1] obtain ev where ev: "ev \<in> set (ml_events (led s2))"
    "is_event (oe_saga_id oe1) ''effect_opened'' (opened_payload oe1) (Some (oe_effect_id oe1)) ev"
    "row_of s2 (oe_effect_id oe1) = Some (opened_effect ev (payload_of ev))" by blast
  let ?e = "row_opened oe1 (opened_effect ev (payload_of ev))"
  have opened: "opened_row_of oe1 ?e" using opened_row [OF ev(2) id1] by blast
  from fill_row_runs [OF ev(3) opened] fill have filled: "row = Some ?e" "row_of s3 (oe_effect_id oe1) = Some ?e"
    "ml_events (led s3) = ml_events (led s2)" by auto
  have "announced (oe_saga_id oe1) (oe_effect_id oe1) (led s3)"
    using ev(1,2) id1 filled(3) by (auto simp: announced_def is_event_def)
  with policy_stage_keeps [OF policy _ opened row_opened_tier filled(1)] model_stage_keeps [OF model] filled(2)
  have p: "announced (oe_saga_id oe1) (oe_effect_id oe1) (led s5)"
    "preflight_policy (ch_shield h) (ch_shield_env h) (ch_block_t4 h) (orelse newer (oe_classification oe1)) (Some (sp_action sp)) = (cl, None)"
    "\<exists>e'. row_of s5 (oe_effect_id oe1) = Some e' \<and> opened_row_of oe1 e' \<and> ef_tier e' = tier_str (cl_tier cl)" by simp_all
  have engine: "cp_engine s' = cp_engine s5" using fin(1) by (simp add: begin_inflight_def)
  have same: "oe_saga_id oe = oe_saga_id oe1" "oe_effect_id oe = oe_effect_id oe1" "oe_intent_key oe = oe_intent_key oe1"
    "oe_fidelity oe = oe_fidelity oe1" "oe_classification oe = cl" "opened_row_of oe = opened_row_of oe1"
    using fin(2) by (simp_all add: opened_row_of_def fun_eq_iff)
  have "oe_intent_key oe \<noteq> [] \<longrightarrow> find_inflight (oe_intent_key oe) s'
      = Some \<lparr>if_effect_id = oe_effect_id oe, if_fidelity = oe_fidelity oe, if_intent_key = oe_intent_key oe\<rparr>"
    using fin(1) id1 by (simp add: same begin_inflight_def find_inflight_def set_key_def update_conv')
  then have "written_ahead h sp oe s'" using p unfolding written_ahead_def engine same by blast
  moreover have "oe = oe0\<lparr>oe_sibling := sib, oe_opened_at := at, oe_classification := cl\<rparr>" using fin(2) oe1 by simp
  ultimately show ?thesis by blast
qed

lemma open_effect_recorded:
  assumes run: "open_effect h sid sp s = (s', Inr oe)" and rec: "oe_recorded oe"
  shows "ch_has_ledger h \<and> ch_context h = None \<and> (\<exists>red key oe0 s0. redact_args (ch_pf h) (ch_redact h) (sp_args sp) = Some red
    \<and> intent_of h sp = Some key \<and> open_new h sp oe0 s0 = (s', Inr oe) \<and> oe_effect_id oe0 \<noteq> [] \<and> oe_saga_id oe0 = sid \<and> oe_action oe0 = sp_action sp
    \<and> oe_intent_key oe0 = key \<and> oe_args_hash oe0 = rd_args_hash red \<and> oe_observed oe0 = rd_observed red \<and> oe_recorded oe0)"
proof -
  have led: "ch_has_ledger h" using run by (cases "ch_has_ledger h") (auto simp: open_effect_def throw_def)
  have ctx: "ch_context h = None"
    using run rec led by (cases "ch_context h") (auto simp: open_effect_def open_bypassed_def bind_Inr_iff give_def unrecorded_def)
  obtain red where red: "redact_args (ch_pf h) (ch_redact h) (sp_args sp) = Some red"
    using run led ctx by (auto simp: open_effect_def throw_def split: option.splits)
  have "\<not> (cl_tier (classify_spec h sp None None) = T1 \<and> \<not> ch_record_t1 h)"
    using run rec led ctx red
    by (auto simp: open_effect_def open_t1_def Let_def bind_Inr_iff give_def throw_def unrecorded_def with_hashes_def split: option.splits if_splits)
  then obtain cl pre warnings s1 where rest: "open_recorded h sid sp red cl pre warnings s1 = (s', Inr oe)"
    using run led ctx red by (auto simp: open_effect_def Let_def bind_Inr_iff split: if_splits)
  obtain key where key: "intent_of h sp = Some key"
    using rest by (auto simp: open_recorded_def bind_Inr_iff throw_def split: option.splits)
  let ?seq = "case mem_get_saga (led s1) sid of Some g \<Rightarrow> sa_next_seq g | None \<Rightarrow> 1"
  let ?oe0 = "(with_hashes red key (unrecorded sp sid cl [] warnings))\<lparr>oe_effect_id :=
      derive_effect_id (ch_pf h) sid ?seq (ac_name (sp_action sp)) (rd_args_hash red), oe_seq := ?seq, oe_preimage := pre,
      oe_commitments := rd_commitments red, oe_recorded := True\<rparr>"
  have "open_new h sp ?oe0 s1 = (s', Inr oe)"
    using rest key rec
    by (auto simp: open_recorded_def bind_Inr_iff core_calls reads_def Let_def give_def with_hashes_def unrecorded_def split: option.splits if_splits)
  moreover have "oe_effect_id ?oe0 \<noteq> [] \<and> oe_saga_id ?oe0 = sid \<and> oe_action ?oe0 = sp_action sp \<and> oe_intent_key ?oe0 = key
     \<and> oe_args_hash ?oe0 = rd_args_hash red \<and> oe_observed ?oe0 = rd_observed red \<and> oe_recorded ?oe0"
    by (simp add: with_hashes_def unrecorded_def)
  ultimately show ?thesis using led ctx red key by blast
qed


section \<open>Closing\<close>

text \<open>The ledger is still open and the row of the effect is the same but for its state and its outcome.\<close>

definition kept_open :: "string \<Rightarrow> 'w capture \<Rightarrow> 'w capture \<Rightarrow> bool" where
  "kept_open k s s' \<longleftrightarrow> \<not> ml_closed (led s') \<and> same_rest s s'
     \<and> rel_option (\<lambda>e e'. receipt_part e' = receipt_part e) (row_of s k) (row_of s' k)"

lemma kept_open_refl: "\<not> ml_closed (led s) \<Longrightarrow> kept_open k s s"
  by (simp add: kept_open_def same_rest_def option.rel_refl)

lemma kept_open_trans: "kept_open k s t \<Longrightarrow> kept_open k t u \<Longrightarrow> kept_open k s u"
  by (auto simp: kept_open_def same_rest_def elim!: option.rel_cases)

lemma effect_event_runs:
  assumes open_led: "\<not> ml_closed (led s)" and pl: "emits pl" and ty: "ty \<noteq> ''effect_opened''" and id: "oe_effect_id oe \<noteq> []"
  shows "\<exists>s'. effect_event h oe ty pl s = (s', Inr ()) \<and> kept_open (oe_effect_id oe) s s'"
proof -
  let ?k = "oe_effect_id oe"
  obtain s' r where run: "chained h (oe_saga_id oe) ty pl (Some ?k) s = (s', r)" by (metis surj_pair)
  then show ?thesis
  proof (cases rule: chained_cases)
    case (wrote ev)
    have "touched ev = Some ?k \<or> touched ev = None"
      using wrote(2) ty id is_event_touched [OF wrote(2)] is_event_untouched [OF wrote(2)] by (cases "ty \<in> set effect_events") auto
    then have "rel_option (\<lambda>e e'. receipt_part e' = receipt_part e) (row_of s ?k) (row_of s' ?k)"
    proof
      assume t: "touched ev = Some ?k"
      have "ev_type ev \<noteq> ''effect_opened''" using wrote(2) ty by (simp add: is_event_def)
      from wrote_row [OF wrote(3), of ?k] rows_after_changed [OF this t, of "effect_rows (led s)"] show ?thesis
        by (cases "row_of s ?k") (simp_all add: mem_get_effect_def receipt_part_change)
    next
      assume t: "touched ev = None"
      then have "touched ev \<noteq> Some ?k" by simp
      from wrote_row [OF wrote(3), of ?k] rows_after_other [OF this, of "effect_rows (led s)"] show ?thesis
        by (simp add: mem_get_effect_def option.rel_refl)
    qed
    with wrote have "kept_open ?k s s'" by (simp add: kept_open_def wrote_def)
    with run wrote(1) show ?thesis by (simp add: effect_event_def bind_def give_def)
  next
    case (threw e)
    with open_led pl show ?thesis by blast
  qed
qed

lemma runs_bind:
  assumes "\<exists>s1. m s = (s1, Inr ()) \<and> kept_open k s s1" "\<And>s1. kept_open k s s1 \<Longrightarrow> \<exists>s2. f () s1 = (s2, Inr ()) \<and> kept_open k s1 s2"
  shows "\<exists>s2. bind m f s = (s2, Inr ()) \<and> kept_open k s s2"
  using assms by (fastforce simp: bind_def intro: kept_open_trans)

lemma runs_only_if:
  "\<not> ml_closed (led s) \<Longrightarrow> \<exists>s1. m s = (s1, Inr ()) \<and> kept_open k s s1 \<Longrightarrow> \<exists>s1. only_if b m s = (s1, Inr ()) \<and> kept_open k s s1"
  by (cases b) (auto simp: only_if_def give_def kept_open_refl)

lemma kept_open_led: "kept_open k s s1 \<Longrightarrow> \<not> ml_closed (led s1)"
  by (simp add: kept_open_def)

lemma emit_side_runs:
  assumes "\<not> ml_closed (led s)" "oe_effect_id oe \<noteq> []"
  shows "\<exists>s'. emit_side h oe cg s = (s', Inr ()) \<and> kept_open (oe_effect_id oe) s s'"
proof -
  have ev: "\<exists>s1. effect_event h oe ty pl t = (s1, Inr ()) \<and> kept_open (oe_effect_id oe) t s1"
    if "\<not> ml_closed (led t)" "emits pl" "ty \<noteq> ''effect_opened''" for t ty pl
    using effect_event_runs [OF that] assms(2) by blast
  have first: "\<exists>s1. (case oe_sibling oe of
        Some (k, b) \<Rightarrow> only_if (k \<noteq> []) (effect_event h oe ''effect_duplicate_suspected''
          (JObj [(''intent_key'', JStr (oe_intent_key oe)), (''restore_sibling_of'', JStr k), (''restore_boundary_seq'', JInt b)]))
      | None \<Rightarrow> give ()) s = (s1, Inr ()) \<and> kept_open (oe_effect_id oe) s s1"
    using assms(1) by (cases "oe_sibling oe") (auto simp: give_def kept_open_refl intro!: runs_only_if ev split: prod.split)
  show ?thesis
    unfolding emit_side_def
    by (intro runs_bind first runs_only_if ev kept_open_led) (simp_all add: in_doubt_payload_def kept_open_led)
qed

lemma write_close_runs:
  assumes "\<not> ml_closed (led s)" "oe_effect_id oe \<noteq> []" "emits (closed_payload cg se)"
  shows "\<exists>s'. write_close h oe cg se s = (s', Inr ()) \<and> kept_open (oe_effect_id oe) s s'"
  unfolding write_close_def
proof (rule runs_bind)
  show "\<exists>s1. emit_side h oe cg s = (s1, Inr ()) \<and> kept_open (oe_effect_id oe) s s1" using assms(1,2) by (rule emit_side_runs)
  fix s1 assume "kept_open (oe_effect_id oe) s s1"
  then show "\<exists>s2. bind (effect_event h oe ''effect_closed'' (closed_payload cg se)) (\<lambda>_. effect_event h oe ''receipt_issued''
      (JObj [(''effect_id'', JStr (oe_effect_id oe)), (''seal_hash'', JStr (se_seal se))])) s1 = (s2, Inr ()) \<and> kept_open (oe_effect_id oe) s1 s2"
    using assms(2,3) by (intro runs_bind effect_event_runs) (auto dest: kept_open_led)
qed

lemma same_rest_refl [simp]: "same_rest s s"
  by (simp add: same_rest_def)

text \<open>An action that throws without having changed the ledger.\<close>

definition stuck :: "'w capture \<Rightarrow> ('w capture, 'a) action \<Rightarrow> bool" where
  "stuck s m \<longleftrightarrow> (\<exists>s' e. m s = (s', Inl e) \<and> led s' = led s \<and> same_rest s s')"

lemma stuck_bind: "stuck s m \<Longrightarrow> stuck s (bind m f)"
  by (auto simp: stuck_def bind_def)

lemma stuck_guard: "stuck s m \<Longrightarrow> stuck s n \<Longrightarrow> stuck s (bind (only_if b m) (\<lambda>_. n))"
  by (cases b) (auto simp: stuck_def only_if_def bind_def give_def)

text \<open>A closed ledger takes no event.\<close>

lemma chained_closed:
  assumes "ml_closed (led s)"
  shows "stuck s (chained h sid ty pl eid)"
proof -
  obtain s' r where run: "chained h sid ty pl eid s = (s', r)" by (metis surj_pair)
  then show ?thesis
    by (cases rule: chained_cases) (use assms run in \<open>auto simp: stuck_def wrote_def\<close>)
qed

lemma effect_event_closed: "ml_closed (led s) \<Longrightarrow> stuck s (effect_event h oe ty pl)"
  unfolding effect_event_def by (rule stuck_bind) (rule chained_closed)

lemma bind_assoc: "bind (bind m f) g = bind m (\<lambda>x. bind (f x) g)"
  by (rule ext) (auto simp: bind_def split: prod.split sum.split)

lemma write_close_closed:
  assumes "ml_closed (led s)"
  shows "stuck s (write_close h oe cg se)"
proof -
  note ev = effect_event_closed [OF assms, of h oe]
  show ?thesis
    unfolding write_close_def emit_side_def bind_assoc
    by (cases "oe_sibling oe") (auto intro!: stuck_guard ev stuck_bind [OF ev] split: prod.split)
qed

section \<open>The outcome of a close\<close>

text \<open>The values that are sealed have a canonical text, and so has the closing event.\<close>

lemma seal_receipt_emits:
  assumes "seal_receipt h oe cg rh at = Inr se"
  shows "emits (closed_payload cg se) \<and> se_result_hash se = rh"
proof -
  from assms have "emits (se_receipt se)" "se_result_hash se = rh"
    and rc: "se_receipt se = receipt_json oe cg rh (se_until se) at (se_duration se)"
    by (auto simp: seal_receipt_def Let_def seal_hash_def hash_jcs_def emits_def canonicalize_def split: sum.splits option.splits)
  then have "emits (se_duration se) \<and> emits (JObj (cg_bindings cg)) \<and> emits (JObj (cg_paths cg)) \<and> emits (ob_raw (cg_observed cg))"
    by (simp add: receipt_json_def)
  then show ?thesis using \<open>se_result_hash se = rh\<close> by (simp add: closed_payload_def strings_def list_all_iff)
qed

text \<open>The answer of a close that got as far as sealing.\<close>

definition close_time :: "'w capture_host \<Rightarrow> 'w capture \<Rightarrow> string" where
  "close_time h s = pf_iso (ch_pf h) (eh_clock (ch_engine h) (en_draws (cp_engine s)))"

lemma close_recorded_open:
  assumes hash: "hash_jcs (ch_pf h) (ob_raw (cg_observed cg)) = Some rh" and seal: "seal_receipt h oe cg rh (close_time h s) = Inr se"
    and open_led: "\<not> ml_closed (led s)" and id: "oe_effect_id oe \<noteq> []"
  shows "\<exists>s'. close_recorded h oe cg s
        = (s', Inr \<lparr>cz_receipt = Some (with_seal se), cz_degraded = False, cz_status = cg_status cg, cz_recorded = True\<rparr>)
      \<and> same_rest s s' \<and> (\<forall>e. row_of s (oe_effect_id oe) = Some e \<and> ef_effect_id e = oe_effect_id oe
            \<longrightarrow> (\<exists>e'. receipt_part e' = receipt_part e \<and> row_of s' (oe_effect_id oe) = Some (row_closed oe cg se e')))"
proof -
  let ?k = "oe_effect_id oe" and ?s = "s\<lparr>cp_engine := (cp_engine s)\<lparr>en_draws := Suc (en_draws (cp_engine s))\<rparr>\<rparr>"
  obtain s1 where w: "write_close h oe cg se ?s = (s1, Inr ())" "kept_open ?k ?s s1"
    using write_close_runs [of ?s oe cg se h] open_led id seal_receipt_emits [OF seal] by auto
  let ?s2 = "case row_of s1 ?k of Some e \<Rightarrow> s1\<lparr>cp_engine := (cp_engine s1)\<lparr>en_ledger := mem_upsert_effect (row_closed oe cg se e) (led s1)\<rparr>\<rparr> | None \<Rightarrow> s1"
  have "close_recorded h oe cg s = (?s2, Inr \<lparr>cz_receipt = Some (with_seal se), cz_degraded = False, cz_status = cg_status cg, cz_recorded = True\<rparr>)"
    using hash seal w(1)
    by (simp add: close_recorded_def close_time_def bind_def core_calls succeeds_def catching_def give_def close_written_def split: option.split)
  moreover have "same_rest s ?s2" using w(2) by (simp add: kept_open_def same_rest_def split: option.split)
  moreover have "\<exists>e'. receipt_part e' = receipt_part e \<and> row_of ?s2 ?k = Some (row_closed oe cg se e')"
    if "row_of s ?k = Some e" "ef_effect_id e = ?k" for e
  proof -
    from w(2) that(1) obtain e' where e': "row_of s1 ?k = Some e'" "receipt_part e' = receipt_part e"
      by (auto simp: kept_open_def elim: option.rel_cases)
    then have "ef_effect_id (row_closed oe cg se e') = ?k" using receipt_part_sel(1) [OF e'(2)] that(2) by (simp add: row_closed_def row_classified_def)
    with e' show ?thesis by auto
  qed
  ultimately show ?thesis by blast
qed

lemma close_recorded_closed:
  assumes hash: "hash_jcs (ch_pf h) (ob_raw (cg_observed cg)) = Some rh" and seal: "seal_receipt h oe cg rh (close_time h s) = Inr se"
    and closed: "ml_closed (led s)"
  shows "\<exists>s' z. close_recorded h oe cg s = (s', Inr z) \<and> cz_degraded z \<and> cz_recorded z \<and> cz_receipt z = Some (degraded_receipt (se_receipt se))
      \<and> cp_failures s' = Suc (cp_failures s) \<and> ml_events (led s') = ml_events (led s)"
proof -
  let ?s = "s\<lparr>cp_engine := (cp_engine s)\<lparr>en_draws := Suc (en_draws (cp_engine s))\<rparr>\<rparr>"
  obtain s1 e where w: "write_close h oe cg se ?s = (s1, Inl e)" "led s1 = led s" "same_rest ?s s1"
    using write_close_closed [of ?s h oe cg se] closed by (auto simp: stuck_def)
  let ?s1 = "s1\<lparr>cp_failures := Suc (cp_failures s1)\<rparr>"
  obtain s2 e2 where d: "effect_event h oe ''capture_degraded''
      (JObj [(''effect_id'', JStr (oe_effect_id oe)), (''warnings'', strings [''ep2_write_failed'']), (''fidelity'', JStr ''degraded'')]) ?s1 = (s2, Inl e2)"
    "led s2 = led s" "same_rest ?s1 s2"
    using effect_event_closed [of ?s1 h oe] closed w(2) by (fastforce simp: stuck_def)
  have "close_recorded h oe cg s = close_degraded h oe se s1"
    using hash seal w(1) by (simp add: close_recorded_def close_time_def bind_def core_calls succeeds_def catching_def give_def)
  also have "\<dots> = (case row_of s2 (oe_effect_id oe) of
      Some e \<Rightarrow> (s2\<lparr>cp_engine := (cp_engine s2)\<lparr>en_ledger := mem_upsert_effect (row_degraded oe e) (led s2)\<rparr>\<rparr>,
        Inr \<lparr>cz_receipt = Some (degraded_receipt (se_receipt se)), cz_degraded = True, cz_status = ef_status e, cz_recorded = True\<rparr>)
    | None \<Rightarrow> (s2, Inr \<lparr>cz_receipt = Some (degraded_receipt (se_receipt se)), cz_degraded = True, cz_status = ''opened'', cz_recorded = True\<rparr>))"
    using d(1) by (simp add: close_degraded_def count_failure_def modifies_def bind_def ignoring_def catching_def give_def core_calls split: option.split)
  finally show ?thesis using w d(2,3) by (auto simp: same_rest_def split: option.split)
qed

definition out_of_flight :: "opened \<Rightarrow> 'w capture \<Rightarrow> 'w capture" where
  "out_of_flight oe s = (if oe_intent_key oe \<noteq> [] then end_inflight (oe_intent_key oe) s else s)"

lemma out_of_flight [simp]:
  "cp_engine (out_of_flight oe s) = cp_engine s" "cp_failures (out_of_flight oe s) = cp_failures s"
  "close_time h (out_of_flight oe s) = close_time h s"
  by (simp_all add: out_of_flight_def end_inflight_def close_time_def)

lemma close_opened_run:
  "oe_recorded oe \<Longrightarrow> ch_has_ledger h \<Longrightarrow> close_opened_effect h oe cq s = close_recorded h oe (settle h oe cq) (out_of_flight oe s)"
  by (simp add: close_opened_effect_def only_if_def out_of_flight_def modifies_def bind_def give_def)


section \<open>Reading a captured effect back\<close>

text \<open>A close whose answer is not degraded has sealed the receipt on an open ledger.\<close>

lemma close_returned:
  assumes run: "close_opened_effect h oe cq s = (s', Inr z)" and z: "\<not> cz_degraded z" "oe_recorded oe"
  shows "ch_has_ledger h \<and> (\<exists>rh se. hash_jcs (ch_pf h) (ob_raw (cg_observed (settle h oe cq))) = Some rh
    \<and> seal_receipt h oe (settle h oe cq) rh (close_time h s) = Inr se)"
proof -
  have led: "ch_has_ledger h"
    using run z by (cases "ch_has_ledger h") (auto simp: close_opened_effect_def bind_Inr_iff give_def)
  then have "close_recorded h oe (settle h oe cq) (out_of_flight oe s) = (s', Inr z)"
    using run z(2) by (simp add: close_opened_run)
  then show ?thesis
    using led by (auto simp: close_recorded_def bind_Inr_iff core_calls throw_def close_time_def split: option.splits sum.splits)
qed

lemma opened_texts [simp]:
  "text_value action_kinds (action_kind_str k) = Some k" "text_value localities (locality_str l) = Some l"
  "text_value tiers (tier_str t) = Some t" "text_value leaks (close_leak cg) \<noteq> None" "text_value risks (close_risk cg) \<noteq> None"
proof -
  show "text_value action_kinds (action_kind_str k) = Some k"
    by (cases k) (simp_all add: text_value_def action_kinds_def action_kind_str_def)
  show "text_value localities (locality_str l) = Some l" by (cases l) (simp_all add: text_value_def localities_def locality_str_def)
  show "text_value tiers (tier_str t) = Some t" by (cases t) (simp_all add: text_value_def tiers_def tier_str_def)
  show "text_value leaks (close_leak cg) \<noteq> None"
    by (auto simp: text_value_def leaks_def close_leak_def leak_str_def split: option.split leak.split)
  show "text_value risks (close_risk cg) \<noteq> None"
    by (auto simp: text_value_def risks_def close_risk_def risk_text_def split: option.split risk.split)
qed

lemma settled_texts:
  assumes "cq_status cq = None \<or> text_value effect_statuses (the (cq_status cq)) \<noteq> None"
  shows "text_value effect_statuses (cg_status (settle h oe cq)) \<noteq> None" "text_value comp_states (cg_state (settle h oe cq)) \<noteq> None"
proof -
  have "close_status m d ob cq \<in> {''failed'', ''in_doubt'', orelse (cq_status cq) ''landed''}" for m d ob
    by (simp add: close_status_def Let_def)
  moreover have "text_value effect_statuses x \<noteq> None" if "x \<in> {''failed'', ''in_doubt'', orelse (cq_status cq) ''landed''}" for x
  proof -
    have "text_value effect_statuses ''failed'' \<noteq> None" "text_value effect_statuses ''in_doubt'' \<noteq> None" "text_value effect_statuses ''landed'' \<noteq> None"
      by (simp_all add: text_value_def effect_statuses_def)
    then show ?thesis using assms that by (cases "cq_status cq") auto
  qed
  ultimately have "text_value effect_statuses (close_status m d ob cq) \<noteq> None" for m d ob by blast
  then show "text_value effect_statuses (cg_status (settle h oe cq)) \<noteq> None" by (simp add: settle_def Let_def split: prod.split)
  have "text_value comp_states (compensation_for t m tr mi) \<noteq> None" for t m tr mi
    by (simp add: compensation_for_def text_value_def comp_states_def)
  then show "text_value comp_states (cg_state (settle h oe cq)) \<noteq> None" by (simp add: settle_def Let_def split: prod.split)
qed

lemma receipt_part_action:
  assumes "receipt_part e = receipt_part e'"
  shows "ef_action_kind e = ef_action_kind e'" "ef_action_name e = ef_action_name e'" "ef_action_target e = ef_action_target e'"
    "ef_locality e = ef_locality e'" "ef_args_observed e = ef_args_observed e'"
  using arg_cong [OF assms, of ef_action_kind] arg_cong [OF assms, of ef_action_name] arg_cong [OF assms, of ef_action_target]
    arg_cong [OF assms, of ef_locality] arg_cong [OF assms, of ef_args_observed]
  by (simp_all add: receipt_part_def)

lemma closed_row_reads:
  assumes part: "receipt_part e' = receipt_part e" and opened: "opened_row_of oe e"
    and texts: "text_value effect_statuses (cg_status cg) \<noteq> None" "text_value comp_states (cg_state cg) \<noteq> None"
  shows "\<exists>rc. projection_to_receipt (row_closed oe cg se e') = Some rc \<and> rc_effect_id rc = oe_effect_id oe \<and> rc_saga_id rc = oe_saga_id oe
    \<and> rc_seq rc = oe_seq oe \<and> rc_action rc = (oe_action oe)\<lparr>ac_version := None\<rparr> \<and> rc_tier rc = cl_tier (cg_classification cg)
    \<and> rc_args rc = oe_observed oe \<and> rc_result rc = Some (ob_raw (cg_observed cg)) \<and> rc_bindings rc = cg_bindings cg
    \<and> rc_resource_keys rc = cg_keys cg \<and> text_value effect_statuses (cg_status cg) = Some (rc_status rc)
    \<and> text_value comp_states (cg_state cg) = Some (rc_comp_state rc)"
proof -
  obtain st cs lk rk where v: "text_value effect_statuses (cg_status cg) = Some st" "text_value comp_states (cg_state cg) = Some cs"
    "text_value leaks (close_leak cg) = Some lk" "text_value risks (close_risk cg) = Some rk"
    using texts opened_texts(4,5) by (meson not_None_eq)
  have items: "string_items (strings xs) = xs" for xs
    by (induction xs) (simp_all add: string_items_def strings_def)
  show ?thesis
    using opened v by (simp add: projection_to_receipt_def row_closed_def row_classified_def opened_row_of_def receipt_part_action [OF part]
        receipt_part_sel [OF part] as_record_def items)
qed

text \<open>
  C7: what capturing an effect stores is well typed.  If an opened effect is closed after its action ran, with a status
  of the type or none, and nothing but its state was changed meanwhile, then its row is sealed and every text of it is
  one of its union, so that it reads back as the receipt of the effect: its identity, its action (but for the version,
  which is not stored), the tier, bindings, keys, status and state of the close, and the redacted arguments.
\<close>

theorem captured_row_typed:
  assumes started: "open_effect h sid sp s = (s1, Inr oe)" and rec: "oe_recorded oe"
    and meanwhile: "rel_option (\<lambda>e e'. receipt_part e' = receipt_part e) (row_of s1 (oe_effect_id oe)) (row_of s2 (oe_effect_id oe))"
    and ended: "close_opened_effect h oe cq s2 = (s3, Inr z)" and ok: "\<not> cz_degraded z"
    and status: "cq_status cq = None \<or> text_value effect_statuses (the (cq_status cq)) \<noteq> None"
  shows "\<exists>e rc. row_of s3 (oe_effect_id oe) = Some e \<and> ef_sealed e = 1 \<and> projection_to_receipt e = Some rc
    \<and> rc_effect_id rc = oe_effect_id oe \<and> rc_saga_id rc = sid \<and> rc_seq rc = oe_seq oe \<and> rc_action rc = (sp_action sp)\<lparr>ac_version := None\<rparr>
    \<and> rc_tier rc = cl_tier (cg_classification (settle h oe cq)) \<and> rc_args rc = oe_observed oe
    \<and> rc_result rc = Some (ob_raw (cg_observed (settle h oe cq))) \<and> rc_bindings rc = cg_bindings (settle h oe cq)
    \<and> rc_resource_keys rc = cg_keys (settle h oe cq) \<and> text_value effect_statuses (cg_status (settle h oe cq)) = Some (rc_status rc)
    \<and> text_value comp_states (cg_state (settle h oe cq)) = Some (rc_comp_state rc)"
proof -
  from open_effect_recorded [OF started rec] obtain oe0 s0 where o: "open_new h sp oe0 s0 = (s1, Inr oe)" "oe_effect_id oe0 \<noteq> []"
    "oe_saga_id oe0 = sid" "oe_action oe0 = sp_action sp" by blast
  from open_new_writes [OF o(1,2)] have w: "written_ahead h sp oe s1" and oe: "oe_effect_id oe \<noteq> []" "oe_saga_id oe = sid" "oe_action oe = sp_action sp"
    using o by auto
  from w obtain e1 where e1: "row_of s1 (oe_effect_id oe) = Some e1" "opened_row_of oe e1" unfolding written_ahead_def by blast
  with meanwhile obtain e2 where e: "opened_row_of oe e1" "row_of s2 (oe_effect_id oe) = Some e2" "receipt_part e2 = receipt_part e1"
    by (auto simp: option_rel_Some1)
  have id: "ef_effect_id e2 = oe_effect_id oe" using receipt_part_sel(1) [OF e(3)] e(1) by (simp add: opened_row_of_def)
  from close_returned [OF ended ok rec] obtain rh se where c: "ch_has_ledger h"
    "hash_jcs (ch_pf h) (ob_raw (cg_observed (settle h oe cq))) = Some rh" "seal_receipt h oe (settle h oe cq) rh (close_time h s2) = Inr se" by blast
  have run: "close_recorded h oe (settle h oe cq) (out_of_flight oe s2) = (s3, Inr z)"
    using ended by (simp add: close_opened_run [OF rec c(1)])
  have seal: "seal_receipt h oe (settle h oe cq) rh (close_time h (out_of_flight oe s2)) = Inr se" using c(3) by simp
  have open_led: "\<not> ml_closed (led (out_of_flight oe s2))"
    using close_recorded_closed [OF c(2) seal] run ok by auto
  from close_recorded_open [OF c(2) seal open_led oe(1)] run e(2) id obtain e3 where
    e3: "receipt_part e3 = receipt_part e2" "row_of s3 (oe_effect_id oe) = Some (row_closed oe (settle h oe cq) se e3)" by auto
  have "ef_sealed (row_closed oe (settle h oe cq) se e3) = 1" by (simp add: row_closed_def row_classified_def)
  moreover have "receipt_part e3 = receipt_part e1" using e3(1) e(3) by simp
  ultimately show ?thesis using closed_row_reads [OF _ e(1) settled_texts [OF status, of h oe], of e3 se] e3(2) oe(2,3) by fastforce
qed

section \<open>Effects that were never closed\<close>

definition keyed :: "'w capture \<Rightarrow> bool" where
  "keyed s \<longleftrightarrow> (\<forall>k e. row_of s k = Some e \<longrightarrow> ef_effect_id e = k)"

definition settled :: "effect \<Rightarrow> bool" where
  "settled e \<longleftrightarrow> \<not> (ef_status e = ''opened'' \<and> ef_sealed e = 0)"

definition moved :: "effect option \<Rightarrow> effect option \<Rightarrow> bool" where
  "moved x y \<longleftrightarrow> rel_option (\<lambda>e e'. ef_saga_id e' = ef_saga_id e \<and> settled e') x y"

lemma moved_trans: "moved x y \<Longrightarrow> moved y z \<Longrightarrow> moved x z"
  by (cases x; cases y; cases z) (simp_all add: moved_def)

text \<open>Only the rows of \<open>ks\<close> change, and these are settled and stay in their sagas.\<close>

definition settles :: "string list \<Rightarrow> 'w capture \<Rightarrow> 'w capture \<Rightarrow> bool" where
  "settles ks s s' \<longleftrightarrow> keyed s' \<and> (\<forall>j. j \<notin> set ks \<longrightarrow> row_of s' j = row_of s j) \<and> (\<forall>k \<in> set ks. moved (row_of s k) (row_of s' k))"

lemma settles_Cons:
  assumes st: "settles [k] s t" and tu: "settles ks t u"
  shows "settles (k # ks) s u"
proof -
  have "moved (row_of s j) (row_of u j)" if "j \<in> set (k # ks)" for j
  proof (cases "j \<in> set ks"; cases "j = k")
    assume "j \<in> set ks" "j = k"
    then show ?thesis using st tu moved_trans by (simp add: settles_def) blast
  next
    assume j: "j \<in> set ks" "j \<noteq> k"
    then have "row_of t j = row_of s j" "moved (row_of t j) (row_of u j)" using st tu unfolding settles_def by auto
    then show ?thesis by simp
  next
    assume "j \<notin> set ks" "j = k"
    then show ?thesis using st tu by (simp add: settles_def)
  qed (use that in simp)
  then show ?thesis using st tu by (simp add: settles_def)
qed

lemma settles_one:
  assumes "keyed s" "\<And>j. j \<noteq> k \<Longrightarrow> row_of t j = row_of s j" "row_of s k = Some e" "row_of t k = Some e'"
    and "ef_effect_id e' = ef_effect_id e" "ef_saga_id e' = ef_saga_id e" "settled e'"
  shows "settles [k] s t"
proof -
  have "ef_effect_id x = j" if "row_of t j = Some x" for j x
    using that assms(1,3,4,5) assms(2) [of j] by (cases "j = k") (auto simp: keyed_def)
  then have "keyed t" by (simp add: keyed_def)
  with assms show ?thesis by (simp add: settles_def moved_def)
qed

lemma in_doubt_change: "ev_type ev = ''effect_in_doubt'' \<Longrightarrow> effect_change ev p e = e\<lparr>ef_status := ''in_doubt''\<rparr>"
  by (simp add: effect_change_def Let_def)

lemma reconcile_one_settles:
  assumes key: "keyed s" and k: "k \<noteq> []"
  shows "\<exists>s'. reconcile_one h sid k s = (s', Inr ()) \<and> settles [k] s s'"
proof (cases "\<exists>e. row_of s k = Some e \<and> \<not> settled e")
  case False
  then have "reconcile_one h sid k s = (s, Inr ())"
    by (auto simp: reconcile_one_def bind_def core_calls give_def settled_def split: option.split)
  moreover have "settles [k] s s" using key False by (cases "row_of s k") (auto simp: settles_def moved_def)
  ultimately show ?thesis by blast
next
  case True
  then obtain e where e: "row_of s k = Some e" "ef_status e = ''opened''" "ef_sealed e = 0" by (auto simp: settled_def)
  let ?fin = "\<lambda>t. if ef_intent_key e \<noteq> [] then end_inflight (ef_intent_key e) t else t"
  have fin: "cp_engine (?fin t) = cp_engine t" for t by (simp add: end_inflight_def)
  obtain s1 r where run: "chained h sid ''effect_in_doubt'' (in_doubt_payload ''opened_never_closed'') (Some k) s = (s1, r)" by (metis surj_pair)
  let ?put = "s1\<lparr>cp_engine := (cp_engine s1)\<lparr>en_ledger := mem_upsert_effect ((orelse (row_of s1 k) e)\<lparr>ef_status := ''in_doubt''\<rparr>) (led s1)\<rparr>\<rparr>"
  let ?s2 = "case r of Inr _ \<Rightarrow> s1 | Inl _ \<Rightarrow> ?put"
  have "reconcile_one h sid k s = (?fin ?s2, Inr ())"
    using e run by (cases r) (simp_all add: reconcile_one_def bind_def catching_def core_calls give_def only_if_def modifies_def)
  moreover have "settles [k] s ?s2"
    using run
  proof (cases rule: chained_cases)
    case (wrote ev)
    have t: "touched ev = Some k" using is_event_touched [OF wrote(2) k] by (simp add: effect_events_def)
    have ty: "ev_type ev = ''effect_in_doubt''" using wrote(2) by (simp add: is_event_def)
    have at: "row_of s1 k = Some (e\<lparr>ef_status := ''in_doubt''\<rparr>)"
      using wrote_row [OF wrote(3), of k] rows_after_changed [OF _ t, of "effect_rows (led s)"] ty e(1)
      by (simp add: mem_get_effect_def in_doubt_change)
    have "row_of s1 j = row_of s j" if "j \<noteq> k" for j
      using wrote_row [OF wrote(3), of j] rows_after_other [of ev j "effect_rows (led s)"] t that by (simp add: mem_get_effect_def)
    from settles_one [OF key this e(1) at] have "settles [k] s s1" by (simp add: settled_def)
    then show ?thesis using wrote(1) by simp
  next
    case (threw x)
    have id: "ef_effect_id e = k" using key e(1) by (simp add: keyed_def)
    from threw e(1) id have at: "row_of ?s2 k = Some (e\<lparr>ef_status := ''in_doubt''\<rparr>)" by simp
    from threw e(1) id have "row_of ?s2 j = row_of s j" if "j \<noteq> k" for j using that by simp
    from settles_one [OF key this e(1) at] show ?thesis by (simp add: settled_def)
  qed
  moreover from this have "settles [k] s (?fin ?s2)" unfolding settles_def keyed_def fin .
  ultimately show ?thesis by blast
qed

lemma reconcile_each:
  "keyed s \<Longrightarrow> [] \<notin> set ks \<Longrightarrow> \<exists>s'. each (reconcile_one h sid) ks s = (s', Inr ()) \<and> settles ks s s'"
proof (induction ks arbitrary: s)
  case Nil
  then show ?case by (simp add: give_def settles_def)
next
  case (Cons k ks)
  then obtain t where t: "reconcile_one h sid k s = (t, Inr ())" "settles [k] s t"
    using reconcile_one_settles [of s k h sid] by auto
  then have "keyed t" by (simp add: settles_def)
  with Cons.IH [of t] Cons.prems(2) obtain u where "each (reconcile_one h sid) ks t = (u, Inr ())" "settles ks t u" by auto
  with t show ?case by (auto simp: bind_def intro: settles_Cons)
qed

text \<open>
  Reconciling a saga always returns, on an open or a closed ledger, and leaves no effect of the saga opened and
  unsealed: what was never closed is in doubt.  The rows of other sagas are not touched.
\<close>

lemma reconcile_settles:
  assumes led: "ch_has_ledger h" and key: "well_keyed (effect_rows (led s))" "row_of s [] = None"
  shows "\<exists>s'. reconcile_opened h sid s = (s', Inr ())
    \<and> (\<forall>k e. row_of s' k = Some e \<and> ef_saga_id e = sid \<longrightarrow> \<not> (ef_status e = ''opened'' \<and> ef_sealed e = 0))
    \<and> (\<forall>k e. row_of s k = Some e \<and> ef_saga_id e \<noteq> sid \<longrightarrow> row_of s' k = Some e)"
proof -
  let ?ks = "map ef_effect_id (mem_list_effects (led s) sid)"
  have id: "ef_effect_id e = k" if "row_of s k = Some e" for k e
    using key(1) map_of_SomeD [of "effect_rows (led s)" k e] that by (auto simp: mem_get_effect_def well_keyed_def)
  then have keyed: "keyed s" by (simp add: keyed_def)
  have listed: "k \<in> set ?ks \<longleftrightarrow> (\<exists>e. row_of s k = Some e \<and> ef_saga_id e = sid)" for k
  proof -
    have "(k', e) \<in> set (effect_rows (led s)) \<longleftrightarrow> row_of s k' = Some e \<and> ef_effect_id e = k'" for k' e
      using well_keyed_map_of [OF key(1), of k' e] map_of_SomeD [of "effect_rows (led s)" k' e] by (auto simp: mem_get_effect_def)
    then have "(\<exists>k' e. (k', e) \<in> set (effect_rows (led s)) \<and> ef_saga_id e = sid \<and> ef_effect_id e = k) \<longleftrightarrow> (\<exists>e. row_of s k = Some e \<and> ef_saga_id e = sid)"
      by (auto simp: id) (metis id)
    moreover have "k \<in> set ?ks \<longleftrightarrow> (\<exists>k' e. (k', e) \<in> set (effect_rows (led s)) \<and> ef_saga_id e = sid \<and> ef_effect_id e = k)"
      by (force simp: mem_list_effects_def)
    ultimately show ?thesis by simp
  qed
  have "[] \<notin> set ?ks" using listed [of "[]"] key(2) by simp
  with keyed obtain s' where run: "each (reconcile_one h sid) ?ks s = (s', Inr ())" and st: "settles ?ks s s'"
    using reconcile_each by blast
  have "reconcile_opened h sid s = (s', Inr ())"
    using led run by (simp add: reconcile_opened_def bind_def core_calls)
  moreover have "settled e" if "row_of s' k = Some e" "ef_saga_id e = sid" for k e
  proof (cases "k \<in> set ?ks")
    case True
    then have "moved (row_of s k) (row_of s' k)" using st unfolding settles_def by blast
    then show ?thesis using that(1) by (auto simp: moved_def option_rel_Some2)
  next
    case False
    then show ?thesis using st that listed [of k] unfolding settles_def by metis
  qed
  moreover have "row_of s' k = Some e" if "row_of s k = Some e" "ef_saga_id e \<noteq> sid" for k e
    using st that listed [of k] unfolding settles_def by (metis option.inject)
  ultimately show ?thesis unfolding settled_def by blast
qed

section \<open>What the capture leaves behind\<close>

text \<open>
  An action the policy blocks has been announced already and never runs; its row stays open, so that the next pass
  takes it for an effect in doubt.
\<close>

lemma blocked_stays_open:
  assumes "policy_stage h sp oe ids row None s = (s', Inl x)" "row_of s (oe_effect_id oe) = Some e" "opened_row_of oe e"
  shows "\<exists>e'. row_of s' (oe_effect_id oe) = Some e' \<and> opened_row_of oe e'"
  using assms
  by (auto simp: policy_stage_def Let_def only_if_def in_core_run on_ledger_def modifies_def bind_def give_def throw_def share_reason_def
      mem_get_effect_def on_effect_map_of split: if_splits option.splits prod.splits)

text \<open>A reason that is pushed on a classification changes the payload of an event whose hash stays what it was.\<close>

lemma shared_reason_unhashed:
  "ev_id ev = i \<Longrightarrow> ev_payload ev = JObj [(''reasons'', JArr rs)] \<Longrightarrow>
     ev_payload (push_reason_event i j r ev) \<noteq> ev_payload ev \<and> ev_hash (push_reason_event i j r ev) = ev_hash ev"
  by (simp add: push_reason_event_def push_reason_def)

text \<open>The close classifies by the manifest of the call as it is, also where the opening refused its signature.\<close>

lemma close_takes_unverified:
  "ch_hosted h \<Longrightarrow> sg_source m \<noteq> Builtin \<Longrightarrow> sg_id m \<noteq> [] \<Longrightarrow> sg_signature m = None \<Longrightarrow> oe_signature oe = Some m \<Longrightarrow>
     s1_manifest h (Some m) = None \<and> close_signature h oe ob = Some m"
  by (simp add: s1_manifest_def signature_verified_for_s1_def verify_manifest_signature_def nonempty_def close_signature_def with_id_def)

section \<open>Values that can be sealed\<close>

lemma emits_opt_member [simp]: "list_all (\<lambda>(k, v). emits v) (opt_member k x)"
  by (cases x) (simp_all add: opt_member_def)

lemma emits_strings [simp]: "emits (strings xs)"
  by (simp add: strings_def list_all_iff)

lemma emits_action [simp]: "emits (action_json a)"
  by (simp add: action_json_def)

lemma emits_classification [simp]: "emits (classification_json cl)"
  by (simp add: classification_json_def classification_members_def list.pred_map o_def list.pred_True)

lemma opened_payload_emits:
  "oe_preimage oe = None \<Longrightarrow> emits (oe_observed oe) \<Longrightarrow> emits (JObj (oe_commitments oe)) \<Longrightarrow> emits (opened_payload oe)"
  by (simp add: opened_payload_def opt_json_def)

text \<open>The receipt of an effect without preimage and manifest is sealed when what was observed of it can be.\<close>

lemma receipt_seals:
  assumes "oe_preimage oe = None" "cg_signature cg = None" "emits (oe_observed oe)" "emits (JObj (oe_commitments oe))"
    and "emits (ob_raw (cg_observed cg))" "emits (JObj (cg_bindings cg))" "emits (JObj (cg_paths cg))"
    and "pf_date_parse (ch_pf h) (oe_opened_at oe) = Some a" "pf_date_parse (ch_pf h) at = Some b"
  shows "\<exists>se. seal_receipt h oe cg rh at = Inr se"
proof -
  have "emits (receipt_json oe cg rh None at (close_duration (ch_pf h) (oe_opened_at oe) at))"
    using assms by (simp add: receipt_json_def close_duration_def opt_json_def with_id_def)
  then show ?thesis
    using assms(2) by (auto simp: seal_receipt_def close_until_def Let_def seal_hash_def hash_jcs_def canonicalize_def emits_def)
qed

section \<open>Instances\<close>

text \<open>An opening returns when the ledger is open, the values have a canonical text and no policy is set.\<close>

lemma chained_writes:
  assumes "\<not> ml_closed (led s)" "emits pl"
  shows "\<exists>s' ev. chained h sid ty pl eid s = (s', Inr ev) \<and> is_event sid ty pl eid ev \<and> wrote ev (led s) (led s') \<and> same_rest s s'"
proof -
  obtain s' r where run: "chained h sid ty pl eid s = (s', r)" by (metis surj_pair)
  then show ?thesis by (cases rule: chained_cases) (use assms run in auto)
qed

lemma open_new_runs:
  assumes open_led: "\<not> ml_closed (led s)" and id: "oe_effect_id oe0 \<noteq> []" and policy: "\<not> ch_block_t4 h" "\<not> lexshield_configured (ch_shield_env h)"
    and oe: "oe = oe0\<lparr>oe_sibling := find_restore_sibling (led s) (oe_saga_id oe0) (oe_intent_key oe0), oe_opened_at := close_time h s\<rparr>"
    and pl: "emits (opened_payload oe)"
  shows "\<exists>s'. open_new h sp oe0 s = (s', Inr oe) \<and> \<not> ml_closed (led s')"
proof -
  let ?s = "s\<lparr>cp_engine := (cp_engine s)\<lparr>en_draws := Suc (en_draws (cp_engine s))\<rparr>\<rparr>" and ?k = "oe_effect_id oe"
  have k: "?k \<noteq> []" using id oe by simp
  obtain s1 e1 where 1: "chained h (oe_saga_id oe) ''reversibility_classified'' (classified_payload (oe_action oe) (oe_classification oe)) None ?s = (s1, Inr e1)"
    "\<not> ml_closed (led s1)"
    using chained_writes [of ?s "classified_payload (oe_action oe) (oe_classification oe)"] open_led
    by (fastforce simp: classified_payload_def classification_members_def action_json_def opt_member_def strings_def list_all_iff wrote_def split: option.split)
  obtain s2 e2 where 2: "chained h (oe_saga_id oe) ''effect_opened'' (opened_payload oe) (Some ?k) s1 = (s2, Inr e2)"
    and e2: "is_event (oe_saga_id oe) ''effect_opened'' (opened_payload oe) (Some ?k) e2" "wrote e2 (led s1) (led s2)"
    using chained_writes [OF 1(2) pl] by fastforce
  have wal: "write_ahead h oe ?s = (s2, Inr (ev_id e1, ev_id e2))"
    using 1 2 by (simp add: write_ahead_def bind_def catching_def give_def)
  have row: "row_of s2 ?k = Some (opened_effect e2 (payload_of e2))"
    using opened_row [OF e2(1) k] wrote_row [OF e2(2)] rows_after_opened [of e2 ?k] e2(1) by (simp add: is_event_def)
  let ?e = "row_opened oe (opened_effect e2 (payload_of e2))"
  let ?s3 = "s2\<lparr>cp_engine := (cp_engine s2)\<lparr>en_ledger := mem_upsert_effect ?e (led s2)\<rparr>\<rparr>"
  have fill: "fill_row oe s2 = (?s3, Inr (Some ?e))"
    using row by (simp add: fill_row_def bind_def core_calls give_def)
  have stage: "model_stage h sp ?s3 = (?s3, Inr None)" "policy_stage h sp oe (ev_id e1, ev_id e2) (Some ?e) None ?s3 = (?s3, Inr (oe_classification oe))"
    using policy by (simp_all add: model_stage_def policy_stage_def preflight_policy_def Let_def only_if_def give_def bind_def)
  have same: "oe\<lparr>oe_classification := oe_classification oe\<rparr> = oe" by simp
  have "open_new h sp oe0 s = (begin_inflight \<lparr>if_effect_id = ?k, if_fidelity = oe_fidelity oe, if_intent_key = oe_intent_key oe\<rparr> ?s3, Inr oe)"
    unfolding open_new_def bind_def core_calls prod.case sum.case close_time_def [symmetric] oe [symmetric] Let_def wal fill stage
    by (simp add: modifies_def give_def same)
  moreover have "\<not> ml_closed (led ?s3)" using e2(2) by (simp add: wrote_def)
  ultimately show ?thesis by (auto simp: begin_inflight_def)
qed

definition sample_capture_host :: "sample_world capture_host" where
  "sample_capture_host = \<lparr>ch_engine = sample_host\<lparr>eh_clock := (\<lambda>_. 0)\<rparr>, ch_has_ledger = True, ch_context = None, ch_redact = sample_redact, ch_roots = None,
     ch_internal_hosts = [], ch_max_bytes = None, ch_max_rows = None, ch_record_t1 = True, ch_block_t4 = False,
     ch_shield = sample_shield Allow, ch_shield_env = \<lparr>se_url = None, se_token = None, se_pack = None, se_cli = False\<rparr>,
     ch_classifier = None, ch_hosted = False, ch_key = None, ch_ed = (\<lambda>_ _ _. False), ch_match = None\<rparr>"

definition sample_capture :: "sample_world capture" where
  "sample_capture = \<lparr>cp_engine = sample_engine, cp_inflight = [], cp_failures = 0, cp_models = []\<rparr>"

definition sample_spec :: "sample_world effect_spec" where
  "sample_spec = \<lparr>sp_action = sample_sdk_action, sp_args = login ''one'', sp_signature = None, sp_capture = None, sp_fidelity = None, sp_interceptor = None\<rparr>"

text \<open>The effect the sample opens.\<close>

definition sample_oe :: opened where
  "sample_oe =
     (let red = the (redact_args sample_platform sample_redact (login ''one'')); key = the (intent_of sample_capture_host sample_spec);
          seq = (case mem_get_saga (en_ledger sample_engine) ''s'' of Some g \<Rightarrow> sa_next_seq g | None \<Rightarrow> 1)
      in (with_hashes red key (unrecorded sample_spec ''s'' (classify_spec sample_capture_host sample_spec None None) ''0'' []))
         \<lparr>oe_effect_id := derive_effect_id sample_platform ''s'' seq ''sdk.m.f'' (rd_args_hash red), oe_seq := seq,
          oe_commitments := rd_commitments red, oe_recorded := True\<rparr>)"

lemma sample_redacted:
  "emits (rd_observed (the (redact_args sample_platform sample_redact (login ''one''))))"
  "emits (JObj (rd_commitments (the (redact_args sample_platform sample_redact (login ''one'')))))"
  unfolding emits_def by code_simp+

lemma sample_oe_fields:
  "oe_recorded sample_oe" "oe_effect_id sample_oe \<noteq> []" "ch_has_ledger sample_capture_host" "oe_preimage sample_oe = None"
  "emits (oe_observed sample_oe)" "emits (JObj (oe_commitments sample_oe))" "oe_signature sample_oe = None" "oe_opened_at sample_oe = ''0''"
  "oe_args sample_oe = login ''one''" "oe_sibling sample_oe = None" "oe_saga_id sample_oe = ''s''"
  using sample_redacted
  by (simp_all add: sample_oe_def Let_def sample_capture_host_def with_hashes_def unrecorded_def sample_spec_def del: emits_simps)

lemma sample_time: "close_time sample_capture_host s = ''0''"
proof -
  have "show_int 0 = ''0''" by code_simp
  then show ?thesis by (simp add: close_time_def sample_capture_host_def ch_pf_def sample_host_def sample_platform_def)
qed

lemma sample_opens: "\<exists>s'. open_effect sample_capture_host ''s'' sample_spec sample_capture = (s', Inr sample_oe) \<and> \<not> ml_closed (led s')"
proof -
  let ?h = "sample_capture_host" and ?s = "sample_capture" and ?sp = "sample_spec"
  have red: "redact_args (ch_pf ?h) (ch_redact ?h) (sp_args ?sp) \<noteq> None" "intent_of ?h ?sp \<noteq> None" by code_simp+
  then obtain red key where rk: "redact_args (ch_pf ?h) (ch_redact ?h) (sp_args ?sp) = Some red" "intent_of ?h ?sp = Some key" by auto
  have "emits (opened_payload sample_oe)" using sample_oe_fields by (intro opened_payload_emits) simp_all
  moreover have "last_boundary (mem_read_saga (led ?s) ''s'') < 0" by code_simp
  then have "find_restore_sibling (led ?s) (oe_saga_id sample_oe) (oe_intent_key sample_oe) = None"
    by (simp add: find_restore_sibling_def Let_def sample_oe_fields(11))
  moreover have "close_time ?h ?s = ''0''" by (rule sample_time)
  moreover note sample_oe_fields(2,8,10)
  moreover have "\<not> ml_closed (led ?s)" "\<not> ch_block_t4 ?h" "\<not> lexshield_configured (ch_shield_env ?h)" by code_simp+
  ultimately have "\<exists>s'. open_new ?h ?sp (sample_oe\<lparr>oe_opened_at := []\<rparr>) ?s = (s', Inr sample_oe) \<and> \<not> ml_closed (led s')"
    by (intro open_new_runs) (simp_all add: close_time_def)
  moreover have "open_effect ?h ''s'' ?sp ?s = open_new ?h ?sp (sample_oe\<lparr>oe_opened_at := []\<rparr>) ?s"
  proof -
    have t: "capture_preimage ?h ?sp t = give (None, [])" for t by (simp add: capture_preimage_def sample_spec_def)
    have f: "find_inflight key ?s = None" by (simp add: find_inflight_def sample_capture_def)
    have h: "ch_has_ledger ?h" "ch_context ?h = None" "ch_record_t1 ?h" by (simp_all add: sample_capture_host_def)
    have oe: "sample_oe\<lparr>oe_opened_at := []\<rparr> = (with_hashes red key (unrecorded ?sp ''s'' (classify_spec ?h ?sp None None) [] []))
        \<lparr>oe_effect_id := derive_effect_id (ch_pf ?h) ''s'' (case mem_get_saga (led ?s) ''s'' of Some g \<Rightarrow> sa_next_seq g | None \<Rightarrow> 1)
           (ac_name (sp_action ?sp)) (rd_args_hash red), oe_seq := (case mem_get_saga (led ?s) ''s'' of Some g \<Rightarrow> sa_next_seq g | None \<Rightarrow> 1),
         oe_preimage := None, oe_commitments := rd_commitments red, oe_recorded := True\<rparr>"
      using rk by (simp add: sample_oe_def Let_def with_hashes_def unrecorded_def sample_capture_def ch_pf_def sample_capture_host_def
          sample_host_def sample_spec_def sample_sdk_action_def)
    show ?thesis
      unfolding open_effect_def rk option.case Let_def t oe
      using h rk f by (simp add: open_recorded_def core_calls bind_def [of "in_core _"] Let_def)
  qed
  ultimately show ?thesis by simp
qed


definition sample_answer :: close_opts where
  "sample_answer = \<lparr>cq_result = Some (JObj [(''status'', JInt 200), (''id'', JStr ''x1'')]), cq_value = None, cq_error = None, cq_status = None\<rparr>"

lemma sample_settles:
  "cg_observed (settle sample_capture_host sample_oe sample_answer) = observe_result (cq_result sample_answer) None"
  "cg_signature (settle sample_capture_host sample_oe sample_answer) = None"
  "cg_bindings (settle sample_capture_host sample_oe sample_answer) = fst (default_bindings (observe_result (cq_result sample_answer) None))"
  "cg_paths (settle sample_capture_host sample_oe sample_answer) = snd (default_bindings (observe_result (cq_result sample_answer) None))"
proof -
  let ?ob = "observe_result (cq_result sample_answer) None" and ?h = sample_capture_host
  have url: "arg_text sample_oe ''url'' = None" by (simp add: arg_text_def sample_oe_fields login_def as_record_def str_of_def)
  have sg: "close_signature ?h sample_oe ob = None" for ob
    by (simp add: close_signature_def with_id_def sample_oe_fields sample_capture_host_def)
  have answer: "(if nullish (cq_result sample_answer) then cq_value sample_answer else cq_result sample_answer) = cq_result sample_answer"
    "cq_error sample_answer = None"
    by (simp_all add: sample_answer_def nullish_def)
  have "map_of (fst (default_bindings ?ob)) ''resource_url'' = None" by code_simp
  then have b: "close_bindings ?h sample_oe ?ob None = (default_bindings ?ob, False)"
    by (simp add: close_bindings_def url resource_url_binding_def str_of_def nonempty_def)
  show "cg_observed (settle ?h sample_oe sample_answer) = ?ob" "cg_signature (settle ?h sample_oe sample_answer) = None"
    "cg_bindings (settle ?h sample_oe sample_answer) = fst (default_bindings ?ob)"
    "cg_paths (settle ?h sample_oe sample_answer) = snd (default_bindings ?ob)"
    unfolding settle_def Let_def answer sg b split by (simp_all add: nullish_def)
qed

lemma sample_seals:
  "\<exists>rh se. hash_jcs (ch_pf sample_capture_host) (ob_raw (cg_observed (settle sample_capture_host sample_oe sample_answer))) = Some rh
     \<and> seal_receipt sample_capture_host sample_oe (settle sample_capture_host sample_oe sample_answer) rh ''0'' = Inr se"
proof -
  have pf: "ch_pf sample_capture_host = sample_platform" by (simp add: ch_pf_def sample_capture_host_def sample_host_def)
  have obs: "emits (ob_raw (observe_result (cq_result sample_answer) None))"
    "emits (JObj (fst (default_bindings (observe_result (cq_result sample_answer) None))))"
    "emits (JObj (snd (default_bindings (observe_result (cq_result sample_answer) None))))"
    unfolding emits_def by code_simp+
  have "pf_date_parse (ch_pf sample_capture_host) ''0'' = Some 0" unfolding pf by code_simp
  then have "\<exists>se. seal_receipt sample_capture_host sample_oe (settle sample_capture_host sample_oe sample_answer) rh ''0'' = Inr se" for rh
    using obs by (intro receipt_seals) (simp_all only: sample_settles sample_oe_fields)
  moreover have "hash_jcs (ch_pf sample_capture_host) (ob_raw (observe_result (cq_result sample_answer) None)) \<noteq> None"
    using obs(1) by (simp add: hash_jcs_def canonicalize_def emits_def)
  ultimately show ?thesis unfolding sample_settles by blast
qed


theorem captured_row_typed_witness:
  "\<exists>e rc. projection_to_receipt e = Some rc \<and> ef_sealed e = 1 \<and> rc_saga_id rc = ''s'' \<and> rc_action rc = sample_sdk_action"
proof -
  obtain s1 where opens: "open_effect sample_capture_host ''s'' sample_spec sample_capture = (s1, Inr sample_oe)" and open_led: "\<not> ml_closed (led s1)"
    using sample_opens by blast
  from sample_seals obtain rh se where
    "hash_jcs (ch_pf sample_capture_host) (ob_raw (cg_observed (settle sample_capture_host sample_oe sample_answer))) = Some rh"
    "seal_receipt sample_capture_host sample_oe (settle sample_capture_host sample_oe sample_answer) rh
       (close_time sample_capture_host (out_of_flight sample_oe s1)) = Inr se" unfolding sample_time by blast
  from close_recorded_open [OF this] open_led sample_oe_fields obtain s3 z where
    closes: "close_opened_effect sample_capture_host sample_oe sample_answer s1 = (s3, Inr z)" "\<not> cz_degraded z"
    by (fastforce simp: close_opened_run)
  have "rel_option (\<lambda>e e'. receipt_part e' = receipt_part e) (row_of s1 (oe_effect_id sample_oe)) (row_of s1 (oe_effect_id sample_oe))"
    by (rule option.rel_refl) simp
  from captured_row_typed [OF opens sample_oe_fields(1) this closes] show ?thesis
    by (auto simp: sample_answer_def sample_spec_def sample_sdk_action_def)
qed

end
