(* ===== verification/Saga.thy ===== *)
theory Saga
  imports Captured
begin

text \<open>
  Sagas, \<^verbatim>\<open>sdk-ts/src/saga.ts\<close>: a saga is opened or resumed, and each effect of it is opened, run and closed.

  The action of an effect is a function of the whole state, as it may use the library itself; it returns a value or
  throws an error of its own (a value that is not falsy).  What \<^verbatim>\<open>closeEffect\<close> throws is seen by the handler as an error value (\<open>thrown_value\<close>).
\<close>

section \<open>State\<close>

record 'w session =
  sn_capture :: "'w capture"
  sn_current :: "string option"

definition in_capture :: "('w capture, 'a) action \<Rightarrow> ('w session, 'a) action" where
  "in_capture m = zoom sn_capture (\<lambda>t s. s\<lparr>sn_capture := t\<rparr>) m"

section \<open>Running an effect\<close>

datatype saga_error = Thrown call_error | CaptureFailed engine_error

type_synonym ('w, 'e, 'a) run = "'w \<Rightarrow> 'w \<times> ('e + 'a)"

definition thrown_value :: "engine_error \<Rightarrow> call_error" where
  "thrown_value e =
     \<lparr>ce_fields = (case e of VrError c d \<Rightarrow> JObj [(''name'', JStr ''VekRevertError''), (''code'', JStr c)] | HostError m \<Rightarrow> JObj []),
      ce_is_error = True, ce_message = error_message e\<rparr>"

definition ran_with :: "json option \<Rightarrow> close_opts" where
  "ran_with v = \<lparr>cq_result = v, cq_value = v, cq_error = None, cq_status = None\<rparr>"

definition failed_with :: "call_error \<Rightarrow> close_opts" where
  "failed_with e = \<lparr>cq_result = None, cq_value = None, cq_error = Some e, cq_status = None\<rparr>"

text \<open>The handler: the effect is closed as failed, whatever comes of it, and the error goes on.\<close>

definition close_failed :: "'w capture_host \<Rightarrow> opened \<Rightarrow> call_error \<Rightarrow> 'w capture \<Rightarrow> 'w capture" where
  "close_failed h oe err s = (if oe_recorded oe then fst (close_opened_effect h oe (failed_with err) s) else s)"

definition run_opened :: "'w capture_host \<Rightarrow> opened \<Rightarrow> ('w capture, call_error, json option) run \<Rightarrow> ('w capture, saga_error, json option) run" where
  "run_opened h oe run s =
     (case run s of
        (s1, Inl err) \<Rightarrow> (close_failed h oe err s1, Inl (Thrown err))
      | (s1, Inr v) \<Rightarrow>
          (case close_opened_effect h oe (ran_with v) s1 of
             (s2, Inl e) \<Rightarrow> (close_failed h oe (thrown_value e) s2, Inl (CaptureFailed e))
           | (s2, Inr z) \<Rightarrow> (s2, Inr v)))"

definition saga_effect ::
  "'w capture_host \<Rightarrow> string \<Rightarrow> 'w effect_spec \<Rightarrow> ('w capture, call_error, json option) run \<Rightarrow> ('w capture, saga_error, json option) run" where
  "saga_effect h sid sp run s =
     (case open_effect h sid sp s of
        (s1, Inl e) \<Rightarrow> (s1, Inl (CaptureFailed e))
      | (s1, Inr oe) \<Rightarrow> run_opened h oe run s1)"

section \<open>Opening, resuming and closing a saga\<close>

definition saga_opened_payload :: "string option \<Rightarrow> string option \<Rightarrow> json" where
  "saga_opened_payload key agent =
     JObj ((if nonempty key then opt_member ''key'' key else []) @ (if nonempty agent then opt_member ''agent_id'' agent else [])
       @ [(''sdk_version'', JStr ''0.1.0'')])"

definition open_saga :: "'w capture_host \<Rightarrow> string option \<Rightarrow> string option \<Rightarrow> ('w session, string) action" where
  "open_saga h key agent =
     bind (in_capture (in_core (new_id (ch_engine h)))) (\<lambda>sid.
     bind (in_capture (chained h sid ''saga_opened'' (saga_opened_payload key (orelse_opt agent (eh_agent_id (ch_engine h)))) None)) (\<lambda>_.
     bind (modifies (\<lambda>s. s\<lparr>sn_current := Some sid\<rparr>)) (\<lambda>_. give sid)))"

definition restore_boundary :: "'w capture_host \<Rightarrow> string \<Rightarrow> saga \<Rightarrow> ('w capture, unit) action" where
  "restore_boundary h sid g =
     bind (chained h sid ''restore_boundary'' (JObj [(''prior_seq'', JInt (max 0 (sa_next_seq g - 1)))]) None) (\<lambda>_. give ())"

definition resume_saga :: "'w capture_host \<Rightarrow> string \<Rightarrow> bool \<Rightarrow> ('w session, string) action" where
  "resume_saga h sid boundary =
     bind (in_capture (in_core (of_ledger (\<lambda>l. mem_get_saga l sid)))) (\<lambda>saga.
       case saga of
         None \<Rightarrow> throw (HostError (''saga not found: '' @ sid))
       | Some g \<Rightarrow>
           bind (in_capture (only_if boundary (restore_boundary h sid g))) (\<lambda>_.
           bind (in_capture (reconcile_opened h sid)) (\<lambda>_.
           bind (modifies (\<lambda>s. s\<lparr>sn_current := Some sid\<rparr>)) (\<lambda>_. give sid))))"

text \<open>\<^verbatim>\<open>close\<close> of the handle writes the row of the saga and no event; \<open>at\<close> is the system's time.\<close>

definition close_saga :: "'w capture_host \<Rightarrow> string \<Rightarrow> string \<Rightarrow> ('w session, unit) action" where
  "close_saga h at sid =
     (if \<not> ch_has_ledger h then give ()
      else in_capture (in_core (on_ledger (\<lambda>l. case mem_get_saga l sid of
        Some g \<Rightarrow> if sa_status g = ''open'' then mem_upsert_saga (g\<lparr>sa_status := ''closed'', sa_closed_at := Some at\<rparr>) l else l
      | None \<Rightarrow> l))))"

section \<open>What the caller sees\<close>

definition same_outside :: "'w capture \<Rightarrow> 'w capture \<Rightarrow> bool" where
  "same_outside s t \<longleftrightarrow> en_world (cp_engine t) = en_world (cp_engine s)"

interpretation so: preserved same_outside
  by unfold_locales (simp_all add: same_outside_def)

lemma in_core_outside: "keeps world_fixed m \<Longrightarrow> keeps same_outside (in_core m)"
  unfolding in_core_def by (erule zoom_keeps) (simp add: world_fixed_def same_outside_def)

lemma core_calls_outside [intro, simp]:
  "keeps same_outside (chained h sid ty pl eid)" "keeps same_outside (now_iso h)" "keeps same_outside (get_row k)"
  "keeps same_outside (put_row e)" "keeps same_outside count_failure"
  "keeps same_outside (modifies (end_inflight key))"
proof -
  show "keeps same_outside (chained h sid ty pl eid)"
    unfolding chained_def by (intro in_core_outside events_only_world append_chained_events_only)
  show "keeps same_outside (now_iso h)"
    unfolding now_iso_def by (intro so.bind so.give in_core_outside events_only_world ids_events_only)
  show "keeps same_outside (get_row k)"
    unfolding get_row_def by (intro in_core_outside events_only_world of_ledger_events_only)
  show "keeps same_outside (put_row e)"
    unfolding put_row_def by (rule in_core_outside) (simp add: on_ledger_def keeps_def modifies_def world_fixed_def)
qed (auto simp: count_failure_def end_inflight_def same_outside_def intro!: so.modifies)

lemma effect_event_outside [intro, simp]: "keeps same_outside (effect_event h oe ty pl)"
  unfolding effect_event_def by (intro so.bind so.give core_calls_outside)

lemma write_close_outside [intro, simp]: "keeps same_outside (write_close h oe cg se)"
  unfolding write_close_def emit_side_def
  by (auto intro!: so.bind so.only_if split: option.split prod.split)

lemma close_outside: "keeps same_outside (close_opened_effect h oe cq)"
proof -
  have "keeps same_outside (close_degraded h oe se)" for se
    unfolding close_degraded_def ignoring_def by (auto intro!: so.bind so.catching split: option.split)
  moreover have "keeps same_outside (close_written oe cg se)" for cg se
    unfolding close_written_def by (auto intro!: so.bind split: option.split)
  ultimately have "keeps same_outside (close_recorded h oe cg)" for cg
    unfolding close_recorded_def succeeds_def
    by (intro so.case_option_action so.throw so.bind core_calls_outside so.case_sum_action so.catching write_close_outside so.give so.if_action)
  then show ?thesis
    unfolding close_opened_effect_def by (intro so.bind so.only_if core_calls_outside so.if_action so.give)
qed

lemma opened_id:
  assumes "open_effect h sid sp s = (s1, Inr oe)" "oe_recorded oe"
  shows "oe_effect_id oe \<noteq> []" "ch_has_ledger h"
proof -
  from open_effect_recorded [OF assms] obtain oe0 s0 where "ch_has_ledger h" "open_new h sp oe0 s0 = (s1, Inr oe)" "oe_effect_id oe0 \<noteq> []" by blast
  with open_new_writes [OF this(2,3)] show "oe_effect_id oe \<noteq> []" "ch_has_ledger h" by auto
qed

lemma close_returns:
  assumes opened: "open_effect h sid sp s = (s1, Inr oe)"
    and seals: "oe_recorded oe \<longrightarrow> hash_jcs (ch_pf h) (ob_raw (cg_observed (settle h oe cq))) = Some rh
      \<and> seal_receipt h oe (settle h oe cq) rh (close_time h s2) = Inr se"
  obtains s3 z where "close_opened_effect h oe cq s2 = (s3, Inr z)" "en_world (cp_engine s3) = en_world (cp_engine s2)"
proof -
  have "\<exists>s3 z. close_opened_effect h oe cq s2 = (s3, Inr z)"
  proof (cases "oe_recorded oe")
    case False
    then show ?thesis by (simp add: close_opened_effect_def only_if_def modifies_def bind_def give_def)
  next
    case True
    note id = opened_id [OF opened True]
    from True seals have hash: "hash_jcs (ch_pf h) (ob_raw (cg_observed (settle h oe cq))) = Some rh"
      and seal: "seal_receipt h oe (settle h oe cq) rh (close_time h (out_of_flight oe s2)) = Inr se" by simp_all
    show ?thesis
      using close_recorded_closed [OF hash seal] close_recorded_open [OF hash seal _ id(1)]
      by (cases "ml_closed (led s2)") (auto simp: close_opened_run [OF True id(2)])
  qed
  then obtain s3 z where "close_opened_effect h oe cq s2 = (s3, Inr z)" by blast
  moreover from keepsD [OF close_outside this] have "en_world (cp_engine s3) = en_world (cp_engine s2)" by (simp add: same_outside_def)
  ultimately show thesis by (rule that)
qed

text \<open>
  C5: capturing is transparent.  An effect that cannot be written ahead does not run.  The error of an action that
  throws is the one the caller gets, whatever the ledger does; and the value of one that returns is what the caller
  gets when the effect is not recorded, or when its receipt can be sealed.  The world is left as the action left it.
\<close>

theorem saga_effect_transparent:
  "(open_effect h sid sp s = (s1, Inl e) \<longrightarrow> saga_effect h sid sp run s = (s1, Inl (CaptureFailed e)))
   \<and> (open_effect h sid sp s = (s1, Inr oe) \<and> run s1 = (s2, Inl err) \<longrightarrow>
        (\<exists>s3. saga_effect h sid sp run s = (s3, Inl (Thrown err)) \<and> en_world (cp_engine s3) = en_world (cp_engine s2)))
   \<and> (open_effect h sid sp s = (s1, Inr oe) \<and> run s1 = (s2, Inr v) \<and>
        (oe_recorded oe \<longrightarrow> hash_jcs (ch_pf h) (ob_raw (cg_observed (settle h oe (ran_with v)))) = Some rh
           \<and> seal_receipt h oe (settle h oe (ran_with v)) rh (close_time h s2) = Inr se)
      \<longrightarrow> (\<exists>s3. saga_effect h sid sp run s = (s3, Inr v) \<and> en_world (cp_engine s3) = en_world (cp_engine s2)))"
proof (intro conjI impI; (elim conjE)?)
  assume "open_effect h sid sp s = (s1, Inl e)"
  then show "saga_effect h sid sp run s = (s1, Inl (CaptureFailed e))" by (simp add: saga_effect_def)
next
  assume opened: "open_effect h sid sp s = (s1, Inr oe)" and ran: "run s1 = (s2, Inl err)"
  let ?s3 = "close_failed h oe err s2"
  have "en_world (cp_engine ?s3) = en_world (cp_engine s2)"
    using close_outside [of h oe "failed_with err"] by (auto simp: close_failed_def keeps_def same_outside_def)
  with opened ran show "\<exists>s3. saga_effect h sid sp run s = (s3, Inl (Thrown err)) \<and> en_world (cp_engine s3) = en_world (cp_engine s2)"
    by (simp add: saga_effect_def run_opened_def)
next
  assume opened: "open_effect h sid sp s = (s1, Inr oe)" and ran: "run s1 = (s2, Inr v)"
    and seals: "oe_recorded oe \<longrightarrow> hash_jcs (ch_pf h) (ob_raw (cg_observed (settle h oe (ran_with v)))) = Some rh
      \<and> seal_receipt h oe (settle h oe (ran_with v)) rh (close_time h s2) = Inr se"
  from close_returns [OF opened seals] obtain s3 z where "close_opened_effect h oe (ran_with v) s2 = (s3, Inr z)"
    "en_world (cp_engine s3) = en_world (cp_engine s2)" .
  with opened ran show "\<exists>s3. saga_effect h sid sp run s = (s3, Inr v) \<and> en_world (cp_engine s3) = en_world (cp_engine s2)"
    by (simp add: saga_effect_def run_opened_def)
qed

text \<open>An action that returned is reported as failed when its receipt cannot be sealed.\<close>

lemma unsealable_fails:
  assumes "open_effect h sid sp s = (s1, Inr oe)" "oe_recorded oe" "run s1 = (s2, Inr v)"
    and "hash_jcs (ch_pf h) (ob_raw (cg_observed (settle h oe (ran_with v)))) = Some rh"
    and "seal_receipt h oe (settle h oe (ran_with v)) rh (close_time h s2) = Inl e"
  shows "snd (saga_effect h sid sp run s) = Inl (CaptureFailed e)"
proof -
  have "close_recorded h oe (settle h oe (ran_with v)) (out_of_flight oe s2)
      = ((out_of_flight oe s2)\<lparr>cp_engine := (cp_engine s2)\<lparr>en_draws := Suc (en_draws (cp_engine s2))\<rparr>\<rparr>, Inl e)"
    using assms(4,5) by (simp add: close_recorded_def bind_def core_calls close_time_def throw_def)
  then show ?thesis
    using assms(1,3) opened_id [OF assms(1,2)] by (simp add: saga_effect_def run_opened_def close_opened_run [OF assms(2)])
qed

section \<open>Resuming\<close>

text \<open>A saga that has been resumed has no open effect left.\<close>

lemma boundary_rows:
  "restore_boundary h sid g s = (s', r) \<Longrightarrow> effect_rows (led s') = effect_rows (led s)"
proof -
  assume run: "restore_boundary h sid g s = (s', r)"
  obtain s1 r1 where c: "chained h sid ''restore_boundary'' (JObj [(''prior_seq'', JInt (max 0 (sa_next_seq g - 1)))]) None s = (s1, r1)" by (metis surj_pair)
  then have "s' = s1" using run by (cases r1) (simp_all add: restore_boundary_def bind_def give_def)
  moreover from c have "effect_rows (led s1) = effect_rows (led s)"
  proof (cases rule: chained_cases)
    case (wrote ev)
    have "touched ev = None" using is_event_untouched [OF wrote(2)] by (simp add: effect_events_def)
    then show ?thesis using wrote(2,3) by (simp add: wrote_def rows_after_def is_event_def)
  qed simp
  ultimately show ?thesis by simp
qed


text \<open>No event records that a saga was closed, so that a replay of its events finds it open again.\<close>

lemma closing_is_not_replayed: "sa_status (saga_change ev p g) = ''closed'' \<Longrightarrow> sa_status g = ''closed''"
  by (auto simp: saga_change_def Let_def split: if_splits)

section \<open>Instances\<close>

definition sample_run :: "(sample_world capture, call_error, json option) run" where
  "sample_run s = (s, Inr (cq_result sample_answer))"

lemma settle_value:
  "\<not> nullish r \<Longrightarrow> settle h oe \<lparr>cq_result = r, cq_value = v, cq_error = e, cq_status = st\<rparr>
     = settle h oe \<lparr>cq_result = r, cq_value = w, cq_error = e, cq_status = st\<rparr>"
  by (simp add: settle_def close_status_def)

theorem saga_effect_transparent_witness:
  "\<exists>s3. saga_effect sample_capture_host ''s'' sample_spec Saga.sample_run sample_capture = (s3, Inr (cq_result sample_answer))"
proof -
  obtain s1 where opens: "open_effect sample_capture_host ''s'' sample_spec sample_capture = (s1, Inr sample_oe)" using sample_opens by blast
  have same: "settle sample_capture_host sample_oe (ran_with (cq_result sample_answer)) = settle sample_capture_host sample_oe sample_answer"
    unfolding ran_with_def sample_answer_def close_opts.simps by (rule settle_value) (simp add: nullish_def)
  from sample_seals obtain rh se where
    "hash_jcs (ch_pf sample_capture_host) (ob_raw (cg_observed (settle sample_capture_host sample_oe (ran_with (cq_result sample_answer))))) = Some rh"
    "seal_receipt sample_capture_host sample_oe (settle sample_capture_host sample_oe (ran_with (cq_result sample_answer))) rh
       (close_time sample_capture_host s1) = Inr se" unfolding sample_time same by blast
  then show ?thesis
    using saga_effect_transparent [of sample_capture_host "''s''" sample_spec sample_capture s1 _ Saga.sample_run sample_oe s1 _ "cq_result sample_answer" rh se]
      opens by (auto simp: Saga.sample_run_def)
qed


end
