(* ===== verification/Spec2Isabelle.thy ===== *)
theory Spec2Isabelle
  imports Taxonomy SqlLedger Undo Redact Shield Registry Inbox Saga
begin

text \<open>
  VekRevert records what an agent does to the outside world (HTTP calls, SQL statements, file changes, tool calls) as
  effects in a hash-chained ledger, and undoes a saga of such effects by compiling a compensation plan for each of
  them and executing it.  This is a development about its TypeScript code under \<^verbatim>\<open>src/packages\<close> and \<^verbatim>\<open>src/sdk-ts\<close>: a
  translation of the code into functions that can be executed in the logic, with what makes each part correct.  The
  properties C1 to C40 stand in the theories of their parts, each with an instance (\<open>_witness\<close>) where it has hypotheses.
\<close>

section \<open>The parts and how they work together\<close>

text \<open>
  An action is \<^bold>\<open>captured\<close> by \<^verbatim>\<open>openEffect\<close>: its arguments are redacted and hashed, it is classified into a tier T1 to T4,
  its preimage is stored, the event that announces it is written, and only then, if the policy lets it pass, it runs.
  \<^verbatim>\<open>closeEffect\<close> observes the result, binds the values a compensation needs, matches a compensator, seals the receipt
  and writes the closing events.  Every event goes to a \<^bold>\<open>ledger\<close> (in memory, JSONL or SQL), which chains events by
  their hashes and folds them into rows for sagas and effects.  The \<^bold>\<open>undo\<close> of a saga walks over these rows backwards;
  for each it resolves effects in doubt by a probe, compiles the manifest of the matched compensator (or a draft of a
  model) to a closed set of steps over references into the receipt, has drafts verified, and executes the plan under
  leases with fences, one attempt per idempotency key.  What it must not do by itself it hands to a person, by an
  \<^bold>\<open>escalation\<close> that binds the approval to the hash of the plan.

  The theories, in the order of the code:

  \<^item> \<open>Prelude\<close>: the string, number, array and object operations of JavaScript the code uses, and facts about lists and options.
  \<^item> \<open>Json\<close>, \<open>Types\<close>: JSON values, their canonical text (\<^verbatim>\<open>core/jcs.ts\<close>) and the data model (\<^verbatim>\<open>core/types.ts\<close>) as records and datatypes.
    A number is an integer, a finite fraction by its text, or not finite.
  \<^item> \<open>Chain\<close>: digests, Crockford base 32 over 32-bit words, identifiers, chaining, verification and Merkle roots (\<^verbatim>\<open>core/chain.ts\<close>).
  \<^item> \<open>Jsonpath\<close>, \<open>Resource\<close>, \<open>Sqlkind\<close>, \<open>Taxonomy\<close>, \<open>Matching\<close>: paths, resource keys, SQL statements, tiers and the matching of
    compensators (the files of these names in \<^verbatim>\<open>core\<close>).
  \<^item> \<open>Plan\<close>: the plan compiler (\<^verbatim>\<open>core/plan.ts\<close>); \<open>Compensators\<close>: the built-in manifests and their lowering (\<^verbatim>\<open>packages/compensators\<close>).
  \<^item> \<open>Projections\<close>, \<open>Ledger\<close>, \<open>SqlLedger\<close>: the rows as a fold over events, the ledger in memory and the one over SQL tables with
    their constraints and the failures of single statements (\<^verbatim>\<open>ledger/types.ts\<close>).
  \<^item> \<open>Leases\<close>: leases and fences of the two ledgers and of the coordinator with its claims (\<^verbatim>\<open>coordinate/store.ts\<close>), and \<^verbatim>\<open>acquireAll\<close>
    (\<^verbatim>\<open>engine/lease.ts\<close>).
  \<^item> \<open>Action\<close>, \<open>Engine\<close>: asynchronous functions as functions of a state that return or throw, and what the engine shares:
    its state and host, \<^verbatim>\<open>appendChained\<close>, \<^verbatim>\<open>projectionToReceipt\<close>, the escalation sink, the client of the coordinator.
  \<^item> \<open>Steps\<close>, \<open>Execute\<close>: one step over an outside world whose operations are arguments, probing (\<^verbatim>\<open>engine/steps/*.ts\<close>,
    \<^verbatim>\<open>engine/probe.ts\<close>), and \<^verbatim>\<open>executePlan\<close> with gates, leases, attempts, retries and its exception handler.
  \<^item> \<open>Verify\<close>, \<open>Drafter\<close>: the verifier with its policy and gates, the drafter and the pipeline of both (\<^verbatim>\<open>verify/*.ts\<close>).
  \<^item> \<open>Undo\<close>: \<^verbatim>\<open>undoSaga\<close>, its table of transitions and its report (\<^verbatim>\<open>engine/undo.ts\<close>, \<^verbatim>\<open>core/report.ts\<close>).
  \<^item> \<open>Redact\<close>: what is kept of arguments and the intent key (\<^verbatim>\<open>redact.ts\<close>, \<^verbatim>\<open>core/intent.ts\<close>); \<open>Shield\<close>: the LexShield policy and the
    off-path classifier (\<^verbatim>\<open>policy/lexshield.ts\<close>, \<^verbatim>\<open>classify/model.ts\<close>); \<open>Registry\<close>: the registry and its gates (\<^verbatim>\<open>registry.ts\<close>).
  \<^item> \<open>Capture\<close>: \<^verbatim>\<open>openEffect\<close>, \<^verbatim>\<open>closeEffect\<close> and the pass over effects that were never closed (\<^verbatim>\<open>effect.ts\<close>), with the preimage store
    and the effects in flight; \<open>Writes\<close> and \<open>Captured\<close> hold its lemmas; \<open>Saga\<close>: opening, resuming and running effects (\<^verbatim>\<open>saga.ts\<close>).
  \<^item> \<open>Inbox\<close>: raising an escalation at VekInbox and the webhook that resumes it (\<^verbatim>\<open>escalate/vekinbox.ts\<close>).
\<close>

section \<open>State, errors and hosts\<close>

text \<open>
  The engine's state is the record \<open>engine\<close>: the outside world (a type parameter), the memory ledger, and the number of
  clock readings and random identifiers drawn so far, so that time and randomness are functions of that number.  The
  capture (\<open>capture\<close>), the inbox (\<open>inbox\<close>) and a session (\<open>session\<close>) hold an engine and their own maps, and run its functions
  by \<open>zoom\<close>.  A function of the code is an \<open>action\<close>: it maps the state to the state it leaves and a result or an error, and
  an error keeps the changes made before it.  Other tasks and processes are functions of the host that change the ledger
  at the points where the code waits.  In the purely functional parts an error is a value of a sum or a record of the code.

  What is not in the repository is an argument: SHA-256, HMAC and Ed25519, the URL parser, date parsing, regular
  expressions of a configuration, the matching of the registry inside the engine, \<^verbatim>\<open>fetch\<close>, child processes, language models,
  the file system and databases of steps and probes, and the import of modules.  The theorems hold for all of them; where one needs
  more, it says so (for example that a failed digest comparison exhibits a collision, or that the clock advances).
\<close>

section \<open>What is proved\<close>

text \<open>
  \<^item> Undoing: the order and the halting of an undo, that its report tells the truth, what it never executes by itself, that a dry
    run changes nothing, and that compensations end.
  \<^item> Capturing: nothing runs before it is announced and passed by the policy; closing never throws once the receipt is sealed, and
    its rows are well typed and read back as the receipt; running an effect returns what the action returns; a resumed saga has
    no effect left that was never closed.
  \<^item> Compiling: a plan is well formed, its arguments are references, it stays within the receipt.
  \<^item> Executing: a plan runs once, only past its gates, each step under current fences and a guard; SQL text holds no value; a
    restored file has the recorded content; the undoing of a row statement restores the table.
  \<^item> Models: a draft depends on shapes only, a model cannot improve a verdict or lower a tier, what the pipeline lets through.
  \<^item> Approvals and policy: a webhook acts only on an authentic approval of the very plan; the policy fails closed; a matched manifest has
    passed the gate; hidden arguments do not show.
  \<^item> Ledger and chain: tamper evidence, equality of canonical texts, invariants of the fold, rebuilds without divergence, the
    refinement of the memory ledger by the SQL ledger, monotone fences of the coordinator, all-or-nothing acquisition.

  Interfaces are locales: \<open>preserved\<close> (a relation between states that actions keep; interpreted for each such relation) and
  \<open>lease_store\<close> with its extension \<open>fenced_store\<close> (interpreted for the coordinator; the plain one also for the two ledgers, which do
  not keep fences monotone).  Beside the properties, lemmas named in the notes of the project record where the code does not do
  what it means to.
\<close>

section \<open>Bounds\<close>

text \<open>
  Two loops wait for other processes and run on fuel: \<^verbatim>\<open>acquireAll\<close> has one pass more than the wait has milliseconds
  (\<open>acquire_all_returns\<close> shows that this is enough, as every sleep takes at least one), and the wait for an attempt has as
  many rounds as there are milliseconds to its deadline (\<open>existing_attempt_returns\<close> shows that it never runs out when the clock
  advances).  All other recursions are structural or end by a measure.  A character is a UTF-16 code unit below 256 (bytes are taken of its
  UTF-8 form); integers are unbounded, except in Crockford's encoding, which computes on 32 bits as the code does.
\<close>

section \<open>Not modelled\<close>

text \<open>
  \<^item> The interceptors of \<^verbatim>\<open>capture/\<close> (\<^verbatim>\<open>fs.ts\<close>, \<^verbatim>\<open>sql.ts\<close>, \<^verbatim>\<open>http.ts\<close>, \<^verbatim>\<open>mcp.ts\<close>) patch the process around the modelled \<^verbatim>\<open>openEffect\<close> and
    \<^verbatim>\<open>closeEffect\<close>; the client (\<^verbatim>\<open>index.ts\<close>), configuration, context and proxy construct and call the modelled parts.
  \<^item> The drivers and transports of the ledgers and of the coordinator, and the file hooks of the JSONL ledger; the event log of the
    coordinator's store.  Capturing, executing and approving are modelled over the memory ledger.
  \<^item> The heartbeat timer of leases, AsyncLocalStorage and timeouts: a timeout is an answer of the host.
  \<^item> The command line, the scripts that generate test data, the benchmarks, and the type declarations of the event extension.
\<close>

end
